theory Spec2Isabelle
  imports Main "HOL-Library.AList" "HOL-Library.Code_Target_Nat"
begin

section \<open>Text helpers\<close>

text \<open>
  Source text and every string of the program are modelled as \<^typ>\<open>string\<close>, one
  \<^typ>\<open>char\<close> per JavaScript code unit below 256. The white space of
  \<^verbatim>\<open>String.prototype.trim\<close>, \<^verbatim>\<open>trimRight\<close> and of the regular expression class
  \<^verbatim>\<open>\s\<close> is, in that range, the characters 9 to 13, the space and the no-break
  space 160.
\<close>

definition isSpace :: "char \<Rightarrow> bool" where
  "isSpace c = (c \<in> set [CHR 0x09, CHR 0x0A, CHR 0x0B, CHR 0x0C, CHR 0x0D, CHR 0x20, CHR 0xA0])"

definition trimRight :: "string \<Rightarrow> string" where
  "trimRight s = rev (dropWhile isSpace (rev s))"

definition trim :: "string \<Rightarrow> string" where
  "trim s = dropWhile isSpace (trimRight s)"

text \<open>\<^verbatim>\<open>Array.prototype.join\<close> on an array of strings.\<close>

fun join :: "string \<Rightarrow> string list \<Rightarrow> string" where
  "join sep [] = []"
| "join sep [x] = x"
| "join sep (x # y # ys) = x @ sep @ join sep (y # ys)"

text \<open>The decimal text of a natural number, as \<^verbatim>\<open>'lm' + n\<close> renders an integer.\<close>

definition digitChar :: "nat \<Rightarrow> char" where
  "digitChar d = ''0123456789'' ! d"

fun natToString :: "nat \<Rightarrow> string" where
  "natToString n = (if n < 10 then [digitChar n] else natToString (n div 10) @ [digitChar (n mod 10)])"

section \<open>Tokenizer\<close>

text \<open>
  A token is an object with a \<^verbatim>\<open>type\<close> and, for four of the nine types, a
  \<^verbatim>\<open>value\<close>. The type names are the strings of the table \<^verbatim>\<open>TT\<close>.
\<close>

datatype token =
    KEYWORD string
  | IDENT string
  | STRING string
  | COLON
  | LBRACE
  | RBRACE
  | VALUE string
  | NEWLINE
  | EOF

fun tokType :: "token \<Rightarrow> string" where
  "tokType (KEYWORD v) = ''KEYWORD''"
| "tokType (IDENT v) = ''IDENT''"
| "tokType (STRING v) = ''STRING''"
| "tokType COLON = ''COLON''"
| "tokType LBRACE = ''LBRACE''"
| "tokType RBRACE = ''RBRACE''"
| "tokType (VALUE v) = ''VALUE''"
| "tokType NEWLINE = ''NEWLINE''"
| "tokType EOF = ''EOF''"

fun tokValue :: "token \<Rightarrow> string option" where
  "tokValue (KEYWORD v) = Some v"
| "tokValue (IDENT v) = Some v"
| "tokValue (STRING v) = Some v"
| "tokValue (VALUE v) = Some v"
| "tokValue t = None"

text \<open>
  \<^verbatim>\<open>KEYWORDS\<close> is an object literal, so \<^verbatim>\<open>KEYWORDS[word]\<close> finds its three own
  properties and also the properties every object inherits from
  \<^verbatim>\<open>Object.prototype\<close>, all of them truthy: a word such as \<^verbatim>\<open>constructor\<close> or
  \<^verbatim>\<open>toString\<close> is lexed as a keyword.
\<close>

definition objectPrototypeKeys :: "string list" where
  "objectPrototypeKeys =
     [''constructor'', ''__defineGetter__'', ''__defineSetter__'', ''hasOwnProperty'',
      ''__lookupGetter__'', ''__lookupSetter__'', ''isPrototypeOf'', ''propertyIsEnumerable'',
      ''toString'', ''valueOf'', ''__proto__'', ''toLocaleString'']"

definition KEYWORDS :: "string \<Rightarrow> bool" where
  "KEYWORDS word = (word \<in> set [''surface'', ''material'', ''text''] \<or> word \<in> set objectPrototypeKeys)"

definition isLineBreak :: "char \<Rightarrow> bool" where
  "isLineBreak c = (c = CHR 0x0A \<or> c = CHR 0x0D)"

definition isBlank :: "char \<Rightarrow> bool" where
  "isBlank c = (c = CHR 0x20 \<or> c = CHR 0x09)"

definition isIdentStart :: "char \<Rightarrow> bool" where
  "isIdentStart c = (let n = (of_char c :: nat) in
     (65 \<le> n \<and> n \<le> 90) \<or> (97 \<le> n \<and> n \<le> 122) \<or> c = CHR ''_'')"

definition isIdentChar :: "char \<Rightarrow> bool" where
  "isIdentChar c = (let n = (of_char c :: nat) in
     (65 \<le> n \<and> n \<le> 90) \<or> (97 \<le> n \<and> n \<le> 122) \<or> (48 \<le> n \<and> n \<le> 57)
       \<or> c = CHR ''_'' \<or> c = CHR ''-'')"

text \<open>\<^verbatim>\<open>src[i + 1] === c\<close>: false at the end of the text.\<close>

fun nextIs :: "char \<Rightarrow> string \<Rightarrow> bool" where
  "nextIs c [] = False"
| "nextIs c (d # ds) = (d = c)"

text \<open>
  The value loop: reads up to a line break or the start of a line comment. It returns the
  text read and the text left.
\<close>

fun readValue :: "string \<Rightarrow> string \<times> string" where
  "readValue [] = ([], [])"
| "readValue (c # cs) =
     (if isLineBreak c then ([], c # cs)
      else if c = CHR ''/'' \<and> nextIs (CHR ''/'') cs then ([], c # cs)
      else (c # fst (readValue cs), snd (readValue cs)))"

text \<open>
  The block comment loop, on the text after the opening \<^verbatim>\<open>/*\<close>: the text after the
  first \<^verbatim>\<open>*/\<close>, or nothing when the comment is never closed.
\<close>

fun skipBlockComment :: "string \<Rightarrow> string" where
  "skipBlockComment [] = []"
| "skipBlockComment (c # cs) =
     (if c = CHR ''*'' \<and> nextIs (CHR ''/'') cs then tl cs else skipBlockComment cs)"

lemma length_readValue: "length (snd (readValue s)) \<le> length s"
  by (induction s) auto

lemma length_skipBlockComment: "length (skipBlockComment s) \<le> length s"
  by (induction s) (auto simp: le_SucI)

function tokenizeFrom :: "bool \<Rightarrow> string \<Rightarrow> token list" where
  "tokenizeFrom afterColon [] = [EOF]"
| "tokenizeFrom afterColon (ch # cs) =
     (if isLineBreak ch then NEWLINE # tokenizeFrom False cs
      else if afterColon then
        (let s = dropWhile isBlank (ch # cs);
             val = trimRight (fst (readValue s))
         in (if val \<noteq> [] then [VALUE val] else []) @ tokenizeFrom False (snd (readValue s)))
      else if isBlank ch then tokenizeFrom False cs
      else if ch = CHR ''/'' \<and> nextIs (CHR ''/'') cs then
        tokenizeFrom False (dropWhile (\<lambda>c. c \<noteq> CHR 0x0A) (ch # cs))
      else if ch = CHR ''/'' \<and> nextIs (CHR ''*'') cs then
        tokenizeFrom False (skipBlockComment (tl cs))
      else if ch = CHR ''{'' then LBRACE # tokenizeFrom False cs
      else if ch = CHR ''}'' then RBRACE # tokenizeFrom False cs
      else if ch = CHR '':'' then COLON # tokenizeFrom True cs
      else if ch = CHR 0x22 then
        STRING (takeWhile (\<lambda>c. c \<noteq> CHR 0x22) cs)
          # tokenizeFrom False (drop 1 (dropWhile (\<lambda>c. c \<noteq> CHR 0x22) cs))
      else if isIdentStart ch then
        (let word = takeWhile isIdentChar (ch # cs)
         in (if KEYWORDS word then KEYWORD word else IDENT word)
              # tokenizeFrom False (dropWhile isIdentChar (ch # cs)))
      else tokenizeFrom False cs)"
  by pat_completeness auto
termination
proof (relation "measure (\<lambda>(a, s). 2 * length s + (if a then 1 else 0))", goal_cases)
  case 1
  show ?case by simp
next
  case (2 afterColon ch cs)
  then show ?case by simp
next
  case (3 afterColon ch cs s val)
  have "length (snd (readValue s)) \<le> length s" by (rule length_readValue)
  moreover have "length s \<le> length (ch # cs)" unfolding 3(3) by (rule length_dropWhile_le)
  ultimately show ?case using 3 by simp
next
  case (4 afterColon ch cs)
  then show ?case by simp
next
  case (5 afterColon ch cs)
  have "length (dropWhile (\<lambda>c. c \<noteq> CHR 0x0A) cs) \<le> length cs"
    by (rule length_dropWhile_le)
  then show ?case using 5 by (simp add: isLineBreak_def)
next
  case (6 afterColon ch cs)
  have "length (skipBlockComment (tl cs)) \<le> length (tl cs)" by (rule length_skipBlockComment)
  then show ?case using 6 by simp
next
  case (7 afterColon ch cs)
  then show ?case by simp
next
  case (8 afterColon ch cs)
  then show ?case by simp
next
  case (9 afterColon ch cs)
  then show ?case by simp
next
  case (10 afterColon ch cs)
  have "length (drop 1 (dropWhile (\<lambda>c. c \<noteq> CHR 0x22) cs)) \<le> length cs"
    using length_dropWhile_le [of "\<lambda>c. c \<noteq> CHR 0x22" cs] by simp
  then show ?case using 10 by simp
next
  case (11 afterColon ch cs word)
  have "isIdentChar ch" using 11 by (auto simp: isIdentStart_def isIdentChar_def Let_def)
  then have "length (dropWhile isIdentChar (ch # cs)) \<le> length cs"
    by (simp add: length_dropWhile_le)
  then show ?case using 11 by simp
next
  case (12 afterColon ch cs)
  then show ?case by simp
qed

definition tokenize :: "string \<Rightarrow> token list" where
  "tokenize src = tokenizeFrom False src"

section \<open>Parser\<close>

text \<open>
  The parser reads the token array through a cursor. The model passes the tokens from the
  cursor on; a function returns what it built with the tokens left. Reading past the end
  of the array gives \<^verbatim>\<open>undefined\<close>, whose \<^verbatim>\<open>.type\<close> raises a
  \<^verbatim>\<open>TypeError\<close>; \<^verbatim>\<open>expect\<close> raises a \<^verbatim>\<open>LumenError\<close> with its message.
\<close>

datatype error = LumenError string | TypeError | RangeError

datatype property = Property (p_key: string) (p_value: string)

datatype node =
    Surface string "property list" "node list"
  | Material string "property list"
  | Text string "property list"

fun expect :: "string \<Rightarrow> token list \<Rightarrow> error + (token \<times> token list)" where
  "expect ty [] = Inl TypeError"
| "expect ty (tok # ts) =
     (if tokType tok \<noteq> ty then
        Inl (LumenError (''Parse Error: Expected '' @ ty @ '' but got '' @ tokType tok @
          (case tokValue tok of
             Some v \<Rightarrow> if v \<noteq> [] then '' ('' @ [CHR 0x22] @ v @ [CHR 0x22] @ '')'' else []
           | None \<Rightarrow> [])))
      else Inr (tok, ts))"

fun skipNewlines :: "token list \<Rightarrow> error + token list" where
  "skipNewlines [] = Inl TypeError"
| "skipNewlines (NEWLINE # ts) = skipNewlines ts"
| "skipNewlines (t # ts) = Inr (t # ts)"

definition valueText :: "token \<Rightarrow> string" where
  "valueText tok = (case tokValue tok of Some v \<Rightarrow> v | None \<Rightarrow> ''undefined'')"

fun parseProperty :: "token list \<Rightarrow> error + (property option \<times> token list)" where
  "parseProperty [] = Inl TypeError"
| "parseProperty (tok # ts) =
     (case skipNewlines ts of
        Inl e \<Rightarrow> Inl e
      | Inr ts1 \<Rightarrow>
          (case ts1 of
             COLON # ts2 \<Rightarrow>
               (case ts2 of
                  [] \<Rightarrow> Inl TypeError
                | VALUE v # ts3 \<Rightarrow> Inr (Some (Property (valueText tok) (trim v)), ts3)
                | STRING s # ts3 \<Rightarrow>
                    Inr (Some (Property (valueText tok) (trim ([CHR 0x22] @ s @ [CHR 0x22]))), ts3)
                | _ \<Rightarrow> Inr (Some (Property (valueText tok) (trim [])), ts2))
           | _ \<Rightarrow> Inr (None, ts1)))"

lemma skipNewlines_length: "skipNewlines ts = Inr r \<Longrightarrow> length r \<le> length ts"
  by (induction ts rule: skipNewlines.induct) auto

lemma skipNewlines_head: "skipNewlines ts = Inr r \<Longrightarrow> r \<noteq> [] \<and> hd r \<noteq> NEWLINE"
  by (induction ts rule: skipNewlines.induct) auto

lemma parseProperty_length: "parseProperty ts = Inr (p, r) \<Longrightarrow> length r < length ts"
  by (cases ts) (auto split: sum.splits list.splits token.splits dest: skipNewlines_length)

function propertyLoop :: "token list \<Rightarrow> property list \<Rightarrow> error + (property list \<times> token list)" where
  "propertyLoop ts props =
     (case ts of
        [] \<Rightarrow> Inl TypeError
      | t # _ \<Rightarrow>
          if t = RBRACE \<or> t = EOF then Inr (props, ts)
          else
            (case skipNewlines ts of
               Inl e \<Rightarrow> Inl e
             | Inr ts1 \<Rightarrow>
                 if hd ts1 = RBRACE then Inr (props, ts1)
                 else if tokType (hd ts1) = ''IDENT'' then
                   (case parseProperty ts1 of
                      Inl e \<Rightarrow> Inl e
                    | Inr (pr, ts2) \<Rightarrow>
                        (case skipNewlines ts2 of
                           Inl e \<Rightarrow> Inl e
                         | Inr ts3 \<Rightarrow>
                             propertyLoop ts3 (case pr of Some p \<Rightarrow> props @ [p] | None \<Rightarrow> props)))
                 else
                   (case skipNewlines (tl ts1) of
                      Inl e \<Rightarrow> Inl e
                    | Inr ts3 \<Rightarrow> propertyLoop ts3 props)))"
  by pat_completeness auto
termination
proof (relation "measure (\<lambda>(ts, props). length ts)", goal_cases)
  case 1
  show ?case by simp
next
  case 2
  then show ?case
    by (auto simp del: parseProperty.simps skipNewlines.simps
        dest!: skipNewlines_length parseProperty_length)
next
  case (3 ts props t rest ts1 ts3)
  have "length ts3 \<le> length (tl ts1)" using 3 by (auto dest: skipNewlines_length)
  moreover have "ts1 \<noteq> []" using 3 by (auto dest: skipNewlines_head)
  moreover have "length ts1 \<le> length ts" using 3 by (auto dest: skipNewlines_length)
  ultimately show ?case by (cases ts1) auto
qed

declare propertyLoop.simps [simp del]

lemma propertyLoop_length: "propertyLoop ts props = Inr (ps, r) \<Longrightarrow> length r \<le> length ts"
proof (induction "length ts" arbitrary: ts props rule: less_induct)
  case less
  note IH = less.hyps
  show ?case
  proof (cases ts)
    case Nil
    with less.prems show ?thesis by (simp add: propertyLoop.simps)
  next
    case (Cons t rest)
    show ?thesis
    proof (cases "t = RBRACE \<or> t = EOF")
      case True
      with less.prems Cons show ?thesis by (auto simp: propertyLoop.simps)
    next
      case False
      then obtain ts1 where s1: "skipNewlines ts = Inr ts1"
        using less.prems Cons by (auto simp: propertyLoop.simps split: sum.splits)
      have l1: "length ts1 \<le> length ts" and ne: "ts1 \<noteq> []"
        using s1 by (auto dest: skipNewlines_length skipNewlines_head)
      show ?thesis
      proof (cases "hd ts1 = RBRACE")
        case True
        with less.prems Cons False s1 l1 show ?thesis by (auto simp: propertyLoop.simps)
      next
        case nb: False
        show ?thesis
        proof (cases "tokType (hd ts1) = ''IDENT''")
          case True
          then obtain pr ts2 ts3 where pp: "parseProperty ts1 = Inr (pr, ts2)"
            and s3: "skipNewlines ts2 = Inr ts3"
            and rec: "propertyLoop ts3 (case pr of Some p \<Rightarrow> props @ [p] | None \<Rightarrow> props) = Inr (ps, r)"
            using less.prems Cons False s1 nb
            by (auto simp: propertyLoop.simps split: sum.splits prod.splits)
          have "length ts3 < length ts"
            using pp s3 l1 by (auto dest!: skipNewlines_length parseProperty_length)
          with IH [OF this rec] show ?thesis by simp
        next
          case False
          then obtain ts3 where s3: "skipNewlines (tl ts1) = Inr ts3"
            and rec: "propertyLoop ts3 props = Inr (ps, r)"
            using less.prems Cons \<open>\<not> (t = RBRACE \<or> t = EOF)\<close> s1 nb
            by (auto simp: propertyLoop.simps split: sum.splits prod.splits)
          have "length ts3 < length ts"
            using s3 l1 ne by (cases ts1) (auto dest!: skipNewlines_length)
          with IH [OF this rec] show ?thesis by simp
        qed
      qed
    qed
  qed
qed


lemma expect_length: "expect ty ts = Inr (t, r) \<Longrightarrow> length r < length ts"
  by (cases ts) (auto split: if_splits)

definition parseText :: "token list \<Rightarrow> error + (node \<times> token list)" where
  "parseText ts =
     (case expect ''KEYWORD'' ts of
        Inl e \<Rightarrow> Inl e
      | Inr (kw, ts1) \<Rightarrow>
     (case expect ''STRING'' ts1 of
        Inl e \<Rightarrow> Inl e
      | Inr (content, ts2) \<Rightarrow>
     (case skipNewlines ts2 of
        Inl e \<Rightarrow> Inl e
      | Inr ts3 \<Rightarrow>
          if hd ts3 = LBRACE then
            (case skipNewlines (tl ts3) of
               Inl e \<Rightarrow> Inl e
             | Inr ts4 \<Rightarrow>
            (case propertyLoop ts4 [] of
               Inl e \<Rightarrow> Inl e
             | Inr (properties, ts5) \<Rightarrow>
            (case expect ''RBRACE'' ts5 of
               Inl e \<Rightarrow> Inl e
             | Inr (rb, ts6) \<Rightarrow> Inr (Text (valueText content) properties, ts6))))
          else Inr (Text (valueText content) [], ts3))))"

lemma parseText_length: "parseText ts = Inr (n, r) \<Longrightarrow> length r < length ts"
  unfolding parseText_def
  by (auto split: sum.splits prod.splits if_splits
      dest!: expect_length skipNewlines_length propertyLoop_length)

function parseSurface :: "token list \<Rightarrow> error + (node \<times> token list)"
  and surfaceLoop :: "token list \<Rightarrow> property list \<Rightarrow> node list
        \<Rightarrow> error + (property list \<times> node list \<times> token list)" where
  "parseSurface ts =
     (case expect ''KEYWORD'' ts of
        Inl e \<Rightarrow> Inl e
      | Inr (kw, ts1) \<Rightarrow>
     (case expect ''IDENT'' ts1 of
        Inl e \<Rightarrow> Inl e
      | Inr (name, ts2) \<Rightarrow>
     (case skipNewlines ts2 of
        Inl e \<Rightarrow> Inl e
      | Inr ts3 \<Rightarrow>
     (case expect ''LBRACE'' ts3 of
        Inl e \<Rightarrow> Inl e
      | Inr (lb, ts4) \<Rightarrow>
     (case skipNewlines ts4 of
        Inl e \<Rightarrow> Inl e
      | Inr ts5 \<Rightarrow>
     (case surfaceLoop ts5 [] [] of
        Inl e \<Rightarrow> Inl e
      | Inr (properties, children, ts6) \<Rightarrow>
     (case expect ''RBRACE'' ts6 of
        Inl e \<Rightarrow> Inl e
      | Inr (rb, ts7) \<Rightarrow> Inr (Surface (valueText name) properties children, ts7))))))))"
| "surfaceLoop ts properties children =
     (case ts of
        [] \<Rightarrow> Inl TypeError
      | t # _ \<Rightarrow>
          if t = RBRACE \<or> t = EOF then Inr (properties, children, ts)
          else
            (case skipNewlines ts of
               Inl e \<Rightarrow> Inl e
             | Inr ts1 \<Rightarrow>
                 if hd ts1 = RBRACE then Inr (properties, children, ts1)
                 else if hd ts1 = KEYWORD ''surface'' then
                   (case parseSurface ts1 of
                      Inl e \<Rightarrow> Inl e
                    | Inr (child, ts2) \<Rightarrow>
                        (case skipNewlines ts2 of
                           Inl e \<Rightarrow> Inl e
                         | Inr ts3 \<Rightarrow> surfaceLoop ts3 properties (children @ [child])))
                 else if hd ts1 = KEYWORD ''text'' then
                   (case parseText ts1 of
                      Inl e \<Rightarrow> Inl e
                    | Inr (child, ts2) \<Rightarrow>
                        (case skipNewlines ts2 of
                           Inl e \<Rightarrow> Inl e
                         | Inr ts3 \<Rightarrow> surfaceLoop ts3 properties (children @ [child])))
                 else if tokType (hd ts1) = ''IDENT'' then
                   (case parseProperty ts1 of
                      Inl e \<Rightarrow> Inl e
                    | Inr (pr, ts2) \<Rightarrow>
                        (case skipNewlines ts2 of
                           Inl e \<Rightarrow> Inl e
                         | Inr ts3 \<Rightarrow>
                             surfaceLoop ts3
                               (case pr of Some p \<Rightarrow> properties @ [p] | None \<Rightarrow> properties)
                               children))
                 else surfaceLoop (tl ts1) properties children))"
  by pat_completeness auto

lemma parseSurface_shrinks_dom:
  "parseSurface_surfaceLoop_dom (Inl ts) \<Longrightarrow> parseSurface ts = Inr (n, r) \<Longrightarrow> length r < length ts"
  "parseSurface_surfaceLoop_dom (Inr (ts', ps, cs)) \<Longrightarrow> surfaceLoop ts' ps cs = Inr (ps', cs', r') \<Longrightarrow> length r' \<le> length ts'"
proof (induction ts and ts' ps cs arbitrary: n r and ps' cs' r' rule: parseSurface_surfaceLoop.pinduct)
  case (1 ts)
  from "1.prems" "1.hyps" obtain kw ts1 name ts2 ts3 lb ts4 ts5 properties children ts6 rb where
    e1: "expect ''KEYWORD'' ts = Inr (kw, ts1)" and e2: "expect ''IDENT'' ts1 = Inr (name, ts2)"
    and s3: "skipNewlines ts2 = Inr ts3" and e4: "expect ''LBRACE'' ts3 = Inr (lb, ts4)"
    and s5: "skipNewlines ts4 = Inr ts5"
    and lp: "surfaceLoop ts5 [] [] = Inr (properties, children, ts6)"
    and e7: "expect ''RBRACE'' ts6 = Inr (rb, r)"
    by (auto simp: parseSurface.psimps split: sum.splits prod.splits)
  have "length ts6 \<le> length ts5"
    using "1.IH" [OF e1 _ e2 _ s3 e4 _ s5 lp] by simp
  then show ?case
    using e1 e2 s3 e4 s5 e7 by (auto dest!: expect_length skipNewlines_length)
next
  case (2 ts properties children)
  note dom = "2.hyps"(1)
  show ?case
  proof (cases ts)
    case Nil
    with "2.prems" dom show ?thesis by (simp add: surfaceLoop.psimps)
  next
    case (Cons t rest)
    show ?thesis
    proof (cases "t = RBRACE \<or> t = EOF")
      case True
      with "2.prems" dom Cons show ?thesis by (auto simp: surfaceLoop.psimps)
    next
      case nend: False
      then obtain ts1 where s1: "skipNewlines ts = Inr ts1"
        using "2.prems" dom Cons by (auto simp: surfaceLoop.psimps split: sum.splits)
      have l1: "length ts1 \<le> length ts" and ne: "ts1 \<noteq> []"
        using s1 by (auto dest: skipNewlines_length skipNewlines_head)
      show ?thesis
      proof (cases "hd ts1 = RBRACE")
        case True
        with "2.prems" dom Cons nend s1 l1 show ?thesis by (auto simp: surfaceLoop.psimps)
      next
        case nb: False
        show ?thesis
        proof (cases "hd ts1 = KEYWORD ''surface''")
          case True
          then obtain child ts2 ts3 where pp: "parseSurface ts1 = Inr (child, ts2)"
            and s3: "skipNewlines ts2 = Inr ts3"
            and rec: "surfaceLoop ts3 properties (children @ [child]) = Inr (ps', cs', r')"
            using "2.prems" dom Cons nend s1 nb
            by (auto simp: surfaceLoop.psimps split: sum.splits prod.splits)
          have "length ts2 < length ts1"
            using "2.IH"(1) [OF Cons nend s1 nb True pp] .
          moreover have "length r' \<le> length ts3"
            using "2.IH"(2) [OF Cons nend s1 nb True pp _ s3 rec] by simp
          ultimately show ?thesis
            using s3 l1 by (auto dest!: skipNewlines_length)
        next
          case nsurf: False
          show ?thesis
          proof (cases "hd ts1 = KEYWORD ''text''")
            case True
            then obtain child ts2 ts3 where pp: "parseText ts1 = Inr (child, ts2)"
              and s3: "skipNewlines ts2 = Inr ts3"
              and rec: "surfaceLoop ts3 properties (children @ [child]) = Inr (ps', cs', r')"
              using "2.prems" dom Cons nend s1 nb nsurf
              by (auto simp: surfaceLoop.psimps split: sum.splits prod.splits)
            have "length r' \<le> length ts3"
              using "2.IH"(3) [OF Cons nend s1 nb nsurf True pp _ s3 rec] by simp
            then show ?thesis
              using pp s3 l1 by (auto dest!: skipNewlines_length parseText_length)
          next
            case ntext: False
            show ?thesis
            proof (cases "tokType (hd ts1) = ''IDENT''")
              case True
              then obtain pr ts2 ts3 where pp: "parseProperty ts1 = Inr (pr, ts2)"
                and s3: "skipNewlines ts2 = Inr ts3"
                and rec: "surfaceLoop ts3 (case pr of Some p \<Rightarrow> properties @ [p] | None \<Rightarrow> properties)
                            children = Inr (ps', cs', r')"
                using "2.prems" dom Cons nend s1 nb nsurf ntext
                by (auto simp: surfaceLoop.psimps split: sum.splits prod.splits)
              have "length r' \<le> length ts3"
                using "2.IH"(4) [OF Cons nend s1 nb nsurf ntext True pp _ s3 rec] by simp
              then show ?thesis
                using pp s3 l1 by (auto dest!: skipNewlines_length parseProperty_length)
            next
              case False
              then have rec: "surfaceLoop (tl ts1) properties children = Inr (ps', cs', r')"
                using "2.prems" dom Cons nend s1 nb nsurf ntext
                by (auto simp: surfaceLoop.psimps split: sum.splits prod.splits)
              have "length r' \<le> length (tl ts1)"
                using "2.IH"(5) [OF Cons nend s1 nb nsurf ntext False rec] .
              then show ?thesis using l1 by simp
            qed
          qed
        qed
      qed
    qed
  qed
qed


lemma parseSurface_total: "All parseSurface_surfaceLoop_dom"
proof (relation "measure (\<lambda>x. case x of Inl ts \<Rightarrow> 2 * length ts | Inr (ts, ps, cs) \<Rightarrow> 2 * length ts + 1)", goal_cases)
  case 1
  show ?case by simp
next
  case 2
  then show ?case by (auto dest!: expect_length skipNewlines_length)
next
  case 3
  then show ?case by (auto dest!: skipNewlines_length)
next
  case 4
  then show ?case
    by (auto simp del: skipNewlines.simps dest!: parseSurface_shrinks_dom(1) skipNewlines_length)
next
  case 5
  then show ?case
    by (auto simp del: skipNewlines.simps dest!: parseText_length skipNewlines_length)
next
  case 6
  then show ?case
    by (auto simp del: skipNewlines.simps parseProperty.simps dest!: parseProperty_length skipNewlines_length)
next
  case (7 ts properties children t rest ts1)
  have "ts1 \<noteq> []" using 7 by (auto dest: skipNewlines_head)
  moreover have "length ts1 \<le> length ts" using 7 by (auto dest: skipNewlines_length)
  ultimately show ?case by (cases ts1) auto
qed


termination parseSurface
  by (rule parseSurface_total)

declare parseSurface.simps [simp del] surfaceLoop.simps [simp del]

lemma parseSurface_length: "parseSurface ts = Inr (n, r) \<Longrightarrow> length r < length ts"
  by (rule parseSurface_shrinks_dom(1) [OF spec [OF parseSurface_total]])

definition parseMaterial :: "token list \<Rightarrow> error + (node \<times> token list)" where
  "parseMaterial ts =
     (case expect ''KEYWORD'' ts of
        Inl e \<Rightarrow> Inl e
      | Inr (kw, ts1) \<Rightarrow>
     (case expect ''IDENT'' ts1 of
        Inl e \<Rightarrow> Inl e
      | Inr (name, ts2) \<Rightarrow>
     (case skipNewlines ts2 of
        Inl e \<Rightarrow> Inl e
      | Inr ts3 \<Rightarrow>
     (case expect ''LBRACE'' ts3 of
        Inl e \<Rightarrow> Inl e
      | Inr (lb, ts4) \<Rightarrow>
     (case skipNewlines ts4 of
        Inl e \<Rightarrow> Inl e
      | Inr ts5 \<Rightarrow>
     (case propertyLoop ts5 [] of
        Inl e \<Rightarrow> Inl e
      | Inr (properties, ts6) \<Rightarrow>
     (case expect ''RBRACE'' ts6 of
        Inl e \<Rightarrow> Inl e
      | Inr (rb, ts7) \<Rightarrow> Inr (Material (valueText name) properties, ts7))))))))"

lemma parseMaterial_length: "parseMaterial ts = Inr (n, r) \<Longrightarrow> length r < length ts"
  unfolding parseMaterial_def
  by (auto split: sum.splits prod.splits dest!: expect_length skipNewlines_length propertyLoop_length)

definition parseStatement :: "token list \<Rightarrow> error + (node option \<times> token list)" where
  "parseStatement ts =
     (case ts of
        [] \<Rightarrow> Inl TypeError
      | tok # rest \<Rightarrow>
          if tok = KEYWORD ''surface'' then
            (case parseSurface ts of Inl e \<Rightarrow> Inl e | Inr (n, r) \<Rightarrow> Inr (Some n, r))
          else if tok = KEYWORD ''material'' then
            (case parseMaterial ts of Inl e \<Rightarrow> Inl e | Inr (n, r) \<Rightarrow> Inr (Some n, r))
          else Inr (None, rest))"

lemma parseStatement_length: "parseStatement ts = Inr (n, r) \<Longrightarrow> length r < length ts"
  unfolding parseStatement_def
  by (auto split: list.splits if_splits sum.splits prod.splits
      dest!: parseSurface_length parseMaterial_length)

datatype program = Program "node list"

function programLoop :: "token list \<Rightarrow> node list \<Rightarrow> error + node list" where
  "programLoop ts body =
     (case ts of
        [] \<Rightarrow> Inl TypeError
      | t # _ \<Rightarrow>
          if t = EOF then Inr body
          else
            (case parseStatement ts of
               Inl e \<Rightarrow> Inl e
             | Inr (node, ts1) \<Rightarrow>
                 (case skipNewlines ts1 of
                    Inl e \<Rightarrow> Inl e
                  | Inr ts2 \<Rightarrow>
                      programLoop ts2 (case node of Some n \<Rightarrow> body @ [n] | None \<Rightarrow> body))))"
  by pat_completeness auto
termination
proof (relation "measure (\<lambda>(ts, body). length ts)", goal_cases)
  case 1
  show ?case by simp
next
  case 2
  then show ?case
    by (auto simp del: skipNewlines.simps dest!: parseStatement_length skipNewlines_length)
qed

declare programLoop.simps [simp del]

definition parseProgram :: "token list \<Rightarrow> error + program" where
  "parseProgram ts =
     (case skipNewlines ts of
        Inl e \<Rightarrow> Inl e
      | Inr ts1 \<Rightarrow> (case programLoop ts1 [] of Inl e \<Rightarrow> Inl e | Inr body \<Rightarrow> Inr (Program body)))"

definition parse :: "token list \<Rightarrow> error + program" where
  "parse tokens = parseProgram tokens"


section \<open>Compiler\<close>

subsection \<open>The identifier counter\<close>

text \<open>
  \<^verbatim>\<open>_idCounter\<close> is shared by every call of \<^verbatim>\<open>compile\<close>; the model passes it in and
  returns it. It is a double: \<^verbatim>\<open>++_idCounter\<close> adds one up to \<open>2^53 = 9007199254740992\<close>
  and leaves that value unchanged.
\<close>

definition genId :: "nat \<Rightarrow> string \<times> nat" where
  "genId idCounter =
     (let c = (if idCounter < 9007199254740992 then idCounter + 1 else idCounter)
      in (''lm'' @ natToString c, c))"

subsection \<open>Value helpers\<close>

text \<open>
  \<^verbatim>\<open>parseFn\<close> matches \<^verbatim>\<open>/^([\w-]+)\((.+)\)$/\<close>: the longest run of word characters
  and hyphens, an opening parenthesis, at least one character other than a line break,
  and a closing parenthesis that ends the value. The arguments are split at the commas
  outside parentheses.
\<close>

fun splitArgs :: "string \<Rightarrow> int \<Rightarrow> string \<Rightarrow> string list \<Rightarrow> string list" where
  "splitArgs [] depth current args = (if trim current \<noteq> [] then args @ [trim current] else args)"
| "splitArgs (c # cs) depth current args =
     (if c = CHR ''('' then splitArgs cs (depth + 1) (current @ [c]) args
      else if c = CHR '')'' then splitArgs cs (depth - 1) (current @ [c]) args
      else if c = CHR '','' \<and> depth = 0 then splitArgs cs depth [] (args @ [trim current])
      else splitArgs cs depth (current @ [c]) args)"

definition parseFn :: "string \<Rightarrow> (string \<times> string list) option" where
  "parseFn value =
     (let name = takeWhile isIdentChar value; rest = dropWhile isIdentChar value
      in if name = [] then None
         else
           (case rest of
              [] \<Rightarrow> None
            | c # body \<Rightarrow>
                if c \<noteq> CHR ''('' \<or> body = [] then None
                else if last body \<noteq> CHR '')'' \<or> butlast body = []
                        \<or> list_ex isLineBreak (butlast body) then None
                else Some (name, splitArgs (butlast body) 0 [] [])))"

text \<open>
  \<^verbatim>\<open>parseInt(s, 16)\<close>: leading white space, a sign, a prefix \<^verbatim>\<open>0x\<close>, then the longest
  run of hexadecimal digits; \<^verbatim>\<open>NaN\<close> (here \<open>None\<close>) when the run is empty.
  \<^verbatim>\<open>hexToRgba\<close> applies it to slices of at most two characters.
\<close>

definition hexDigit :: "char \<Rightarrow> nat option" where
  "hexDigit c = (let n = (of_char c :: nat) in
     if 48 \<le> n \<and> n \<le> 57 then Some (n - 48)
     else if 97 \<le> n \<and> n \<le> 102 then Some (n - 87)
     else if 65 \<le> n \<and> n \<le> 70 then Some (n - 55)
     else None)"

definition parseInt16 :: "string \<Rightarrow> int option" where
  "parseInt16 str =
     (let s = dropWhile isSpace str;
          s1 = (if take 1 s = ''-'' \<or> take 1 s = ''+'' then drop 1 s else s);
          s2 = (if take 2 s1 = ''0x'' \<or> take 2 s1 = ''0X'' then drop 2 s1 else s1);
          digits = takeWhile (\<lambda>c. hexDigit c \<noteq> None) s2;
          n = foldl (\<lambda>n c. 16 * n + (case hexDigit c of Some v \<Rightarrow> v | None \<Rightarrow> 0)) 0 digits
      in if digits = [] then None
         else Some (if take 1 s = ''-'' then - int n else int n))"

definition numberText :: "int option \<Rightarrow> string" where
  "numberText x =
     (case x of
        None \<Rightarrow> ''NaN''
      | Some i \<Rightarrow> if i < 0 then ''-'' @ natToString (nat (- i)) else natToString (nat i))"

text \<open>
  \<^verbatim>\<open>hexToRgba(hex, alpha)\<close>; \<open>alpha\<close> is the text the number \<^verbatim>\<open>alpha\<close> has when it
  is appended to the string.
\<close>

definition hexToRgba :: "string \<Rightarrow> string \<Rightarrow> string" where
  "hexToRgba hex alpha =
     (let h0 = remove1 (CHR ''#'') hex;
          h = (if length h0 = 3 then concat (map (\<lambda>c. [c, c]) h0) else h0);
          r = parseInt16 (take 2 h);
          g = parseInt16 (take 2 (drop 2 h));
          b = parseInt16 (take 2 (drop 4 h))
      in ''rgba('' @ numberText r @ '', '' @ numberText g @ '', '' @ numberText b @ '', ''
           @ alpha @ '')'')"

subsection \<open>Objects of declarations\<close>

text \<open>
  A CSS object is the list of its string-keyed properties in creation order.
  \<^verbatim>\<open>Object.assign\<close> sets the properties of the source one by one: a key the target
  has keeps its place, a new key goes last, and setting \<^verbatim>\<open>__proto__\<close> to a string
  reaches the inherited setter, which ignores it. \<^verbatim>\<open>Object.entries\<close> lists the keys
  that are array indices first, in ascending order, and the others in creation order.
\<close>

type_synonym cssObject = "(string \<times> string) list"

definition setProperty :: "cssObject \<Rightarrow> string \<Rightarrow> string \<Rightarrow> cssObject" where
  "setProperty obj k v = (if k = ''__proto__'' then obj else AList.update k v obj)"

definition assign :: "cssObject \<Rightarrow> cssObject \<Rightarrow> cssObject" where
  "assign target source = foldl (\<lambda>obj kv. setProperty obj (fst kv) (snd kv)) target source"

definition decimalValue :: "string \<Rightarrow> nat" where
  "decimalValue s = foldl (\<lambda>n c. 10 * n + (of_char c - 48)) 0 s"

definition isArrayIndex :: "string \<Rightarrow> bool" where
  "isArrayIndex s =
     (s \<noteq> [] \<and> list_all (\<lambda>c. 48 \<le> (of_char c :: nat) \<and> (of_char c :: nat) \<le> 57) s
      \<and> (length s = 1 \<or> hd s \<noteq> CHR ''0'') \<and> decimalValue s < 4294967295)"

definition entries :: "cssObject \<Rightarrow> cssObject" where
  "entries obj =
     sort_key (\<lambda>kv. decimalValue (fst kv)) (filter (\<lambda>kv. isArrayIndex (fst kv)) obj)
       @ filter (\<lambda>kv. \<not> isArrayIndex (fst kv)) obj"

definition cssObjectToString :: "cssObject \<Rightarrow> string" where
  "cssObjectToString obj = join ''; '' (map (\<lambda>kv. fst kv @ '': '' @ snd kv) (entries obj))"

definition escapeHTML :: "string \<Rightarrow> string" where
  "escapeHTML str =
     concat (map (\<lambda>c. if c = CHR ''&'' then ''&amp;''
                        else if c = CHR ''<'' then ''&lt;''
                        else if c = CHR ''>'' then ''&gt;''
                        else if c = CHR 0x22 then ''&quot;''
                        else [c]) str)"

subsection \<open>Material resolution\<close>

text \<open>
  Two texts depend on the JavaScript engine and are parameters of the model:
  \<open>floatText s\<close> is \<^verbatim>\<open>String(parseFloat(s))\<close>, and \<open>nativeText k\<close> is the text of
  the member \<open>k\<close> of \<^verbatim>\<open>Object.prototype\<close>.
\<close>

record engine =
  floatText :: "string \<Rightarrow> string"
  nativeText :: "string \<Rightarrow> string"

text \<open>
  \<^verbatim>\<open>fn.args[i]\<close> where it is appended to a string or stored as a declaration value:
  \<^verbatim>\<open>undefined\<close> reads as the text \<^verbatim>\<open>undefined\<close>. \<^verbatim>\<open>fn.args[i] || d\<close> takes
  \<open>d\<close> for a missing or empty argument.
\<close>

definition argText :: "string list \<Rightarrow> nat \<Rightarrow> string" where
  "argText args i = (if i < length args then args ! i else ''undefined'')"

definition argOr :: "string list \<Rightarrow> nat \<Rightarrow> string \<Rightarrow> string" where
  "argOr args i d = (if i < length args \<and> args ! i \<noteq> [] then args ! i else d)"

definition noiseImage :: string where
  "noiseImage =
     ''url('' @ [CHR 0x22] @ ''data:image/svg+xml,%3Csvg viewBox='' @ [CHR 0x27] @
       ''0 0 200 200'' @ [CHR 0x27] @ '' xmlns='' @ [CHR 0x27] @
       ''http://www.w3.org/2000/svg'' @ [CHR 0x27] @ ''%3E%3Cfilter id='' @ [CHR 0x27] @
       ''n'' @ [CHR 0x27] @ ''%3E%3CfeTurbulence type='' @ [CHR 0x27] @ ''fractalNoise'' @
       [CHR 0x27] @ '' baseFrequency='' @ [CHR 0x27] @ ''0.65'' @ [CHR 0x27] @
       '' numOctaves='' @ [CHR 0x27] @ ''3'' @ [CHR 0x27] @ '' stitchTiles='' @ [CHR 0x27] @
       ''stitch'' @ [CHR 0x27] @ ''/%3E%3C/filter%3E%3Crect width='' @ [CHR 0x27] @
       ''100%25'' @ [CHR 0x27] @ '' height='' @ [CHR 0x27] @ ''100%25'' @ [CHR 0x27] @
       '' filter='' @ [CHR 0x27] @ ''url(%23n)'' @ [CHR 0x27] @ '' opacity='' @ [CHR 0x27] @
       ''0.04'' @ [CHR 0x27] @ ''/%3E%3C/svg%3E'' @ [CHR 0x22] @ '')''"

definition resolveMaterialValue :: "engine \<Rightarrow> string \<Rightarrow> cssObject" where
  "resolveMaterialValue E value =
     (case parseFn value of
        None \<Rightarrow> [(''background'', value)]
      | Some (name, args) \<Rightarrow>
          if name = ''solid'' then [(''background'', argText args 0)]
          else if name = ''gradient'' then
            (if length args = 2 then
               [(''background'', ''linear-gradient(135deg, '' @ join '', '' args @ '')'')]
             else
               [(''background'',
                 ''linear-gradient('' @ argText args 0 @ '', '' @ join '', '' (drop 1 args) @ '')'')])
          else if name = ''radial'' then
            [(''background'', ''radial-gradient(circle, '' @ join '', '' args @ '')'')]
          else if name = ''glass'' then
            (let gColor = argOr args 0 ''#ffffff'';
                 gOpacity = floatText E (argOr args 1 ''0.1'');
                 bgColor = (if take 1 gColor = ''#'' then hexToRgba gColor gOpacity else gColor)
             in [(''background'', bgColor),
                 (''backdrop-filter'', ''blur(12px)''),
                 (''-webkit-backdrop-filter'', ''blur(12px)'')])
          else if name = ''noise'' then
            (let nColor = argOr args 0 ''#1a1a2e''
             in [(''background'', nColor), (''background-image'', noiseImage)])
          else [(''background'', value)])"

text \<open>
  \<^verbatim>\<open>materialMap\<close> is an object literal filled by \<^verbatim>\<open>materialMap[node.name] = node\<close>.
  A name other than \<^verbatim>\<open>__proto__\<close> becomes an own property; \<^verbatim>\<open>__proto__\<close> makes the
  node the prototype of the map. \<^verbatim>\<open>materialMap[value]\<close> finds an own property, then
  what the map inherits: the three properties of a node that is its prototype, and the
  members of \<^verbatim>\<open>Object.prototype\<close>. Every value found is truthy; only a Material node
  has \<^verbatim>\<open>properties\<close>.
\<close>

record material_map =
  own :: "string \<rightharpoonup> property list"
  proto :: "property list option"

definition emptyMap :: material_map where
  "emptyMap = \<lparr>own = Map.empty, proto = None\<rparr>"

definition setMaterial :: "material_map \<Rightarrow> string \<Rightarrow> property list \<Rightarrow> material_map" where
  "setMaterial m name properties =
     (if name = ''__proto__'' then m\<lparr>proto := Some properties\<rparr>
      else m\<lparr>own := (own m)(name \<mapsto> properties)\<rparr>)"

datatype jsval = MaterialNode "property list" | NotANode

definition lookupMaterial :: "material_map \<Rightarrow> string \<Rightarrow> jsval option" where
  "lookupMaterial m value =
     (case own m value of
        Some properties \<Rightarrow> Some (MaterialNode properties)
      | None \<Rightarrow>
          (case proto m of
             Some properties \<Rightarrow>
               if value = ''__proto__'' then Some (MaterialNode properties)
               else if value \<in> set [''type'', ''name'', ''properties''] then Some NotANode
               else if value \<in> set objectPrototypeKeys then Some NotANode
               else None
           | None \<Rightarrow> if value \<in> set objectPrototypeKeys then Some NotANode else None))"

subsection \<open>Property resolution\<close>

text \<open>
  A material may name a material, itself included, so the recursion of
  \<^verbatim>\<open>resolveSurfaceProp\<close> and \<^verbatim>\<open>resolveMaterialNode\<close> need not end: JavaScript then
  raises a \<^verbatim>\<open>RangeError\<close> when the call stack is full. \<open>depth\<close> is the number of
  nested calls of \<^verbatim>\<open>resolveMaterialNode\<close> the stack still holds.
\<close>

definition alignItems :: "engine \<Rightarrow> string \<Rightarrow> string" where
  "alignItems E value =
     (if value = ''start'' then ''flex-start''
      else if value = ''end'' then ''flex-end''
      else if value \<in> set objectPrototypeKeys then nativeText E value
      else value)"

definition justifyContent :: "engine \<Rightarrow> string \<Rightarrow> string" where
  "justifyContent E value =
     (if value = ''start'' then ''flex-start''
      else if value = ''end'' then ''flex-end''
      else if value = ''between'' then ''space-between''
      else if value = ''around'' then ''space-around''
      else if value = ''evenly'' then ''space-evenly''
      else if value \<in> set objectPrototypeKeys then nativeText E value
      else value)"

function resolveSurfaceProp :: "engine \<Rightarrow> nat \<Rightarrow> string \<Rightarrow> string \<Rightarrow> material_map \<Rightarrow> error + cssObject"
  and resolveMaterialNode :: "engine \<Rightarrow> nat \<Rightarrow> jsval \<Rightarrow> material_map \<Rightarrow> error + cssObject"
  and forEachMaterialProp :: "engine \<Rightarrow> nat \<Rightarrow> property list \<Rightarrow> cssObject \<Rightarrow> material_map
        \<Rightarrow> error + cssObject" where
  "resolveSurfaceProp E depth key value materialMap =
     (if key = ''width'' then
        Inr (if value = ''fill'' then [(''flex'', ''1''), (''min-width'', ''0'')] else [(''width'', value)])
      else if key = ''height'' then
        Inr (if value = ''fill'' then [(''flex'', ''1''), (''min-height'', ''0'')] else [(''height'', value)])
      else if key = ''min-width'' then Inr [(''min-width'', value)]
      else if key = ''max-width'' then Inr [(''max-width'', value)]
      else if key = ''min-height'' then Inr [(''min-height'', value)]
      else if key = ''max-height'' then Inr [(''max-height'', value)]
      else if key = ''material'' then
        (case lookupMaterial materialMap value of
           Some node \<Rightarrow> resolveMaterialNode E depth node materialMap
         | None \<Rightarrow> Inr (resolveMaterialValue E value))
      else if key = ''use'' then
        (case lookupMaterial materialMap value of
           Some node \<Rightarrow> resolveMaterialNode E depth node materialMap
         | None \<Rightarrow> Inr [])
      else if key = ''layout'' then
        Inr [(''display'', ''flex''),
             (''flex-direction'',
              if takeWhile (\<lambda>c. \<not> isSpace c) value = ''row'' then ''row'' else ''column'')]
      else if key = ''gap'' then Inr [(''gap'', value)]
      else if key = ''wrap'' then Inr [(''flex-wrap'', if value = ''true'' then ''wrap'' else ''nowrap'')]
      else if key = ''align'' then Inr [(''align-items'', alignItems E value)]
      else if key = ''justify'' then Inr [(''justify-content'', justifyContent E value)]
      else if key = ''radius'' then Inr [(''border-radius'', value)]
      else if key = ''opacity'' then Inr [(''opacity'', value)]
      else if key = ''border'' then Inr [(''border'', value)]
      else if key = ''shadow'' then Inr [(''box-shadow'', value)]
      else if key = ''layer'' then Inr [(''z-index'', value)]
      else if key = ''overflow'' then Inr [(''overflow'', value)]
      else if key = ''cursor'' then Inr [(''cursor'', value)]
      else if key = ''padding'' then Inr [(''padding'', value)]
      else if key = ''margin'' then Inr [(''margin'', value)]
      else if key = ''transition'' then Inr [(''transition'', value)]
      else Inr [(key, value)])"
| "resolveMaterialNode E 0 node materialMap = Inl RangeError"
| "resolveMaterialNode E (Suc depth) node materialMap =
     (case node of
        NotANode \<Rightarrow> Inl TypeError
      | MaterialNode properties \<Rightarrow> forEachMaterialProp E depth properties [] materialMap)"
| "forEachMaterialProp E depth [] css materialMap = Inr css"
| "forEachMaterialProp E depth (p # rest) css materialMap =
     (case (if p_key p = ''color'' then Inr [(''background'', p_value p)]
            else resolveSurfaceProp E depth (p_key p) (p_value p) materialMap) of
        Inl e \<Rightarrow> Inl e
      | Inr resolved \<Rightarrow> forEachMaterialProp E depth rest (assign css resolved) materialMap)"
  by pat_completeness auto
termination
  by (relation "measures
       [\<lambda>x. case x of Inl (E, d, k, v, m) \<Rightarrow> d | Inr (Inl (E, d, n, m)) \<Rightarrow> d
                         | Inr (Inr (E, d, ps, c, m)) \<Rightarrow> d,
        \<lambda>x. case x of Inl (E, d, k, v, m) \<Rightarrow> 1 | Inr (Inl (E, d, n, m)) \<Rightarrow> 0
                         | Inr (Inr (E, d, ps, c, m)) \<Rightarrow> 2,
        \<lambda>x. case x of Inl (E, d, k, v, m) \<Rightarrow> 0 | Inr (Inl (E, d, n, m)) \<Rightarrow> 0
                         | Inr (Inr (E, d, ps, c, m)) \<Rightarrow> length ps]") auto

definition resolveTextProp :: "string \<Rightarrow> string \<Rightarrow> cssObject" where
  "resolveTextProp key value =
     (if key = ''font'' then [(''font-family'', value)]
      else if key = ''size'' then [(''font-size'', value)]
      else if key = ''color'' then [(''color'', value)]
      else if key = ''weight'' then [(''font-weight'', value)]
      else if key = ''align'' then [(''text-align'', value)]
      else if key = ''spacing'' then [(''letter-spacing'', value)]
      else if key = ''height'' then [(''line-height'', value)]
      else if key = ''style'' then [(''font-style'', value)]
      else if key = ''transform'' then [(''text-transform'', value)]
      else if key = ''decoration'' then [(''text-decoration'', value)]
      else if key = ''wrap'' then [(''white-space'', if value = ''false'' then ''nowrap'' else ''normal'')]
      else if key = ''padding'' then [(''padding'', value)]
      else [(key, value)])"

declare resolveSurfaceProp.simps [simp del]

subsection \<open>Surface and text compilation\<close>

text \<open>
  The fields of a node as the compiler reads them. A field the node does not have is
  \<^verbatim>\<open>undefined\<close>: as text it reads \<^verbatim>\<open>undefined\<close>.
\<close>

fun nodeProperties :: "node \<Rightarrow> property list" where
  "nodeProperties (Surface name properties children) = properties"
| "nodeProperties (Material name properties) = properties"
| "nodeProperties (Text content properties) = properties"

fun nodeContent :: "node \<Rightarrow> string" where
  "nodeContent (Text content properties) = content"
| "nodeContent n = ''undefined''"

text \<open>The loop \<^verbatim>\<open>node.properties.forEach\<close> of \<^verbatim>\<open>compileSurface\<close>.\<close>

fun forEachSurfaceProp :: "engine \<Rightarrow> nat \<Rightarrow> property list \<Rightarrow> cssObject \<Rightarrow> material_map
    \<Rightarrow> error + cssObject" where
  "forEachSurfaceProp E depth [] css materialMap = Inr css"
| "forEachSurfaceProp E depth (p # rest) css materialMap =
     (case resolveSurfaceProp E depth (p_key p) (p_value p) materialMap of
        Inl e \<Rightarrow> Inl e
      | Inr resolved \<Rightarrow> forEachSurfaceProp E depth rest (assign css resolved) materialMap)"

text \<open>The loop \<^verbatim>\<open>node.properties.forEach\<close> of \<^verbatim>\<open>compileText\<close>.\<close>

fun forEachTextProp :: "property list \<Rightarrow> cssObject \<Rightarrow> cssObject" where
  "forEachTextProp [] css = css"
| "forEachTextProp (p # rest) css =
     forEachTextProp rest (assign css (resolveTextProp (p_key p) (p_value p)))"

datatype rendered = Rendered (r_id: string) (r_css: string) (r_html: string)

definition compileText :: "node \<Rightarrow> nat \<Rightarrow> rendered \<times> nat" where
  "compileText node idCounter =
     (let (id, c) = genId idCounter;
          css = forEachTextProp (nodeProperties node)
                  [(''box-sizing'', ''border-box''), (''margin'', ''0'')];
          cssBlock = ''#'' @ id @ '' { '' @ cssObjectToString css @ '' }'';
          html = ''<p id='' @ [CHR 0x22] @ id @ [CHR 0x22] @ '' class='' @ [CHR 0x22]
                   @ ''lumen-text'' @ [CHR 0x22] @ ''>'' @ escapeHTML (nodeContent node) @ ''</p>''
      in (Rendered id cssBlock html, c))"

fun compileSurface :: "engine \<Rightarrow> nat \<Rightarrow> node \<Rightarrow> material_map \<Rightarrow> nat \<Rightarrow> (error + rendered) \<times> nat"
  and compileChildren :: "engine \<Rightarrow> nat \<Rightarrow> node list \<Rightarrow> material_map \<Rightarrow> nat
        \<Rightarrow> (error + string list \<times> string list) \<times> nat" where
  "compileSurface E maxDepth (Surface name properties children) materialMap idCounter =
     (let (id, c) = genId idCounter
      in case forEachSurfaceProp E maxDepth properties
                [(''box-sizing'', ''border-box''), (''position'', ''relative'')] materialMap of
           Inl e \<Rightarrow> (Inl e, c)
         | Inr css \<Rightarrow>
             (case compileChildren E maxDepth children materialMap c of
                (Inl e, c') \<Rightarrow> (Inl e, c')
              | (Inr (childCSSBlocks, childHTML), c') \<Rightarrow>
                  (let cssBlock = ''#'' @ id @ '' { '' @ cssObjectToString css @ '' }'';
                       allCSS = join [CHR 0x0A] (cssBlock # childCSSBlocks);
                       html = ''<div id='' @ [CHR 0x22] @ id @ [CHR 0x22] @ '' class='' @ [CHR 0x22]
                                @ ''lumen-surface'' @ [CHR 0x22] @ '' data-name='' @ [CHR 0x22]
                                @ escapeHTML name @ [CHR 0x22] @ ''>''
                                @ join [CHR 0x0A] childHTML @ ''</div>''
                   in (Inr (Rendered id allCSS html), c'))))"
| "compileSurface E maxDepth (Material name properties) materialMap idCounter =
     (let (id, c) = genId idCounter
      in case forEachSurfaceProp E maxDepth properties
                [(''box-sizing'', ''border-box''), (''position'', ''relative'')] materialMap of
           Inl e \<Rightarrow> (Inl e, c)
         | Inr css \<Rightarrow> (Inl TypeError, c))"
| "compileSurface E maxDepth (Text content properties) materialMap idCounter =
     (let (id, c) = genId idCounter
      in case forEachSurfaceProp E maxDepth properties
                [(''box-sizing'', ''border-box''), (''position'', ''relative'')] materialMap of
           Inl e \<Rightarrow> (Inl e, c)
         | Inr css \<Rightarrow> (Inl TypeError, c))"
| "compileChildren E maxDepth [] materialMap idCounter = (Inr ([], []), idCounter)"
| "compileChildren E maxDepth (child # rest) materialMap idCounter =
     (case child of
        Surface name properties children \<Rightarrow>
          (case compileSurface E maxDepth child materialMap idCounter of
             (Inl e, c) \<Rightarrow> (Inl e, c)
           | (Inr r, c) \<Rightarrow>
               (case compileChildren E maxDepth rest materialMap c of
                  (Inl e, c') \<Rightarrow> (Inl e, c')
                | (Inr (childCSSBlocks, childHTML), c') \<Rightarrow>
                    (Inr (r_css r # childCSSBlocks, r_html r # childHTML), c')))
      | Text content properties \<Rightarrow>
          (let (r2, c) = compileText child idCounter
           in case compileChildren E maxDepth rest materialMap c of
                (Inl e, c') \<Rightarrow> (Inl e, c')
              | (Inr (childCSSBlocks, childHTML), c') \<Rightarrow>
                  (Inr (r_css r2 # childCSSBlocks, r_html r2 # childHTML), c'))
      | Material name properties \<Rightarrow> compileChildren E maxDepth rest materialMap idCounter)"

subsection \<open>Main compile entry\<close>

datatype compiled = Compiled (out_css: string) (out_html: string)

definition collectMaterials :: "node list \<Rightarrow> material_map" where
  "collectMaterials body =
     foldl (\<lambda>m node. case node of Material name properties \<Rightarrow> setMaterial m name properties | _ \<Rightarrow> m)
       emptyMap body"

fun compileTop :: "engine \<Rightarrow> nat \<Rightarrow> node list \<Rightarrow> material_map \<Rightarrow> nat
    \<Rightarrow> (error + string list \<times> string list) \<times> nat" where
  "compileTop E maxDepth [] materialMap idCounter = (Inr ([], []), idCounter)"
| "compileTop E maxDepth (node # rest) materialMap idCounter =
     (case node of
        Surface name properties children \<Rightarrow>
          (case compileSurface E maxDepth node materialMap idCounter of
             (Inl e, c) \<Rightarrow> (Inl e, c)
           | (Inr r, c) \<Rightarrow>
               (case compileTop E maxDepth rest materialMap c of
                  (Inl e, c') \<Rightarrow> (Inl e, c')
                | (Inr (cssBlocks, htmlBlocks), c') \<Rightarrow>
                    (Inr (r_css r # cssBlocks, r_html r # htmlBlocks), c')))
      | _ \<Rightarrow> compileTop E maxDepth rest materialMap idCounter)"

definition compile :: "engine \<Rightarrow> nat \<Rightarrow> program \<Rightarrow> nat \<Rightarrow> (error + compiled) \<times> nat" where
  "compile E maxDepth ast idCounter =
     (case ast of
        Program body \<Rightarrow>
          (case compileTop E maxDepth body (collectMaterials body) idCounter of
             (Inl e, c) \<Rightarrow> (Inl e, c)
           | (Inr (cssBlocks, htmlBlocks), c) \<Rightarrow>
               (Inr (Compiled (join [CHR 0x0A] cssBlocks) (join [CHR 0x0A] htmlBlocks)), c)))"


subsection \<open>The pipeline\<close>

text \<open>
  What \<^verbatim>\<open>processScript\<close> computes before it touches the document: the tokens, the
  tree and the output of one source text. An error of the parser leaves the counter as
  it was.
\<close>

definition compileSource :: "engine \<Rightarrow> nat \<Rightarrow> string \<Rightarrow> nat \<Rightarrow> (error + compiled) \<times> nat" where
  "compileSource E maxDepth source idCounter =
     (case parse (tokenize source) of
        Inl e \<Rightarrow> (Inl e, idCounter)
      | Inr ast \<Rightarrow> compile E maxDepth ast idCounter)"

text \<open>
  An engine for the examples. They pass it the decimal text \<^verbatim>\<open>0.5\<close> only, which
  \<^verbatim>\<open>String(parseFloat(s))\<close> gives back unchanged in every engine.
\<close>

definition exampleEngine :: engine where
  "exampleEngine =
     \<lparr>floatText = (\<lambda>s. s), nativeText = (\<lambda>k. ''function '' @ k @ ''() { [native code] }'')\<rparr>"

subsection \<open>Notions of the specification\<close>

text \<open>
  The property list of a named style as the specification copies it onto a container:
  \<^verbatim>\<open>color\<close>, which a style definition reads as the background fill, is written
  \<^verbatim>\<open>background\<close>; every other property is copied as it is.
\<close>

definition inlineProp :: "property \<Rightarrow> property" where
  "inlineProp p = (if p_key p = ''color'' then Property ''background'' (p_value p) else p)"

text \<open>
  The definition of the style \<open>M\<close> that a program contains: the property list of the
  Material node of that name, of the last one when the program has several.
\<close>

fun lastDefinition :: "string \<Rightarrow> node list \<Rightarrow> property list option" where
  "lastDefinition M [] = None"
| "lastDefinition M (n # ns) =
     (case lastDefinition M ns of
        Some properties \<Rightarrow> Some properties
      | None \<Rightarrow>
          (case n of
             Material name properties \<Rightarrow> if name = M then Some properties else None
           | _ \<Rightarrow> None))"

text \<open>
  The program with the style copied inline: in every surface, at every depth, each
  property \<^verbatim>\<open>use: M\<close> or \<^verbatim>\<open>material: M\<close> is replaced, in its place, by the
  property list of the style. Style definitions and text nodes stay as they are.
\<close>

definition inlineRef :: "string \<Rightarrow> property list \<Rightarrow> property \<Rightarrow> property list" where
  "inlineRef M mprops p =
     (if (p_key p = ''use'' \<or> p_key p = ''material'') \<and> p_value p = M
      then map inlineProp mprops else [p])"

fun inlineRefs :: "string \<Rightarrow> property list \<Rightarrow> node \<Rightarrow> node" where
  "inlineRefs M mprops (Surface name properties children) =
     Surface name (concat (map (inlineRef M mprops) properties)) (map (inlineRefs M mprops) children)"
| "inlineRefs M mprops (Material name properties) = Material name properties"
| "inlineRefs M mprops (Text content properties) = Text content properties"





text \<open>
  The number of nodes a run renders, each with an identifier of its own: a surface, and
  below it its surfaces and its text nodes; at the top level the surfaces only.
\<close>

fun nodeCount :: "node \<Rightarrow> nat"
  and childCount :: "node list \<Rightarrow> nat" where
  "nodeCount (Surface name properties children) = Suc (childCount children)"
| "nodeCount (Material name properties) = 0"
| "nodeCount (Text content properties) = 1"
| "childCount [] = 0"
| "childCount (n # ns) = nodeCount n + childCount ns"

fun topCount :: "node list \<Rightarrow> nat" where
  "topCount [] = 0"
| "topCount (n # ns) =
     (case n of Surface name properties children \<Rightarrow> nodeCount n | _ \<Rightarrow> 0) + topCount ns"

fun programNodes :: "program \<Rightarrow> nat" where
  "programNodes (Program body) = topCount body"

text \<open>
  Two runs of \<^verbatim>\<open>compile\<close> on the same tree, one after the other. The counter
  \<^verbatim>\<open>_idCounter\<close> is the only state the module keeps between runs; with \<open>reset\<close> it is
  put back to its value before the first run, without it the second run starts where
  the first one ended.
\<close>

definition compileTwice :: "bool \<Rightarrow> engine \<Rightarrow> nat \<Rightarrow> program \<Rightarrow> nat
    \<Rightarrow> (error + compiled) \<times> (error + compiled)" where
  "compileTwice reset E maxDepth ast idCounter =
     (let (first, c1) = compile E maxDepth ast idCounter;
          (second, c2) = compile E maxDepth ast (if reset then idCounter else c1)
      in (first, second))"

section \<open>Properties of the model\<close>

subsection \<open>Objects of declarations\<close>

lemma assign_Nil [simp]: "assign target [] = target"
  by (simp add: assign_def)

lemma assign_Cons [simp]:
  "assign target (kv # source) = assign (setProperty target (fst kv) (snd kv)) source"
  by (simp add: assign_def)

lemma assign_append: "assign target (xs @ ys) = assign (assign target xs) ys"
  by (simp add: assign_def)

lemma distinct_setProperty:
  "distinct (map fst obj) \<Longrightarrow> distinct (map fst (setProperty obj k v))"
  by (simp add: setProperty_def distinct_update)

lemma distinct_assign: "distinct (map fst target) \<Longrightarrow> distinct (map fst (assign target source))"
  by (induction source arbitrary: target) (simp_all add: distinct_setProperty)

lemma keys_setProperty:
  "fst ` set (setProperty obj k v) = (if k = ''__proto__'' then {} else {k}) \<union> fst ` set obj"
  by (simp add: setProperty_def dom_update)

lemma map_of_setProperty:
  "map_of (setProperty obj k v) = (if k = ''__proto__'' then map_of obj else (map_of obj)(k \<mapsto> v))"
  by (simp add: setProperty_def update_conv')

lemma map_of_assign_other:
  "k \<notin> fst ` set source \<Longrightarrow> map_of (assign target source) k = map_of target k"
  by (induction source arbitrary: target) (auto simp: map_of_setProperty)

lemma map_of_assign_key:
  "distinct (map fst source) \<Longrightarrow> (k, v) \<in> set source \<Longrightarrow> k \<noteq> ''__proto__''
     \<Longrightarrow> map_of (assign target source) k = Some v"
proof (induction source arbitrary: target)
  case Nil
  then show ?case by simp
next
  case (Cons kv source)
  show ?case
  proof (cases "kv = (k, v)")
    case True
    then have "k \<notin> fst ` set source" using Cons.prems(1) by auto
    then show ?thesis using True Cons.prems(3)
      by (simp add: map_of_assign_other map_of_setProperty)
  next
    case False
    then show ?thesis using Cons by auto
  qed
qed

lemma update_commute:
  "k \<noteq> k' \<Longrightarrow> k \<in> fst ` set obj
     \<Longrightarrow> AList.update k v (AList.update k' v' obj) = AList.update k' v' (AList.update k v obj)"
  by (induction obj) auto

lemma setProperty_update_commute:
  "k \<noteq> k' \<Longrightarrow> k \<in> fst ` set obj
     \<Longrightarrow> setProperty (AList.update k v obj) k' v' = AList.update k v (setProperty obj k' v')"
  using update_commute [of k k' obj v v'] by (simp add: setProperty_def)

lemma assign_update_commute:
  "k \<notin> fst ` set source \<Longrightarrow> k \<in> fst ` set target
     \<Longrightarrow> assign (AList.update k v target) source = AList.update k v (assign target source)"
proof (induction source arbitrary: target)
  case Nil
  then show ?case by simp
next
  case (Cons kv source)
  have ne: "k \<noteq> fst kv" and notin: "k \<notin> fst ` set source" using Cons.prems(1) by auto
  have "k \<in> fst ` set (setProperty target (fst kv) (snd kv))"
    using Cons.prems(2) by (simp add: keys_setProperty)
  then show ?case
    using Cons.IH [OF notin] ne Cons.prems(2) by (simp add: setProperty_update_commute)
qed

lemma assign_update_in:
  "distinct (map fst acc) \<Longrightarrow> k \<in> fst ` set acc \<Longrightarrow> k \<noteq> ''__proto__''
     \<Longrightarrow> assign target (AList.update k v acc) = AList.update k v (assign target acc)"
proof (induction acc arbitrary: target)
  case Nil
  then show ?case by simp
next
  case (Cons kv acc)
  show ?case
  proof (cases "fst kv = k")
    case True
    then have notin: "k \<notin> fst ` set acc" using Cons.prems(1) by (cases kv) auto
    have "assign target (AList.update k v (kv # acc)) = assign (AList.update k v target) acc"
      using True Cons.prems(3) by (cases kv) (simp add: setProperty_def)
    also have "\<dots> = assign (AList.update k v (AList.update k (snd kv) target)) acc" by simp
    also have "\<dots> = AList.update k v (assign (AList.update k (snd kv) target) acc)"
      by (rule assign_update_commute [OF notin]) (simp add: dom_update)
    finally show ?thesis using True Cons.prems(3) by (simp add: setProperty_def)
  next
    case False
    then have "k \<in> fst ` set acc" using Cons.prems(2) by auto
    then show ?thesis using False Cons by (cases kv) auto
  qed
qed

lemma update_append_new: "k \<notin> fst ` set acc \<Longrightarrow> AList.update k v acc = acc @ [(k, v)]"
  by (induction acc) auto

lemma assign_setProperty:
  "distinct (map fst acc) \<Longrightarrow> assign target (setProperty acc k v) = setProperty (assign target acc) k v"
proof (cases "k = ''__proto__''")
  case True
  then show ?thesis by (simp add: setProperty_def)
next
  case False
  assume d: "distinct (map fst acc)"
  show ?thesis
  proof (cases "k \<in> fst ` set acc")
    case True
    then show ?thesis using False d by (simp add: setProperty_def assign_update_in)
  next
    case notin: False
    then show ?thesis using False
      by (simp add: setProperty_def update_append_new assign_append)
  qed
qed

lemma assign_assign:
  "distinct (map fst acc) \<Longrightarrow> assign target (assign acc source) = assign (assign target acc) source"
proof (induction source arbitrary: acc)
  case Nil
  then show ?case by simp
next
  case (Cons kv source)
  then show ?case by (simp add: distinct_setProperty assign_setProperty)
qed


lemma filter_key_distinct:
  "distinct (map fst obj) \<Longrightarrow> map_of obj k = Some v \<Longrightarrow> filter (\<lambda>kv. fst kv = k) obj = [(k, v)]"
proof (induction obj)
  case Nil
  then show ?case by simp
next
  case (Cons kv obj)
  show ?case
  proof (cases "fst kv = k")
    case True
    then have "k \<notin> fst ` set obj" using Cons.prems(1) by (cases kv) auto
    then have "filter (\<lambda>kv. fst kv = k) obj = []" by (auto simp: filter_empty_conv)
    then show ?thesis using True Cons.prems(2) by (cases kv) auto
  next
    case False
    then show ?thesis using Cons by (cases kv) auto
  qed
qed

text \<open>The list of objects a loop assigns one after the other.\<close>

lemma foldl_assign_last_wins:
  assumes d0: "distinct (map fst css0)"
    and d2: "distinct (map fst r2)"
    and mem: "(k, v2) \<in> set r2"
    and later: "\<forall>r \<in> set post. k \<notin> fst ` set r"
    and k: "k \<noteq> ''__proto__''"
  shows "map snd (filter (\<lambda>kv. fst kv = k) (foldl assign css0 (pre @ [r2] @ post))) = [v2]"
proof -
  let ?c1 = "foldl assign css0 pre"
  have dist: "distinct (map fst (foldl assign css0 rs))" for rs
    using d0 by (induction rs arbitrary: css0) (simp_all add: distinct_assign)
  have keep: "map_of (foldl assign c post') k = map_of c k" if "\<forall>r \<in> set post'. k \<notin> fst ` set r" for c post'
    using that by (induction post' arbitrary: c) (simp_all add: map_of_assign_other)
  have "map_of (assign ?c1 r2) k = Some v2"
    using d2 mem k by (rule map_of_assign_key)
  then have "map_of (foldl assign css0 (pre @ [r2] @ post)) k = Some v2"
    using keep [OF later] by simp
  then have "filter (\<lambda>kv. fst kv = k) (foldl assign css0 (pre @ [r2] @ post)) = [(k, v2)]"
    using dist by (rule filter_key_distinct [rotated])
  then show ?thesis by simp
qed

subsection \<open>Resolution\<close>

lemma resolveSurfaceProp_use:
  "resolveSurfaceProp E depth ''use'' value materialMap =
     (case lookupMaterial materialMap value of
        Some node \<Rightarrow> resolveMaterialNode E depth node materialMap
      | None \<Rightarrow> Inr [])"
  by (simp add: resolveSurfaceProp.simps)

lemma resolveSurfaceProp_material:
  "resolveSurfaceProp E depth ''material'' value materialMap =
     (case lookupMaterial materialMap value of
        Some node \<Rightarrow> resolveMaterialNode E depth node materialMap
      | None \<Rightarrow> Inr (resolveMaterialValue E value))"
  by (simp add: resolveSurfaceProp.simps)

lemma resolveSurfaceProp_background:
  "resolveSurfaceProp E depth ''background'' value materialMap = Inr [(''background'', value)]"
  by (simp add: resolveSurfaceProp.simps)

lemma resolveSurfaceProp_plain:
  "key \<noteq> ''material'' \<Longrightarrow> key \<noteq> ''use''
     \<Longrightarrow> resolveSurfaceProp E depth key value materialMap = resolveSurfaceProp E depth' key value materialMap"
  by (simp add: resolveSurfaceProp.simps)

lemma forEachMaterialProp_distinct:
  "distinct (map fst css) \<Longrightarrow> forEachMaterialProp E depth ps css materialMap = Inr r
     \<Longrightarrow> distinct (map fst r)"
proof (induction ps arbitrary: css)
  case Nil
  then show ?case by simp
next
  case (Cons p ps)
  from Cons.prems(2) obtain resolved where
    "forEachMaterialProp E depth ps (assign css resolved) materialMap = Inr r"
    by (auto split: sum.splits if_splits)
  moreover have "distinct (map fst (assign css resolved))"
    using Cons.prems(1) by (rule distinct_assign)
  ultimately show ?case using Cons.IH by blast
qed

lemma resolveMaterialValue_distinct: "distinct (map fst (resolveMaterialValue E value))"
  by (simp add: resolveMaterialValue_def Let_def split: option.splits prod.splits)

lemma resolveSurfaceProp_distinct:
  "resolveSurfaceProp E depth key value materialMap = Inr r \<Longrightarrow> distinct (map fst r)"
proof (cases "key = ''material'' \<or> key = ''use''")
  case True
  assume r: "resolveSurfaceProp E depth key value materialMap = Inr r"
  show ?thesis
  proof (cases "lookupMaterial materialMap value")
    case None
    then show ?thesis using True r
      by (auto simp: resolveSurfaceProp_use resolveSurfaceProp_material resolveMaterialValue_distinct)
  next
    case (Some node)
    then have rn: "resolveMaterialNode E depth node materialMap = Inr r"
      using True r by (auto simp: resolveSurfaceProp_use resolveSurfaceProp_material)
    then obtain d ps where "depth = Suc d" "node = MaterialNode ps"
      "forEachMaterialProp E d ps [] materialMap = Inr r"
      by (cases depth; cases node) auto
    then show ?thesis using forEachMaterialProp_distinct [of "[]"] by simp
  qed
next
  case False
  assume "resolveSurfaceProp E depth key value materialMap = Inr r"
  then show ?thesis using False
    by (auto simp: resolveSurfaceProp.simps split: if_splits)
qed


lemma forEachSurfaceProp_append:
  "forEachSurfaceProp E depth (xs @ ys) css materialMap =
     (case forEachSurfaceProp E depth xs css materialMap of
        Inl e \<Rightarrow> Inl e
      | Inr c \<Rightarrow> forEachSurfaceProp E depth ys c materialMap)"
  by (induction xs arbitrary: css) (auto split: sum.splits)

lemma forEachSurfaceProp_distinct:
  "distinct (map fst css) \<Longrightarrow> forEachSurfaceProp E depth ps css materialMap = Inr r
     \<Longrightarrow> distinct (map fst r)"
proof (induction ps arbitrary: css)
  case Nil
  then show ?case by simp
next
  case (Cons p ps)
  from Cons.prems(2) obtain resolved where
    "forEachSurfaceProp E depth ps (assign css resolved) materialMap = Inr r"
    by (auto split: sum.splits)
  moreover have "distinct (map fst (assign css resolved))"
    using Cons.prems(1) by (rule distinct_assign)
  ultimately show ?case using Cons.IH by blast
qed

lemma forEachSurfaceProp_keeps:
  "\<forall>p \<in> set ps. \<forall>r. resolveSurfaceProp E depth (p_key p) (p_value p) materialMap = Inr r
       \<longrightarrow> k \<notin> fst ` set r
     \<Longrightarrow> forEachSurfaceProp E depth ps css materialMap = Inr css'
     \<Longrightarrow> map_of css' k = map_of css k"
proof (induction ps arbitrary: css)
  case Nil
  then show ?case by simp
next
  case (Cons p ps)
  from Cons.prems(2) obtain resolved where
    r: "resolveSurfaceProp E depth (p_key p) (p_value p) materialMap = Inr resolved"
    and rest: "forEachSurfaceProp E depth ps (assign css resolved) materialMap = Inr css'"
    by (auto split: sum.splits)
  have "k \<notin> fst ` set resolved" using Cons.prems(1) r by simp
  then have "map_of (assign css resolved) k = map_of css k" by (rule map_of_assign_other)
  moreover have "map_of css' k = map_of (assign css resolved) k"
    using Cons.IH [OF _ rest] Cons.prems(1) by simp
  ultimately show ?case by simp
qed

lemma forEachTextProp_append:
  "forEachTextProp (xs @ ys) css = forEachTextProp ys (forEachTextProp xs css)"
  by (induction xs arbitrary: css) auto

lemma forEachTextProp_distinct:
  "distinct (map fst css) \<Longrightarrow> distinct (map fst (forEachTextProp ps css))"
  by (induction ps arbitrary: css) (auto simp: distinct_assign)

lemma forEachTextProp_keeps:
  "\<forall>p \<in> set ps. k \<notin> fst ` set (resolveTextProp (p_key p) (p_value p))
     \<Longrightarrow> map_of (forEachTextProp ps css) k = map_of css k"
  by (induction ps arbitrary: css) (auto simp: map_of_assign_other)

lemma resolveMaterialValue_background:
  "map_of (resolveMaterialValue E value) ''background'' \<noteq> None"
  by (simp add: resolveMaterialValue_def Let_def split: option.splits prod.splits)

lemma entries_member:
  "(k, v) \<in> set obj \<Longrightarrow> \<not> isArrayIndex k \<Longrightarrow> (k, v) \<in> set (entries obj)"
  by (simp add: entries_def)

lemma hexDigit_range:
  "hexDigit c = Some x \<Longrightarrow> 48 \<le> (of_char c :: nat) \<and> (of_char c :: nat) \<le> 102"
  by (auto simp: hexDigit_def Let_def split: if_splits)

lemma hexDigit_not_space: "hexDigit c = Some x \<Longrightarrow> \<not> isSpace c"
  by (auto simp: isSpace_def dest!: hexDigit_range)

lemma hexDigit_not_sign: "hexDigit c = Some x \<Longrightarrow> c \<noteq> CHR ''-'' \<and> c \<noteq> CHR ''+''"
  by (auto dest!: hexDigit_range)

lemma hexDigit_not_x: "hexDigit c = Some x \<Longrightarrow> c \<noteq> CHR ''x'' \<and> c \<noteq> CHR ''X''"
  by (auto simp: hexDigit_def Let_def split: if_splits)

lemma parseInt16_pair:
  assumes a: "hexDigit a = Some x" and b: "hexDigit b = Some y"
  shows "parseInt16 [a, b] = Some (int (16 * x + y))"
  using a b hexDigit_not_space [OF a] hexDigit_not_sign [OF a] hexDigit_not_x [OF b]
  by (simp add: parseInt16_def Let_def)

lemma numberText_nat: "numberText (Some (int n)) = natToString n"
  by (simp add: numberText_def del: natToString.simps)

lemma hexToRgba_expand:
  "hexToRgba [CHR ''#'', a, b, c] alpha = hexToRgba [CHR ''#'', a, a, b, b, c, c] alpha"
  by (simp add: hexToRgba_def)

lemma hexToRgba_six:
  assumes "hexDigit d1 = Some x1" "hexDigit d2 = Some x2" "hexDigit d3 = Some x3"
    "hexDigit d4 = Some x4" "hexDigit d5 = Some x5" "hexDigit d6 = Some x6"
  shows "hexToRgba [CHR ''#'', d1, d2, d3, d4, d5, d6] alpha =
           ''rgba('' @ natToString (16 * x1 + x2) @ '', '' @ natToString (16 * x3 + x4) @ '', ''
             @ natToString (16 * x5 + x6) @ '', '' @ alpha @ '')''"
  using assms
  by (simp add: hexToRgba_def Let_def parseInt16_pair numberText_nat
      del: natToString.simps of_nat_add of_nat_mult)

lemma resolveMaterialNode_mono:
  "resolveMaterialNode E depth node materialMap = Inr r
     \<Longrightarrow> resolveMaterialNode E (Suc depth) node materialMap = Inr r"
proof (induction depth arbitrary: node r)
  case 0
  then show ?case by simp
next
  case (Suc depth)
  have prop_mono: "resolveSurfaceProp E (Suc depth) key v materialMap = Inr x"
    if "resolveSurfaceProp E depth key v materialMap = Inr x" for key v x
  proof (cases "key = ''material'' \<or> key = ''use''")
    case False
    then show ?thesis using that resolveSurfaceProp_plain [of key E "Suc depth" v materialMap depth]
      by simp
  next
    case True
    show ?thesis
    proof (cases "lookupMaterial materialMap v")
      case None
      then show ?thesis using True that
        by (elim disjE) (simp_all add: resolveSurfaceProp_use resolveSurfaceProp_material)
    next
      case (Some n)
      then have "resolveMaterialNode E depth n materialMap = Inr x"
        using True that
        by (elim disjE) (simp_all add: resolveSurfaceProp_use resolveSurfaceProp_material)
      then have "resolveMaterialNode E (Suc depth) n materialMap = Inr x" by (rule Suc.IH)
      then show ?thesis using True Some
        by (elim disjE) (simp_all add: resolveSurfaceProp_use resolveSurfaceProp_material)
    qed
  qed
  have loop_mono: "forEachMaterialProp E (Suc depth) ps css materialMap = Inr x"
    if "forEachMaterialProp E depth ps css materialMap = Inr x" for ps css x
    using that
  proof (induction ps arbitrary: css)
    case Nil
    then show ?case by simp
  next
    case (Cons p ps)
    show ?case
    proof (cases "p_key p = ''color''")
      case True
      then show ?thesis using Cons by simp
    next
      case False
      then obtain resolved where
        r: "resolveSurfaceProp E depth (p_key p) (p_value p) materialMap = Inr resolved"
        and rest: "forEachMaterialProp E depth ps (assign css resolved) materialMap = Inr x"
        using Cons.prems by (auto split: sum.splits)
      show ?thesis using False prop_mono [OF r] Cons.IH [OF rest] by simp
    qed
  qed
  from Suc.prems show ?case
    by (cases node) (simp_all add: loop_mono)
qed

lemma resolveSurfaceProp_mono:
  assumes "resolveSurfaceProp E depth key value materialMap = Inr r"
  shows "resolveSurfaceProp E (Suc depth) key value materialMap = Inr r"
proof (cases "key = ''material'' \<or> key = ''use''")
  case False
  then show ?thesis using assms resolveSurfaceProp_plain [of key E "Suc depth" "value" materialMap depth]
    by simp
next
  case True
  show ?thesis
  proof (cases "lookupMaterial materialMap value")
    case None
    then show ?thesis using True assms
      by (elim disjE) (simp_all add: resolveSurfaceProp_use resolveSurfaceProp_material)
  next
    case (Some n)
    then have "resolveMaterialNode E depth n materialMap = Inr r"
      using True assms
      by (elim disjE) (simp_all add: resolveSurfaceProp_use resolveSurfaceProp_material)
    then have "resolveMaterialNode E (Suc depth) n materialMap = Inr r"
      by (rule resolveMaterialNode_mono)
    then show ?thesis using True Some
      by (elim disjE) (simp_all add: resolveSurfaceProp_use resolveSurfaceProp_material)
  qed
qed

lemma forEachSurfaceProp_mono:
  "forEachSurfaceProp E depth ps css materialMap = Inr r
     \<Longrightarrow> forEachSurfaceProp E (Suc depth) ps css materialMap = Inr r"
proof (induction ps arbitrary: css)
  case Nil
  then show ?case by simp
next
  case (Cons p ps)
  then obtain resolved where
    r: "resolveSurfaceProp E depth (p_key p) (p_value p) materialMap = Inr resolved"
    and rest: "forEachSurfaceProp E depth ps (assign css resolved) materialMap = Inr r"
    by (auto split: sum.splits)
  show ?case using resolveSurfaceProp_mono [OF r] Cons.IH [OF rest] by simp
qed

lemma forEachMaterialProp_inline:
  "distinct (map fst acc) \<Longrightarrow>
   forEachSurfaceProp E depth (map inlineProp ps) (assign css acc) materialMap =
     (case forEachMaterialProp E depth ps acc materialMap of
        Inl e \<Rightarrow> Inl e
      | Inr r \<Rightarrow> Inr (assign css r))"
proof (induction ps arbitrary: acc)
  case Nil
  then show ?case by simp
next
  case (Cons p ps)
  show ?case
  proof (cases "p_key p = ''color''")
    case True
    have "distinct (map fst (assign acc [(''background'', p_value p)]))"
      using Cons.prems by (rule distinct_assign)
    from Cons.IH [OF this] show ?thesis
      using True Cons.prems
      by (simp add: inlineProp_def resolveSurfaceProp_background assign_setProperty)
  next
    case False
    show ?thesis
    proof (cases "resolveSurfaceProp E depth (p_key p) (p_value p) materialMap")
      case (Inl e)
      then show ?thesis using False by (simp add: inlineProp_def)
    next
      case (Inr resolved)
      have "distinct (map fst (assign acc resolved))"
        using Cons.prems by (rule distinct_assign)
      from Cons.IH [OF this] show ?thesis
        using False Inr Cons.prems by (simp add: inlineProp_def assign_assign)
    qed
  qed
qed

lemma skipNewlines_idem: "skipNewlines ts = Inr r \<Longrightarrow> skipNewlines r = Inr r"
proof -
  assume "skipNewlines ts = Inr r"
  then have "r \<noteq> [] \<and> hd r \<noteq> NEWLINE" by (rule skipNewlines_head)
  then show ?thesis by (cases r rule: skipNewlines.cases) auto
qed

lemma parseProperty_no_colon:
  assumes "skipNewlines ts = Inr (t # rest)" and "t \<noteq> COLON"
  shows "parseProperty (tok # ts) = Inr (None, t # rest)"
  using assms by (cases t) simp_all

lemma dropWhile_all_then:
  "list_all P ws \<Longrightarrow> \<not> P x \<Longrightarrow> dropWhile P (ws @ x # xs) = x # xs"
  by (induction ws) auto

lemma tokenizeFrom_colon:
  "tokenizeFrom False (CHR '':'' # cs) = COLON # tokenizeFrom True cs"
  by (subst tokenizeFrom.simps) (simp add: isLineBreak_def isBlank_def del: tokenizeFrom.simps)

lemma tokenizeFrom_linebreak:
  "isLineBreak lb \<Longrightarrow> tokenizeFrom afterColon (lb # cs) = NEWLINE # tokenizeFrom False cs"
  by (subst tokenizeFrom.simps) (simp del: tokenizeFrom.simps)

lemma tokenizeFrom_empty_value:
  assumes blanks: "list_all isBlank ws" and lb: "isLineBreak lb"
  shows "tokenizeFrom True (ws @ lb # src) = NEWLINE # tokenizeFrom False src"
proof (cases ws)
  case Nil
  then show ?thesis using lb by (simp add: tokenizeFrom_linebreak del: tokenizeFrom.simps)
next
  case (Cons w ws')
  have nb: "\<not> isBlank lb" using lb by (auto simp: isBlank_def isLineBreak_def)
  have w: "isBlank w" "\<not> isLineBreak w"
    using blanks Cons by (auto simp: isBlank_def isLineBreak_def)
  have d: "dropWhile isBlank (w # ws' @ lb # src) = lb # src"
    using dropWhile_all_then [OF blanks nb, of src] Cons by simp
  have r: "readValue (lb # src) = ([], lb # src)" using lb by simp
  have "tokenizeFrom True (w # ws' @ lb # src) = tokenizeFrom False (lb # src)"
    by (subst tokenizeFrom.simps)
      (simp add: w d r trimRight_def Let_def del: tokenizeFrom.simps dropWhile.simps readValue.simps)
  then show ?thesis
    using Cons lb by (simp add: tokenizeFrom_linebreak del: tokenizeFrom.simps)
qed

lemma parseProperty_empty_value:
  "parseProperty (IDENT k # COLON # NEWLINE # ts) = Inr (Some (Property k []), NEWLINE # ts)"
  by (simp add: valueText_def trim_def trimRight_def)

lemma resolveSurfaceProp_empty_value:
  assumes "k \<notin> set [''layout'', ''wrap'', ''use'']"
    and "k = ''material'' \<longrightarrow> lookupMaterial materialMap [] = None"
  shows "\<exists>d. resolveSurfaceProp E depth k [] materialMap = Inr [(d, [])]"
proof (cases "k = ''material''")
  case True
  then show ?thesis using assms(2)
    by (simp add: resolveSurfaceProp_material resolveMaterialValue_def parseFn_def)
next
  case False
  then show ?thesis using assms(1)
    by (simp add: resolveSurfaceProp.simps alignItems_def justifyContent_def objectPrototypeKeys_def)
qed

lemma resolveTextProp_empty_value:
  "k \<noteq> ''wrap'' \<Longrightarrow> \<exists>d. resolveTextProp k [] = [(d, [])]"
  by (simp add: resolveTextProp_def)

lemma set_entries: "set (entries obj) = set obj"
  by (auto simp: entries_def)

lemma forEachSurfaceProp_last_wins:
  assumes run: "forEachSurfaceProp E depth (pre @ [p] @ post) init materialMap = Inr css"
    and init: "distinct (map fst init)"
    and r: "resolveSurfaceProp E depth (p_key p) (p_value p) materialMap = Inr resolved"
    and mem: "(k, v) \<in> set resolved"
    and later: "\<forall>q \<in> set post. \<forall>r.
                  resolveSurfaceProp E depth (p_key q) (p_value q) materialMap = Inr r
                    \<longrightarrow> k \<notin> fst ` set r"
    and k: "k \<noteq> ''__proto__''"
  shows "filter (\<lambda>kv. fst kv = k) css = [(k, v)]"
proof -
  from run obtain c1 where
    c1: "forEachSurfaceProp E depth pre init materialMap = Inr c1"
    and c2: "forEachSurfaceProp E depth post (assign c1 resolved) materialMap = Inr css"
    using r by (auto simp: forEachSurfaceProp_append split: sum.splits)
  have d1: "distinct (map fst c1)"
    using init c1 by (rule forEachSurfaceProp_distinct)
  have "map_of (assign c1 resolved) k = Some v"
    using resolveSurfaceProp_distinct [OF r] mem k by (rule map_of_assign_key)
  then have "map_of css k = Some v"
    using forEachSurfaceProp_keeps [OF later c2] by simp
  moreover have "distinct (map fst css)"
    using forEachSurfaceProp_distinct [OF distinct_assign [OF d1] c2] .
  ultimately show ?thesis
    by (rule filter_key_distinct [rotated])
qed

lemma genId_below:
  "idCounter < 9007199254740992 \<Longrightarrow> genId idCounter = (''lm'' @ natToString (Suc idCounter), Suc idCounter)"
  by (simp add: genId_def del: natToString.simps)







lemma digitChar_value: "d < 10 \<Longrightarrow> (of_char (digitChar d) :: nat) - 48 = d"
proof -
  assume "d < 10"
  then have "d \<in> {0, 1, 2, 3, 4, 5, 6, 7, 8, 9}" by auto
  then show ?thesis by (auto simp: digitChar_def)
qed

lemma digitChar_not_quote: "d < 10 \<Longrightarrow> digitChar d \<noteq> CHR 0x22"
proof -
  assume "d < 10"
  then have "d \<in> {0, 1, 2, 3, 4, 5, 6, 7, 8, 9}" by auto
  then show ?thesis by (auto simp: digitChar_def)
qed

lemma decimalValue_snoc: "decimalValue (s @ [c]) = 10 * decimalValue s + (of_char c - 48)"
  by (simp add: decimalValue_def)

lemma natToString_small: "n < 10 \<Longrightarrow> natToString n = [digitChar n]"
  by (subst natToString.simps) (simp del: natToString.simps)

lemma natToString_large:
  "\<not> n < 10 \<Longrightarrow> natToString n = natToString (n div 10) @ [digitChar (n mod 10)]"
  by (subst natToString.simps) (simp del: natToString.simps)

lemma decimalValue_natToString: "decimalValue (natToString n) = n"
proof (induction n rule: natToString.induct)
  case (1 n)
  show ?case
  proof (cases "n < 10")
    case True
    have "decimalValue [digitChar n] = n"
      using digitChar_value [OF True] by (simp add: decimalValue_def)
    then show ?thesis by (simp only: natToString_small [OF True])
  next
    case False
    have "decimalValue (natToString n)
            = 10 * decimalValue (natToString (n div 10)) + (of_char (digitChar (n mod 10)) - 48)"
      by (simp only: natToString_large [OF False] decimalValue_snoc)
    also have "\<dots> = 10 * (n div 10) + n mod 10"
      using "1.IH" [OF False] digitChar_value [of "n mod 10"] by (simp del: natToString.simps)
    finally show ?thesis by (simp del: natToString.simps)
  qed
qed

lemma natToString_inj:
  assumes "natToString a = natToString b"
  shows "a = b"
proof -
  have "a = decimalValue (natToString a)" by (simp only: decimalValue_natToString)
  also have "\<dots> = decimalValue (natToString b)" by (simp only: assms)
  also have "\<dots> = b" by (simp only: decimalValue_natToString)
  finally show ?thesis .
qed

lemma natToString_no_quote: "CHR 0x22 \<notin> set (natToString n)"
proof (induction n rule: natToString.induct)
  case (1 n)
  show ?case
  proof (cases "n < 10")
    case True
    then show ?thesis
      using digitChar_not_quote [of n] by (simp only: natToString_small [OF True]) simp
  next
    case False
    have "n mod 10 < 10" by simp
    then show ?thesis
      using "1.IH" [OF False] digitChar_not_quote [of "n mod 10"]
      by (simp only: natToString_large [OF False]) (simp del: natToString.simps)
  qed
qed

lemma append_delimiter_eq:
  "q \<notin> set xs \<Longrightarrow> q \<notin> set ys \<Longrightarrow> xs @ q # t = ys @ q # t' \<Longrightarrow> xs = ys"
proof (induction xs arbitrary: ys)
  case Nil
  then show ?case by (cases ys) auto
next
  case (Cons x xs)
  then show ?case by (cases ys) auto
qed

lemma div_prefix_inj:
  assumes "''<div id='' @ [CHR 0x22] @ ''lm'' @ natToString a @ [CHR 0x22] @ t
             = ''<div id='' @ [CHR 0x22] @ ''lm'' @ natToString b @ [CHR 0x22] @ t'"
  shows "a = b"
proof -
  from assms have "natToString a @ CHR 0x22 # t = natToString b @ CHR 0x22 # t'"
    by (simp del: natToString.simps)
  then have "natToString a = natToString b"
    by (rule append_delimiter_eq [OF natToString_no_quote natToString_no_quote])
  then show ?thesis by (rule natToString_inj)
qed

lemma compileText_counter:
  "c < 9007199254740992 \<Longrightarrow> snd (compileText n c) = Suc c"
  by (simp add: compileText_def genId_below Let_def del: natToString.simps)

lemma compileSurface_Inr:
  assumes "compileSurface E d (Surface name ps ch) mm c = (Inr r, c1)"
  shows "\<exists>css x. forEachSurfaceProp E d ps
             [(''box-sizing'', ''border-box''), (''position'', ''relative'')] mm = Inr css
           \<and> compileChildren E d ch mm (snd (genId c)) = (Inr x, c1)
           \<and> (\<exists>t. r_html r = ''<div id='' @ [CHR 0x22] @ fst (genId c) @ [CHR 0x22] @ t)"
proof -
  obtain i c' where g: "genId c = (i, c')" by (cases "genId c")
  from assms show ?thesis
    by (auto simp add: g Let_def simp del: natToString.simps compileChildren.simps
        split: sum.splits prod.splits)
qed

lemma compileSurface_Inr_intro:
  assumes "forEachSurfaceProp E d ps
             [(''box-sizing'', ''border-box''), (''position'', ''relative'')] mm = Inr css"
    and "compileChildren E d ch mm (snd (genId c)) = (Inr x, c1)"
  shows "\<exists>r. compileSurface E d (Surface name ps ch) mm c = (Inr r, c1)"
proof -
  obtain i c' where g: "genId c = (i, c')" by (cases "genId c")
  from assms show ?thesis
    by (cases x) (simp add: g Let_def del: natToString.simps compileChildren.simps)
qed

lemma compileSurface_not_surface:
  "compileSurface E d (Material name ps) mm c \<noteq> (Inr r, c1)"
  "compileSurface E d (Text content ps) mm c \<noteq> (Inr r, c1)"
  by (auto simp add: split_def Let_def simp del: natToString.simps split: sum.splits)

lemma compileChildren_count:
  assumes IH: "\<And>n c r c1. n \<in> set ns \<Longrightarrow> compileSurface E d n mm c = (Inr r, c1)
                 \<Longrightarrow> c + nodeCount n \<le> 9007199254740992 \<Longrightarrow> c1 = c + nodeCount n"
  shows "compileChildren E d ns mm c = (Inr x, c1) \<Longrightarrow> c + childCount ns \<le> 9007199254740992
           \<Longrightarrow> c1 = c + childCount ns"
  using IH
proof (induction ns arbitrary: c x c1)
  case Nil
  then show ?case by simp
next
  case (Cons child rest)
  have restIH: "\<And>c x c1. compileChildren E d rest mm c = (Inr x, c1)
                  \<Longrightarrow> c + childCount rest \<le> 9007199254740992 \<Longrightarrow> c1 = c + childCount rest"
    using Cons.IH Cons.prems(3) by simp
  show ?case
  proof (cases child)
    case (Surface name ps ch)
    from Cons.prems(1) Surface obtain r cm x' where
      s: "compileSurface E d child mm c = (Inr r, cm)"
      and t: "compileChildren E d rest mm cm = (Inr x', c1)"
      by (auto simp del: compileSurface.simps split: prod.splits sum.splits)
    have "cm = c + nodeCount child"
      using Cons.prems(3) [OF _ s] Cons.prems(2) by simp
    moreover have "c1 = cm + childCount rest"
      using restIH [OF t] Cons.prems(2) calculation by simp
    ultimately show ?thesis by simp
  next
    case (Material name ps)
    then show ?thesis using Cons.prems(1,2) restIH [of c x c1] by simp
  next
    case (Text content ps)
    from Cons.prems(2) Text have lt: "c < 9007199254740992" by simp
    obtain r2 cm where ct: "compileText child c = (r2, cm)" by (cases "compileText child c")
    from Cons.prems(1) Text obtain x' where
      t: "compileChildren E d rest mm cm = (Inr x', c1)"
      by (auto simp add: ct [unfolded Text] split: prod.splits sum.splits)
    have "cm = Suc c" using compileText_counter [OF lt, of child] ct by simp
    then show ?thesis
      using restIH [of "Suc c" x' c1] Cons.prems(2) Text t by simp
  qed
qed

lemma compileSurface_count:
  "compileSurface E d n mm c = (Inr r, c1) \<Longrightarrow> c + nodeCount n \<le> 9007199254740992
     \<Longrightarrow> c1 = c + nodeCount n"
proof (induction n arbitrary: c r c1)
  case (Surface name ps ch)
  from compileSurface_Inr [OF Surface.prems(1)] obtain x where
    t: "compileChildren E d ch mm (snd (genId c)) = (Inr x, c1)" by blast
  from Surface.prems(2) have lt: "c < 9007199254740992" by simp
  have g: "snd (genId c) = Suc c" by (simp only: genId_below [OF lt] snd_conv)
  have "c1 = Suc c + childCount ch"
  proof (rule compileChildren_count [of ch E d mm "Suc c" x c1])
    show "compileChildren E d ch mm (Suc c) = (Inr x, c1)" using t g by simp
    show "Suc c + childCount ch \<le> 9007199254740992" using Surface.prems(2) by simp
  qed (rule Surface.IH)
  then show ?case by simp
next
  case (Material name ps)
  then show ?case using compileSurface_not_surface(1) by blast
next
  case (Text content ps)
  then show ?case using compileSurface_not_surface(2) by blast
qed

lemma compileChildren_succeeds:
  assumes IH: "\<And>n c r c1 c'. n \<in> set ns \<Longrightarrow> compileSurface E d n mm c = (Inr r, c1)
                 \<Longrightarrow> \<exists>r' c1'. compileSurface E d n mm c' = (Inr r', c1')"
  shows "compileChildren E d ns mm c = (Inr x, c1)
           \<Longrightarrow> \<exists>x' c1'. compileChildren E d ns mm c' = (Inr x', c1')"
  using IH
proof (induction ns arbitrary: c x c1 c')
  case Nil
  then show ?case by simp
next
  case (Cons child rest)
  have restIH: "\<And>c x c1 c'. compileChildren E d rest mm c = (Inr x, c1)
                  \<Longrightarrow> \<exists>x' c1'. compileChildren E d rest mm c' = (Inr x', c1')"
    using Cons.IH Cons.prems(2) by simp
  show ?case
  proof (cases child)
    case (Surface name ps ch)
    from Cons.prems(1) Surface obtain r cm x0 where
      s: "compileSurface E d child mm c = (Inr r, cm)"
      and t: "compileChildren E d rest mm cm = (Inr x0, c1)"
      by (auto simp del: compileSurface.simps split: prod.splits sum.splits)
    from Cons.prems(2) [OF _ s, of c'] obtain r' cm' where
      s': "compileSurface E d child mm c' = (Inr r', cm')" by auto
    from restIH [OF t, of cm'] obtain x' c1' where
      t': "compileChildren E d rest mm cm' = (Inr x', c1')" by blast
    show ?thesis
      using s' t' Surface by (cases x') (simp del: compileSurface.simps)
  next
    case (Material name ps)
    then show ?thesis using Cons.prems(1) restIH [of c x c1 c'] by simp
  next
    case (Text content ps)
    obtain r2 cm where ct: "compileText child c = (r2, cm)" by (cases "compileText child c")
    obtain r2' cm' where ct': "compileText child c' = (r2', cm')" by (cases "compileText child c'")
    from Cons.prems(1) Text obtain x0 where
      t: "compileChildren E d rest mm cm = (Inr x0, c1)"
      by (auto simp add: ct [unfolded Text] split: prod.splits sum.splits)
    from restIH [OF t, of cm'] obtain x' c1' where
      t': "compileChildren E d rest mm cm' = (Inr x', c1')" by blast
    show ?thesis
      using t' Text by (cases x') (simp add: ct' [unfolded Text])
  qed
qed

lemma compileSurface_succeeds:
  "compileSurface E d n mm c = (Inr r, c1) \<Longrightarrow> \<exists>r' c1'. compileSurface E d n mm c' = (Inr r', c1')"
proof (induction n arbitrary: c r c1 c')
  case (Surface name ps ch)
  from compileSurface_Inr [OF Surface.prems(1)] obtain css x where
    f: "forEachSurfaceProp E d ps
          [(''box-sizing'', ''border-box''), (''position'', ''relative'')] mm = Inr css"
    and t: "compileChildren E d ch mm (snd (genId c)) = (Inr x, c1)" by blast
  have "\<exists>x' c1'. compileChildren E d ch mm (snd (genId c')) = (Inr x', c1')"
    by (rule compileChildren_succeeds [OF _ t]) (rule Surface.IH)
  then obtain x' c1' where
    t': "compileChildren E d ch mm (snd (genId c')) = (Inr x', c1')" by blast
  from compileSurface_Inr_intro [OF f t'] show ?case by blast
next
  case (Material name ps)
  then show ?case using compileSurface_not_surface(1) by blast
next
  case (Text content ps)
  then show ?case using compileSurface_not_surface(2) by blast
qed

lemma compileTop_succeeds:
  "compileTop E d body mm c = (Inr x, c1) \<Longrightarrow> \<exists>x' c1'. compileTop E d body mm c' = (Inr x', c1')"
proof (induction body arbitrary: c x c1 c')
  case Nil
  then show ?case by simp
next
  case (Cons n rest)
  show ?case
  proof (cases n)
    case (Surface name ps ch)
    from Cons.prems Surface obtain r cm x0 where
      s: "compileSurface E d n mm c = (Inr r, cm)"
      and t: "compileTop E d rest mm cm = (Inr x0, c1)"
      by (auto simp del: compileSurface.simps split: prod.splits sum.splits)
    from compileSurface_succeeds [OF s, of c'] obtain r' cm' where
      s': "compileSurface E d n mm c' = (Inr r', cm')" by auto
    from Cons.IH [OF t, of cm'] obtain x' c1' where
      t': "compileTop E d rest mm cm' = (Inr x', c1')" by blast
    show ?thesis
      using s' t' Surface by (cases x') (simp del: compileSurface.simps)
  next
    case (Material name ps)
    then show ?thesis using Cons.prems Cons.IH [of c x c1 c'] by simp
  next
    case (Text content ps)
    then show ?thesis using Cons.prems Cons.IH [of c x c1 c'] by simp
  qed
qed

lemma compileTop_count:
  "compileTop E d body mm c = (Inr x, c1) \<Longrightarrow> c + topCount body \<le> 9007199254740992
     \<Longrightarrow> c1 = c + topCount body"
proof (induction body arbitrary: c x c1)
  case Nil
  then show ?case by simp
next
  case (Cons n rest)
  show ?case
  proof (cases n)
    case (Surface name ps ch)
    from Cons.prems(1) Surface obtain r cm x0 where
      s: "compileSurface E d n mm c = (Inr r, cm)"
      and t: "compileTop E d rest mm cm = (Inr x0, c1)"
      by (auto simp del: compileSurface.simps split: prod.splits sum.splits)
    have tc: "topCount (n # rest) = nodeCount n + topCount rest" using Surface by simp
    have "cm = c + nodeCount n"
      using compileSurface_count [OF s] Cons.prems(2) tc by simp
    moreover have "c1 = cm + topCount rest"
      using Cons.IH [OF t] Cons.prems(2) tc calculation by simp
    ultimately show ?thesis using tc by simp
  next
    case (Material name ps)
    then show ?thesis using Cons.prems Cons.IH [of c x c1] by simp
  next
    case (Text content ps)
    then show ?thesis using Cons.prems Cons.IH [of c x c1] by simp
  qed
qed

lemma join_Cons_prefix: "\<exists>t. join sep (x # xs) = x @ t"
  by (cases xs) simp_all

lemma compileTop_html:
  "compileTop E d body mm c = (Inr (cs, hs), c1) \<Longrightarrow> 0 < topCount body
     \<Longrightarrow> c < 9007199254740992
     \<Longrightarrow> \<exists>t. join [CHR 0x0A] hs
           = ''<div id='' @ [CHR 0x22] @ ''lm'' @ natToString (Suc c) @ [CHR 0x22] @ t"
proof (induction body arbitrary: c cs hs c1)
  case Nil
  then show ?case by simp
next
  case (Cons n rest)
  show ?case
  proof (cases n)
    case (Surface name ps ch)
    from Cons.prems(1) Surface obtain r cm cs' hs' where
      s: "compileSurface E d (Surface name ps ch) mm c = (Inr r, cm)"
      and hs: "hs = r_html r # hs'"
      by (auto simp del: compileSurface.simps split: prod.splits sum.splits)
    from compileSurface_Inr [OF s] obtain t0 where
      "r_html r = ''<div id='' @ [CHR 0x22] @ fst (genId c) @ [CHR 0x22] @ t0" by blast
    then have h: "r_html r = ''<div id='' @ [CHR 0x22] @ ''lm'' @ natToString (Suc c) @ [CHR 0x22] @ t0"
      by (simp only: genId_below [OF Cons.prems(3)] fst_conv append_assoc)
    obtain t1 where "join [CHR 0x0A] (r_html r # hs') = r_html r @ t1"
      using join_Cons_prefix by blast
    then have "join [CHR 0x0A] hs
           = ''<div id='' @ [CHR 0x22] @ ''lm'' @ natToString (Suc c) @ [CHR 0x22] @ (t0 @ t1)"
      by (simp only: hs h append_assoc)
    then show ?thesis by blast
  next
    case (Material name ps)
    then show ?thesis using Cons.prems Cons.IH [of c cs hs c1] by simp
  next
    case (Text content ps)
    then show ?thesis using Cons.prems Cons.IH [of c cs hs c1] by simp
  qed
qed

lemma compile_Inr:
  "compile E d (Program body) c = (Inr out, c1) \<Longrightarrow>
     \<exists>cs hs. compileTop E d body (collectMaterials body) c = (Inr (cs, hs), c1)
       \<and> out = Compiled (join [CHR 0x0A] cs) (join [CHR 0x0A] hs)"
  by (auto simp add: compile_def split: prod.splits sum.splits)

lemma compile_Inr_intro:
  "compileTop E d body (collectMaterials body) c = (Inr (cs, hs), c1) \<Longrightarrow>
     compile E d (Program body) c = (Inr (Compiled (join [CHR 0x0A] cs) (join [CHR 0x0A] hs)), c1)"
  by (simp add: compile_def)

lemma lookupMaterial_node:
  "lookupMaterial m M = Some (MaterialNode ps) \<longleftrightarrow>
     own m M = Some ps \<or> (own m M = None \<and> proto m = Some ps \<and> M = ''__proto__'')"
proof (cases "own m M")
  case (Some p)
  then show ?thesis by (simp add: lookupMaterial_def)
next
  case None
  show ?thesis
  proof (cases "proto m")
    case None
    with \<open>own m M = None\<close> show ?thesis by (simp add: lookupMaterial_def)
  next
    case (Some q)
    with \<open>own m M = None\<close> show ?thesis by (simp add: lookupMaterial_def)
  qed
qed

lemma lookupMaterial_setMaterial:
  "own m ''__proto__'' = None \<Longrightarrow>
     lookupMaterial (setMaterial m M mprops) M = Some (MaterialNode mprops)
     \<and> own (setMaterial m M mprops) ''__proto__'' = None"
  by (simp only: lookupMaterial_node) (simp add: setMaterial_def)

lemma lookupMaterial_setMaterial_other:
  "own m ''__proto__'' = None \<Longrightarrow> lookupMaterial m M = Some (MaterialNode mprops) \<Longrightarrow> name \<noteq> M \<Longrightarrow>
     lookupMaterial (setMaterial m name ps) M = Some (MaterialNode mprops)
     \<and> own (setMaterial m name ps) ''__proto__'' = None"
  by (simp only: lookupMaterial_node) (auto simp add: setMaterial_def)

lemma lookupMaterial_foldl_keeps:
  "own m ''__proto__'' = None \<Longrightarrow> lookupMaterial m M = Some (MaterialNode mprops)
     \<Longrightarrow> lastDefinition M body = None
     \<Longrightarrow> lookupMaterial
           (foldl (\<lambda>m node. case node of Material name properties \<Rightarrow> setMaterial m name properties | _ \<Rightarrow> m)
              m body) M = Some (MaterialNode mprops)"
proof (induction body arbitrary: m)
  case Nil
  then show ?case by simp
next
  case (Cons n ns)
  from Cons.prems(3) have ns: "lastDefinition M ns = None"
    by (simp split: option.splits)
  show ?case
  proof (cases n)
    case (Material name ps)
    with Cons.prems(3) ns have ne: "name \<noteq> M" by (simp split: if_splits)
    from lookupMaterial_setMaterial_other [OF Cons.prems(1,2) ne, of ps]
    show ?thesis using Cons.IH [of "setMaterial m name ps"] ns Material by simp
  next
    case (Surface name ps ch)
    then show ?thesis using Cons.IH [of m] Cons.prems(1,2) ns by simp
  next
    case (Text content ps)
    then show ?thesis using Cons.IH [of m] Cons.prems(1,2) ns by simp
  qed
qed

lemma lookupMaterial_foldl:
  "own m ''__proto__'' = None \<Longrightarrow> lastDefinition M body = Some mprops
     \<Longrightarrow> lookupMaterial
           (foldl (\<lambda>m node. case node of Material name properties \<Rightarrow> setMaterial m name properties | _ \<Rightarrow> m)
              m body) M = Some (MaterialNode mprops)"
proof (induction body arbitrary: m)
  case Nil
  then show ?case by simp
next
  case (Cons n ns)
  let ?m' = "case n of Material name properties \<Rightarrow> setMaterial m name properties | _ \<Rightarrow> m"
  have inv: "own ?m' ''__proto__'' = None"
    using Cons.prems(1) by (cases n) (simp_all add: setMaterial_def)
  show ?case
  proof (cases "lastDefinition M ns")
    case (Some ps)
    with Cons.prems(2) have "lastDefinition M ns = Some mprops" by simp
    from Cons.IH [OF inv this] show ?thesis by simp
  next
    case None
    with Cons.prems(2) have n: "n = Material M mprops"
      by (cases n) (simp_all split: if_splits)
    from lookupMaterial_setMaterial [OF Cons.prems(1), of M mprops]
    have "lookupMaterial (setMaterial m M mprops) M = Some (MaterialNode mprops)"
      and "own (setMaterial m M mprops) ''__proto__'' = None" by simp_all
    from lookupMaterial_foldl_keeps [OF this(2) this(1) None] show ?thesis using n by simp
  qed
qed

lemma lookupMaterial_collectMaterials:
  "lastDefinition M body = Some mprops
     \<Longrightarrow> lookupMaterial (collectMaterials body) M = Some (MaterialNode mprops)"
  unfolding collectMaterials_def
  by (rule lookupMaterial_foldl) (simp_all add: emptyMap_def)

lemma foldl_materials_inlineRefs:
  "foldl (\<lambda>m node. case node of Material name properties \<Rightarrow> setMaterial m name properties | _ \<Rightarrow> m)
      m (map (inlineRefs M mprops) body)
   = foldl (\<lambda>m node. case node of Material name properties \<Rightarrow> setMaterial m name properties | _ \<Rightarrow> m)
      m body"
proof (induction body arbitrary: m)
  case Nil
  then show ?case by simp
next
  case (Cons n ns)
  then show ?case by (cases n) simp_all
qed

lemma collectMaterials_inlineRefs:
  "collectMaterials (map (inlineRefs M mprops) body) = collectMaterials body"
  unfolding collectMaterials_def by (rule foldl_materials_inlineRefs)

lemma reference_step:
  assumes m: "lookupMaterial materialMap M = Some (MaterialNode mprops)"
    and k: "k = ''use'' \<or> k = ''material''"
  shows "forEachSurfaceProp E (Suc d) [Property k M] css materialMap
           = forEachSurfaceProp E d (map inlineProp mprops) css materialMap"
proof -
  have res: "resolveSurfaceProp E (Suc d) k M materialMap = forEachMaterialProp E d mprops [] materialMap"
    using k m by (elim disjE) (simp_all add: resolveSurfaceProp_use resolveSurfaceProp_material)
  show ?thesis
    using forEachMaterialProp_inline [of "[]" E d mprops css materialMap]
    by (simp add: res split: sum.splits)
qed

lemma reference_needs_stack:
  assumes m: "lookupMaterial materialMap M = Some (MaterialNode mprops)"
    and k: "k = ''use'' \<or> k = ''material''"
  shows "forEachSurfaceProp E 0 [Property k M] css materialMap \<noteq> Inr r"
proof -
  have "resolveSurfaceProp E 0 k M materialMap = Inl RangeError"
    using k m by (elim disjE) (simp_all add: resolveSurfaceProp_use resolveSurfaceProp_material)
  then show ?thesis by simp
qed

lemma forEachSurfaceProp_Cons:
  "forEachSurfaceProp E d (p # ps) css materialMap =
     (case forEachSurfaceProp E d [p] css materialMap of
        Inl e \<Rightarrow> Inl e
      | Inr c \<Rightarrow> forEachSurfaceProp E d ps c materialMap)"
  using forEachSurfaceProp_append [of E d "[p]" ps css materialMap] by simp

lemma inlineRef_step_up:
  assumes m: "lookupMaterial materialMap M = Some (MaterialNode mprops)"
    and run: "forEachSurfaceProp E d (inlineRef M mprops p) css materialMap = Inr c1"
  shows "forEachSurfaceProp E (Suc d) [p] css materialMap = Inr c1"
proof (cases "(p_key p = ''use'' \<or> p_key p = ''material'') \<and> p_value p = M")
  case True
  then have p: "p = Property (p_key p) M" by (cases p) simp
  from True have ir: "inlineRef M mprops p = map inlineProp mprops"
    unfolding inlineRef_def by (rule if_P)
  from run have "forEachSurfaceProp E d (map inlineProp mprops) css materialMap = Inr c1"
    by (simp only: ir)
  then have "forEachSurfaceProp E (Suc d) [Property (p_key p) M] css materialMap = Inr c1"
    using reference_step [OF m, of "p_key p" E d css] True by simp
  then show ?thesis using p by simp
next
  case False
  then have "inlineRef M mprops p = [p]" unfolding inlineRef_def by (rule if_not_P)
  with run have "forEachSurfaceProp E d [p] css materialMap = Inr c1"
    by (simp only:)
  then show ?thesis by (rule forEachSurfaceProp_mono)
qed

lemma inlineRef_step_down:
  assumes m: "lookupMaterial materialMap M = Some (MaterialNode mprops)"
    and run: "forEachSurfaceProp E d [p] css materialMap = Inr c1"
  shows "forEachSurfaceProp E d (inlineRef M mprops p) css materialMap = Inr c1"
proof (cases "(p_key p = ''use'' \<or> p_key p = ''material'') \<and> p_value p = M")
  case True
  then have p: "p = Property (p_key p) M" by (cases p) simp
  from True have k: "p_key p = ''use'' \<or> p_key p = ''material''" by simp
  from run p have run': "forEachSurfaceProp E d [Property (p_key p) M] css materialMap = Inr c1"
    by simp
  have "d \<noteq> 0"
  proof
    assume "d = 0"
    with run' reference_needs_stack [OF m k, of E css c1] show False by simp
  qed
  then obtain d0 where d: "d = Suc d0" by (cases d) auto
  from run' have "forEachSurfaceProp E d0 (map inlineProp mprops) css materialMap = Inr c1"
    unfolding d by (simp only: reference_step [OF m k])
  then have "forEachSurfaceProp E d (map inlineProp mprops) css materialMap = Inr c1"
    unfolding d by (rule forEachSurfaceProp_mono)
  moreover from True have "inlineRef M mprops p = map inlineProp mprops"
    unfolding inlineRef_def by (rule if_P)
  ultimately show ?thesis by (simp only:)
next
  case False
  then have "inlineRef M mprops p = [p]" unfolding inlineRef_def by (rule if_not_P)
  with run show ?thesis by (simp only:)
qed

lemma forEachSurfaceProp_inline_up:
  assumes m: "lookupMaterial materialMap M = Some (MaterialNode mprops)"
  shows "forEachSurfaceProp E d (concat (map (inlineRef M mprops) ps)) css materialMap = Inr r
           \<Longrightarrow> forEachSurfaceProp E (Suc d) ps css materialMap = Inr r"
proof (induction ps arbitrary: css)
  case Nil
  then show ?case by simp
next
  case (Cons p ps)
  from Cons.prems obtain c1 where
    a: "forEachSurfaceProp E d (inlineRef M mprops p) css materialMap = Inr c1"
    and b: "forEachSurfaceProp E d (concat (map (inlineRef M mprops) ps)) c1 materialMap = Inr r"
    by (auto simp add: forEachSurfaceProp_append simp del: forEachSurfaceProp.simps split: sum.splits)
  note a' = inlineRef_step_up [OF m a]
  note b' = Cons.IH [OF b]
  show ?case by (subst forEachSurfaceProp_Cons) (simp only: a' b' sum.case)
qed

lemma forEachSurfaceProp_inline_down:
  assumes m: "lookupMaterial materialMap M = Some (MaterialNode mprops)"
  shows "forEachSurfaceProp E d ps css materialMap = Inr r
           \<Longrightarrow> forEachSurfaceProp E d (concat (map (inlineRef M mprops) ps)) css materialMap = Inr r"
proof (induction ps arbitrary: css)
  case Nil
  then show ?case by simp
next
  case (Cons p ps)
  from Cons.prems obtain c1 where
    a: "forEachSurfaceProp E d [p] css materialMap = Inr c1"
    and b: "forEachSurfaceProp E d ps c1 materialMap = Inr r"
    by (subst (asm) forEachSurfaceProp_Cons) (auto simp del: forEachSurfaceProp.simps split: sum.splits)
  note a' = inlineRef_step_down [OF m a]
  note b' = Cons.IH [OF b]
  have "forEachSurfaceProp E d (inlineRef M mprops p @ concat (map (inlineRef M mprops) ps)) css materialMap = Inr r"
    by (simp only: forEachSurfaceProp_append a' b' sum.case)
  then show ?case by simp
qed

lemma compileSurface_cong:
  assumes "forEachSurfaceProp E d ps
             [(''box-sizing'', ''border-box''), (''position'', ''relative'')] mm = Inr css"
    and "forEachSurfaceProp E d' ps'
             [(''box-sizing'', ''border-box''), (''position'', ''relative'')] mm = Inr css"
    and "compileChildren E d ch mm (snd (genId c)) = (Inr x, c1)"
    and "compileChildren E d' ch' mm (snd (genId c)) = (Inr x, c1)"
  shows "compileSurface E d' (Surface name ps' ch') mm c = compileSurface E d (Surface name ps ch) mm c"
proof -
  obtain i c' where g: "genId c = (i, c')" by (cases "genId c")
  from assms show ?thesis
    by (simp add: g del: natToString.simps compileChildren.simps)
qed

lemma compileChildren_Surface:
  assumes "compileChildren E d (Surface name ps ch # ns) mm c = (Inr x, c1)"
  shows "\<exists>r cm cs hs. compileSurface E d (Surface name ps ch) mm c = (Inr r, cm)
           \<and> compileChildren E d ns mm cm = (Inr (cs, hs), c1)
           \<and> x = (r_css r # cs, r_html r # hs)"
  using assms by (auto simp del: compileSurface.simps split: prod.splits sum.splits)

lemma compileChildren_Surface_intro:
  assumes "compileSurface E d (Surface name ps ch) mm c = (Inr r, cm)"
    and "compileChildren E d ns mm cm = (Inr (cs, hs), c1)"
  shows "compileChildren E d (Surface name ps ch # ns) mm c = (Inr (r_css r # cs, r_html r # hs), c1)"
  using assms by (simp del: compileSurface.simps)

lemma compileChildren_Text:
  assumes "compileChildren E d (Text content ps # ns) mm c = (Inr x, c1)"
  shows "\<exists>cs hs. compileChildren E d ns mm (snd (compileText (Text content ps) c)) = (Inr (cs, hs), c1)
           \<and> x = (r_css (fst (compileText (Text content ps) c)) # cs,
                   r_html (fst (compileText (Text content ps) c)) # hs)"
proof -
  obtain r2 cm where ct: "compileText (Text content ps) c = (r2, cm)"
    by (cases "compileText (Text content ps) c")
  from assms show ?thesis
    by (auto simp add: ct split: prod.splits sum.splits)
qed

lemma compileChildren_Text_intro:
  assumes "compileChildren E d ns mm (snd (compileText (Text content ps) c)) = (Inr (cs, hs), c1)"
  shows "compileChildren E d (Text content ps # ns) mm c
           = (Inr (r_css (fst (compileText (Text content ps) c)) # cs,
                   r_html (fst (compileText (Text content ps) c)) # hs), c1)"
proof -
  obtain r2 cm where ct: "compileText (Text content ps) c = (r2, cm)"
    by (cases "compileText (Text content ps) c")
  from assms show ?thesis by (simp add: ct)
qed

lemma compileChildren_transfer:
  "list_all2 (\<lambda>n n'. (case n of Surface a b ch \<Rightarrow> (\<exists>a' b' ch'. n' = Surface a' b' ch') | _ \<Rightarrow> n' = n)
       \<and> (\<forall>c r c1. compileSurface E d n mm c = (Inr r, c1)
             \<longrightarrow> compileSurface E d' n' mm c = (Inr r, c1))) ns ns'
   \<Longrightarrow> compileChildren E d ns mm c = (Inr x, c1)
   \<Longrightarrow> compileChildren E d' ns' mm c = (Inr x, c1)"
proof (induction arbitrary: c x c1 rule: list_all2_induct)
  case Nil
  then show ?case by simp
next
  case (Cons n ns n' ns')
  show ?case
  proof (cases n)
    case (Surface name ps ch)
    with Cons.hyps(1) obtain name' ps' ch' where n': "n' = Surface name' ps' ch'" by auto
    from compileChildren_Surface [OF Cons.prems [unfolded Surface]] obtain r cm cs hs where
      s: "compileSurface E d n mm c = (Inr r, cm)"
      and t: "compileChildren E d ns mm cm = (Inr (cs, hs), c1)"
      and x: "x = (r_css r # cs, r_html r # hs)"
      unfolding Surface by blast
    from Cons.hyps(1) s have s': "compileSurface E d' n' mm c = (Inr r, cm)" by blast
    note t' = Cons.IH [OF t]
    show ?thesis
      unfolding x n' by (rule compileChildren_Surface_intro [OF s' [unfolded n'] t'])
  next
    case (Material name ps)
    with Cons.hyps(1) have n': "n' = Material name ps" by simp
    from Cons.prems have "compileChildren E d ns mm c = (Inr x, c1)" unfolding Material by simp
    from Cons.IH [OF this] show ?thesis unfolding n' by simp
  next
    case (Text content ps)
    with Cons.hyps(1) have n': "n' = Text content ps" by simp
    from compileChildren_Text [OF Cons.prems [unfolded Text]] obtain cs hs where
      t: "compileChildren E d ns mm (snd (compileText (Text content ps) c)) = (Inr (cs, hs), c1)"
      and x: "x = (r_css (fst (compileText (Text content ps) c)) # cs,
                   r_html (fst (compileText (Text content ps) c)) # hs)"
      by blast
    note t' = Cons.IH [OF t]
    show ?thesis unfolding x n' by (rule compileChildren_Text_intro [OF t'])
  qed
qed

lemma compileTop_Surface:
  assumes "compileTop E d (Surface name ps ch # ns) mm c = (Inr x, c1)"
  shows "\<exists>r cm cs hs. compileSurface E d (Surface name ps ch) mm c = (Inr r, cm)
           \<and> compileTop E d ns mm cm = (Inr (cs, hs), c1)
           \<and> x = (r_css r # cs, r_html r # hs)"
  using assms by (auto simp del: compileSurface.simps split: prod.splits sum.splits)

lemma compileTop_Surface_intro:
  assumes "compileSurface E d (Surface name ps ch) mm c = (Inr r, cm)"
    and "compileTop E d ns mm cm = (Inr (cs, hs), c1)"
  shows "compileTop E d (Surface name ps ch # ns) mm c = (Inr (r_css r # cs, r_html r # hs), c1)"
  using assms by (simp del: compileSurface.simps)

lemma compileTop_transfer:
  "list_all2 (\<lambda>n n'. (case n of Surface a b ch \<Rightarrow> (\<exists>a' b' ch'. n' = Surface a' b' ch') | _ \<Rightarrow> n' = n)
       \<and> (\<forall>c r c1. compileSurface E d n mm c = (Inr r, c1)
             \<longrightarrow> compileSurface E d' n' mm c = (Inr r, c1))) ns ns'
   \<Longrightarrow> compileTop E d ns mm c = (Inr x, c1)
   \<Longrightarrow> compileTop E d' ns' mm c = (Inr x, c1)"
proof (induction arbitrary: c x c1 rule: list_all2_induct)
  case Nil
  then show ?case by simp
next
  case (Cons n ns n' ns')
  show ?case
  proof (cases n)
    case (Surface name ps ch)
    with Cons.hyps(1) obtain name' ps' ch' where n': "n' = Surface name' ps' ch'" by auto
    from compileTop_Surface [OF Cons.prems [unfolded Surface]] obtain r cm cs hs where
      s: "compileSurface E d n mm c = (Inr r, cm)"
      and t: "compileTop E d ns mm cm = (Inr (cs, hs), c1)"
      and x: "x = (r_css r # cs, r_html r # hs)"
      unfolding Surface by blast
    from Cons.hyps(1) s have s': "compileSurface E d' n' mm c = (Inr r, cm)" by blast
    note t' = Cons.IH [OF t]
    show ?thesis
      unfolding x n' by (rule compileTop_Surface_intro [OF s' [unfolded n'] t'])
  next
    case (Material name ps)
    with Cons.hyps(1) have n': "n' = Material name ps" by simp
    from Cons.prems have "compileTop E d ns mm c = (Inr x, c1)" unfolding Material by simp
    from Cons.IH [OF this] show ?thesis unfolding n' by simp
  next
    case (Text content ps)
    with Cons.hyps(1) have n': "n' = Text content ps" by simp
    from Cons.prems have "compileTop E d ns mm c = (Inr x, c1)" unfolding Text by simp
    from Cons.IH [OF this] show ?thesis unfolding n' by simp
  qed
qed

lemma compileSurface_inline_down:
  assumes m: "lookupMaterial mm M = Some (MaterialNode mprops)"
  shows "compileSurface E d n mm c = (Inr r, c1)
           \<Longrightarrow> compileSurface E d (inlineRefs M mprops n) mm c = (Inr r, c1)"
proof (induction n arbitrary: c r c1)
  case (Surface name ps ch)
  from compileSurface_Inr [OF Surface.prems] obtain css x where
    f: "forEachSurfaceProp E d ps
          [(''box-sizing'', ''border-box''), (''position'', ''relative'')] mm = Inr css"
    and t: "compileChildren E d ch mm (snd (genId c)) = (Inr x, c1)" by blast
  note f' = forEachSurfaceProp_inline_down [OF m f]
  have "list_all2 (\<lambda>n n'. (case n of Surface a b ch \<Rightarrow> (\<exists>a' b' ch'. n' = Surface a' b' ch') | _ \<Rightarrow> n' = n)
       \<and> (\<forall>c r c1. compileSurface E d n mm c = (Inr r, c1)
             \<longrightarrow> compileSurface E d n' mm c = (Inr r, c1))) ch (map (inlineRefs M mprops) ch)"
    unfolding list_all2_map2 list_all2_same
  proof (intro ballI conjI allI impI)
    fix n assume "n \<in> set ch"
    show "case n of Surface a b ch \<Rightarrow> \<exists>a' b' ch'. inlineRefs M mprops n = Surface a' b' ch'
            | _ \<Rightarrow> inlineRefs M mprops n = n"
      by (cases n) simp_all
  next
    fix n c r c1
    assume "n \<in> set ch" and "compileSurface E d n mm c = (Inr r, c1)"
    then show "compileSurface E d (inlineRefs M mprops n) mm c = (Inr r, c1)"
      by (rule Surface.IH)
  qed
  from compileChildren_transfer [OF this t]
  have t': "compileChildren E d (map (inlineRefs M mprops) ch) mm (snd (genId c)) = (Inr x, c1)" .
  have "compileSurface E d (Surface name (concat (map (inlineRef M mprops) ps))
            (map (inlineRefs M mprops) ch)) mm c
          = compileSurface E d (Surface name ps ch) mm c"
    by (rule compileSurface_cong [OF f f' t t'])
  with Surface.prems show ?case by (simp only: inlineRefs.simps)
next
  case (Material name ps)
  then show ?case by (simp only: inlineRefs.simps)
next
  case (Text content ps)
  then show ?case by (simp only: inlineRefs.simps)
qed

lemma compileSurface_inline_up:
  assumes m: "lookupMaterial mm M = Some (MaterialNode mprops)"
  shows "compileSurface E d (inlineRefs M mprops n) mm c = (Inr r, c1)
           \<Longrightarrow> compileSurface E (Suc d) n mm c = (Inr r, c1)"
proof (induction n arbitrary: c r c1)
  case (Surface name ps ch)
  from Surface.prems have run:
    "compileSurface E d (Surface name (concat (map (inlineRef M mprops) ps))
        (map (inlineRefs M mprops) ch)) mm c = (Inr r, c1)"
    by (simp only: inlineRefs.simps)
  from compileSurface_Inr [OF run] obtain css x where
    f: "forEachSurfaceProp E d (concat (map (inlineRef M mprops) ps))
          [(''box-sizing'', ''border-box''), (''position'', ''relative'')] mm = Inr css"
    and t: "compileChildren E d (map (inlineRefs M mprops) ch) mm (snd (genId c)) = (Inr x, c1)"
    by blast
  note f' = forEachSurfaceProp_inline_up [OF m f]
  have "list_all2 (\<lambda>n n'. (case n of Surface a b ch \<Rightarrow> (\<exists>a' b' ch'. n' = Surface a' b' ch') | _ \<Rightarrow> n' = n)
       \<and> (\<forall>c r c1. compileSurface E d n mm c = (Inr r, c1)
             \<longrightarrow> compileSurface E (Suc d) n' mm c = (Inr r, c1))) (map (inlineRefs M mprops) ch) ch"
    unfolding list_all2_map1 list_all2_same
  proof (intro ballI conjI allI impI)
    fix n assume "n \<in> set ch"
    show "case inlineRefs M mprops n of Surface a b ch \<Rightarrow> \<exists>a' b' ch'. n = Surface a' b' ch'
            | _ \<Rightarrow> n = inlineRefs M mprops n"
      by (cases n) simp_all
  next
    fix n c r c1
    assume "n \<in> set ch" and "compileSurface E d (inlineRefs M mprops n) mm c = (Inr r, c1)"
    then show "compileSurface E (Suc d) n mm c = (Inr r, c1)"
      by (rule Surface.IH)
  qed
  from compileChildren_transfer [OF this t]
  have t': "compileChildren E (Suc d) ch mm (snd (genId c)) = (Inr x, c1)" .
  have "compileSurface E (Suc d) (Surface name ps ch) mm c
          = compileSurface E d (Surface name (concat (map (inlineRef M mprops) ps))
              (map (inlineRefs M mprops) ch)) mm c"
    by (rule compileSurface_cong [OF f f' t t'])
  with run show ?case by (simp only:)
next
  case (Material name ps)
  then show ?case using compileSurface_not_surface(1) by (simp only: inlineRefs.simps)
next
  case (Text content ps)
  then show ?case using compileSurface_not_surface(2) by (simp only: inlineRefs.simps)
qed

lemma compile_inline_down:
  assumes m: "lookupMaterial (collectMaterials body) M = Some (MaterialNode mprops)"
    and run: "compile E d (Program body) c = (Inr out, c1)"
  shows "compile E d (Program (map (inlineRefs M mprops) body)) c = (Inr out, c1)"
proof -
  let ?mm = "collectMaterials body"
  from compile_Inr [OF run] obtain cs hs where
    top: "compileTop E d body ?mm c = (Inr (cs, hs), c1)"
    and out: "out = Compiled (join [CHR 0x0A] cs) (join [CHR 0x0A] hs)" by blast
  have "list_all2 (\<lambda>n n'. (case n of Surface a b ch \<Rightarrow> (\<exists>a' b' ch'. n' = Surface a' b' ch') | _ \<Rightarrow> n' = n)
       \<and> (\<forall>c r c1. compileSurface E d n ?mm c = (Inr r, c1)
             \<longrightarrow> compileSurface E d n' ?mm c = (Inr r, c1))) body (map (inlineRefs M mprops) body)"
    unfolding list_all2_map2 list_all2_same
  proof (intro ballI conjI allI impI)
    fix n assume "n \<in> set body"
    show "case n of Surface a b ch \<Rightarrow> \<exists>a' b' ch'. inlineRefs M mprops n = Surface a' b' ch'
            | _ \<Rightarrow> inlineRefs M mprops n = n"
      by (cases n) simp_all
  next
    fix n c r c1
    assume "compileSurface E d n ?mm c = (Inr r, c1)"
    then show "compileSurface E d (inlineRefs M mprops n) ?mm c = (Inr r, c1)"
      by (rule compileSurface_inline_down [OF m])
  qed
  from compileTop_transfer [OF this top]
  have "compileTop E d (map (inlineRefs M mprops) body)
          (collectMaterials (map (inlineRefs M mprops) body)) c = (Inr (cs, hs), c1)"
    by (simp only: collectMaterials_inlineRefs)
  from compile_Inr_intro [OF this] show ?thesis by (simp only: out)
qed

lemma compile_inline_up:
  assumes m: "lookupMaterial (collectMaterials body) M = Some (MaterialNode mprops)"
    and run: "compile E d (Program (map (inlineRefs M mprops) body)) c = (Inr out, c1)"
  shows "compile E (Suc d) (Program body) c = (Inr out, c1)"
proof -
  let ?mm = "collectMaterials body"
  from compile_Inr [OF run] obtain cs hs where
    top: "compileTop E d (map (inlineRefs M mprops) body) ?mm c = (Inr (cs, hs), c1)"
    and out: "out = Compiled (join [CHR 0x0A] cs) (join [CHR 0x0A] hs)"
    unfolding collectMaterials_inlineRefs by blast
  have "list_all2 (\<lambda>n n'. (case n of Surface a b ch \<Rightarrow> (\<exists>a' b' ch'. n' = Surface a' b' ch') | _ \<Rightarrow> n' = n)
       \<and> (\<forall>c r c1. compileSurface E d n ?mm c = (Inr r, c1)
             \<longrightarrow> compileSurface E (Suc d) n' ?mm c = (Inr r, c1))) (map (inlineRefs M mprops) body) body"
    unfolding list_all2_map1 list_all2_same
  proof (intro ballI conjI allI impI)
    fix n assume "n \<in> set body"
    show "case inlineRefs M mprops n of Surface a b ch \<Rightarrow> \<exists>a' b' ch'. n = Surface a' b' ch'
            | _ \<Rightarrow> n = inlineRefs M mprops n"
      by (cases n) simp_all
  next
    fix n c r c1
    assume "compileSurface E d (inlineRefs M mprops n) ?mm c = (Inr r, c1)"
    then show "compileSurface E (Suc d) n ?mm c = (Inr r, c1)"
      by (rule compileSurface_inline_up [OF m])
  qed
  from compileTop_transfer [OF this top]
  have "compileTop E (Suc d) body ?mm c = (Inr (cs, hs), c1)" .
  from compile_Inr_intro [OF this] show ?thesis by (simp only: out)
qed

lemma own_foldl_absent:
  "own m X = None \<Longrightarrow> lastDefinition X body = None \<or> X = ''__proto__''
     \<Longrightarrow> own (foldl (\<lambda>m node. case node of Material name properties \<Rightarrow> setMaterial m name properties | _ \<Rightarrow> m)
              m body) X = None"
proof (induction body arbitrary: m)
  case Nil
  then show ?case by simp
next
  case (Cons n ns)
  from Cons.prems(2) have ns: "lastDefinition X ns = None \<or> X = ''__proto__''"
    by (auto split: option.splits)
  show ?case
  proof (cases n)
    case (Material name ps)
    have "own (setMaterial m name ps) X = None"
    proof (cases "name = ''__proto__''")
      case True
      then show ?thesis using Cons.prems(1) by (simp add: setMaterial_def)
    next
      case False
      from Cons.prems(2) have "name \<noteq> X"
      proof
        assume "lastDefinition X (n # ns) = None"
        then show ?thesis unfolding Material by (simp split: option.splits if_splits)
      next
        assume "X = ''__proto__''"
        with False show ?thesis by simp
      qed
      then show ?thesis using Cons.prems(1) False by (simp add: setMaterial_def)
    qed
    from Cons.IH [OF this ns] show ?thesis unfolding Material by simp
  next
    case (Surface name ps ch)
    from Cons.IH [OF Cons.prems(1) ns] show ?thesis unfolding Surface by simp
  next
    case (Text content ps)
    from Cons.IH [OF Cons.prems(1) ns] show ?thesis unfolding Text by simp
  qed
qed

lemma proto_foldl_absent:
  "proto m = None \<Longrightarrow> lastDefinition ''__proto__'' body = None
     \<Longrightarrow> proto (foldl (\<lambda>m node. case node of Material name properties \<Rightarrow> setMaterial m name properties | _ \<Rightarrow> m)
              m body) = None"
proof (induction body arbitrary: m)
  case Nil
  then show ?case by simp
next
  case (Cons n ns)
  from Cons.prems(2) have ns: "lastDefinition ''__proto__'' ns = None"
    by (simp split: option.splits)
  show ?case
  proof (cases n)
    case (Material name ps)
    from Cons.prems(2) ns have "name \<noteq> ''__proto__''"
      unfolding Material by (simp split: if_splits)
    then have "proto (setMaterial m name ps) = None"
      using Cons.prems(1) by (simp add: setMaterial_def)
    from Cons.IH [OF this ns] show ?thesis unfolding Material by simp
  next
    case (Surface name ps ch)
    from Cons.IH [OF Cons.prems(1) ns] show ?thesis unfolding Surface by simp
  next
    case (Text content ps)
    from Cons.IH [OF Cons.prems(1) ns] show ?thesis unfolding Text by simp
  qed
qed

lemma own_collectMaterials_absent:
  "lastDefinition X body = None \<Longrightarrow> own (collectMaterials body) X = None"
  unfolding collectMaterials_def
  by (rule own_foldl_absent) (simp_all add: emptyMap_def)

lemma proto_collectMaterials_absent:
  "lastDefinition ''__proto__'' body = None \<Longrightarrow> proto (collectMaterials body) = None"
  unfolding collectMaterials_def
  by (rule proto_foldl_absent) (simp_all add: emptyMap_def)

lemma lookupMaterial_inherited:
  assumes absent: "lastDefinition X body = None"
    and inherited: "X \<in> set objectPrototypeKeys"
  shows "lookupMaterial (collectMaterials body) X = Some NotANode"
proof -
  note o = own_collectMaterials_absent [OF absent]
  show ?thesis
  proof (cases "proto (collectMaterials body)")
    case None
    with o inherited show ?thesis by (simp add: lookupMaterial_def)
  next
    case (Some ps)
    have "X \<noteq> ''__proto__''"
    proof
      assume "X = ''__proto__''"
      with absent have "proto (collectMaterials body) = None"
        by (simp only: proto_collectMaterials_absent)
      with Some show False by simp
    qed
    with o Some inherited show ?thesis by (simp add: lookupMaterial_def)
  qed
qed

lemma lookupMaterial_absent:
  assumes absent: "lastDefinition X body = None"
    and plain: "X \<notin> set objectPrototypeKeys"
    and noproto: "lastDefinition ''__proto__'' body = None"
  shows "lookupMaterial (collectMaterials body) X = None"
  using own_collectMaterials_absent [OF absent] proto_collectMaterials_absent [OF noproto] plain
  by (simp add: lookupMaterial_def)

section \<open>Claims\<close>

text \<open>
  C4. A token sequence that lacks a required token makes \<^verbatim>\<open>parse\<close> raise the structured
  parse failure (a \<^verbatim>\<open>LumenError\<close> naming the expected and the actual token type).
  The surface loop does not do so for a missing closing brace when an unrecognised token
  is followed by a line break and the end of the input: its last \<^verbatim>\<open>advance()\<close> is not
  followed by \<^verbatim>\<open>skipNewlines()\<close>, so the next round skips the line break, consumes
  \<^verbatim>\<open>EOF\<close> as an unrecognised token and reads past the end of the array, a
  \<^verbatim>\<open>TypeError\<close>. The loops of material and text blocks raise the structured failure
  on the same tokens.
\<close>

theorem parse_surface_missing_rbrace:
  "parse (tokenize (''surface a {'' @ [CHR 0x0A] @ ''{'' @ [CHR 0x0A])) = Inl TypeError
   \<and> parse (tokenize (''material a {'' @ [CHR 0x0A] @ ''{'' @ [CHR 0x0A]))
       = Inl (LumenError ''Parse Error: Expected RBRACE but got EOF'')"
  by code_simp

text \<open>
  C5. When two properties of a surface resolve to the same declaration key, the finished
  declaration object holds the value of the later one and no other value for that key.
  \<open>p2\<close> is the last property whose resolution has the key \<open>k\<close>, \<open>p1\<close> an earlier
  one. The key is not \<^verbatim>\<open>__proto__\<close>, a word the tokenizer never passes as a property
  key.
\<close>

theorem later_property_wins:
  assumes run: "forEachSurfaceProp E depth (before @ [p1] @ between @ [p2] @ after)
                  [(''box-sizing'', ''border-box''), (''position'', ''relative'')] materialMap = Inr css"
    and r1: "resolveSurfaceProp E depth (p_key p1) (p_value p1) materialMap = Inr resolved1"
    and k1: "(k, v1) \<in> set resolved1"
    and r2: "resolveSurfaceProp E depth (p_key p2) (p_value p2) materialMap = Inr resolved2"
    and k2: "(k, v2) \<in> set resolved2"
    and later: "\<forall>p \<in> set after. \<forall>r.
                  resolveSurfaceProp E depth (p_key p) (p_value p) materialMap = Inr r
                    \<longrightarrow> k \<notin> fst ` set r"
    and k: "k \<noteq> ''__proto__''"
  shows "map snd (filter (\<lambda>kv. fst kv = k) css) = [v2]"
proof -
  let ?init = "[(''box-sizing'', ''border-box''), (''position'', ''relative'')]"
  have split: "before @ [p1] @ between @ [p2] @ after = (before @ [p1] @ between) @ [p2] @ after"
    by simp
  from run obtain c1 where
    c1: "forEachSurfaceProp E depth (before @ [p1] @ between) ?init materialMap = Inr c1"
    and c2: "forEachSurfaceProp E depth after (assign c1 resolved2) materialMap = Inr css"
    unfolding split forEachSurfaceProp_append [of _ _ "before @ [p1] @ between"]
    using r2 by (auto simp: forEachSurfaceProp_append split: sum.splits)
  have d1: "distinct (map fst c1)"
    using forEachSurfaceProp_distinct [OF _ c1] by simp
  have "map_of (assign c1 resolved2) k = Some v2"
    using resolveSurfaceProp_distinct [OF r2] k2 k by (rule map_of_assign_key)
  then have "map_of css k = Some v2"
    using forEachSurfaceProp_keeps [OF later c2] by simp
  moreover have "distinct (map fst css)"
    using forEachSurfaceProp_distinct [OF distinct_assign [OF d1] c2] .
  ultimately have "filter (\<lambda>kv. fst kv = k) css = [(k, v2)]"
    by (rule filter_key_distinct [rotated])
  then show ?thesis by simp
qed

theorem later_property_wins_witness:
  "forEachSurfaceProp exampleEngine 0 [Property ''width'' ''10px'', Property ''width'' ''20px'']
     [(''box-sizing'', ''border-box''), (''position'', ''relative'')] emptyMap
     = Inr [(''box-sizing'', ''border-box''), (''position'', ''relative''), (''width'', ''20px'')]
   \<and> map snd (filter (\<lambda>kv. fst kv = ''width'')
         [(''box-sizing'', ''border-box''), (''position'', ''relative''), (''width'', ''20px'')]) = [''20px'']"
proof -
  have run: "forEachSurfaceProp exampleEngine 0 ([] @ [Property ''width'' ''10px''] @ [] @ [Property ''width'' ''20px''] @ [])
     [(''box-sizing'', ''border-box''), (''position'', ''relative'')] emptyMap
     = Inr [(''box-sizing'', ''border-box''), (''position'', ''relative''), (''width'', ''20px'')]"
    by (simp add: resolveSurfaceProp.simps setProperty_def)
  have r1: "resolveSurfaceProp exampleEngine 0 (p_key (Property ''width'' ''10px''))
              (p_value (Property ''width'' ''10px'')) emptyMap = Inr [(''width'', ''10px'')]"
    by (simp add: resolveSurfaceProp.simps)
  have r2: "resolveSurfaceProp exampleEngine 0 (p_key (Property ''width'' ''20px''))
              (p_value (Property ''width'' ''20px'')) emptyMap = Inr [(''width'', ''20px'')]"
    by (simp add: resolveSurfaceProp.simps)
  have "map snd (filter (\<lambda>kv. fst kv = ''width'')
         [(''box-sizing'', ''border-box''), (''position'', ''relative''), (''width'', ''20px'')]) = [''20px'']"
    by (rule later_property_wins [OF run r1 _ r2]) simp_all
  then show ?thesis using run by simp
qed

text \<open>
  C7. A \<^verbatim>\<open>use\<close> or \<^verbatim>\<open>material\<close> property whose value \<open>X\<close> names no style of the
  program. The code tests \<^verbatim>\<open>materialMap[value]\<close>, and the table is an object literal:
  for a name that every object inherits from \<^verbatim>\<open>Object.prototype\<close>, such as
  \<^verbatim>\<open>constructor\<close> or \<^verbatim>\<open>toString\<close>, the test finds a value that is no style node, and
  reading its \<^verbatim>\<open>properties\<close> raises a \<^verbatim>\<open>TypeError\<close>, where the branch
  \<^verbatim>\<open>return {}\<close> of the code is the one meant for a name without a style. For every
  other name, no style \<^verbatim>\<open>__proto__\<close> being defined, the test finds nothing:
  \<^verbatim>\<open>use\<close> contributes the empty object, and \<^verbatim>\<open>material\<close> reads the value as an
  inline fill, which gives a \<^verbatim>\<open>background\<close> declaration.
\<close>

theorem use_absent_style:
  assumes absent: "lastDefinition X body = None"
  shows "(X \<in> set objectPrototypeKeys \<longrightarrow>
            lookupMaterial (collectMaterials body) X = Some NotANode
            \<and> resolveSurfaceProp E (Suc depth) ''use'' X (collectMaterials body) = Inl TypeError
            \<and> resolveSurfaceProp E (Suc depth) ''material'' X (collectMaterials body) = Inl TypeError)
     \<and> (X \<notin> set objectPrototypeKeys \<and> lastDefinition ''__proto__'' body = None \<longrightarrow>
            lookupMaterial (collectMaterials body) X = None
            \<and> resolveSurfaceProp E depth ''use'' X (collectMaterials body) = Inr []
            \<and> resolveSurfaceProp E depth ''material'' X (collectMaterials body)
                = Inr (resolveMaterialValue E X)
            \<and> map_of (resolveMaterialValue E X) ''background'' \<noteq> None)"
proof (intro conjI impI)
  assume inherited: "X \<in> set objectPrototypeKeys"
  show l: "lookupMaterial (collectMaterials body) X = Some NotANode"
    by (rule lookupMaterial_inherited [OF absent inherited])
  show "resolveSurfaceProp E (Suc depth) ''use'' X (collectMaterials body) = Inl TypeError"
    by (simp add: resolveSurfaceProp_use l)
  show "resolveSurfaceProp E (Suc depth) ''material'' X (collectMaterials body) = Inl TypeError"
    by (simp add: resolveSurfaceProp_material l)
next
  assume h: "X \<notin> set objectPrototypeKeys \<and> lastDefinition ''__proto__'' body = None"
  show l: "lookupMaterial (collectMaterials body) X = None"
    using h by (intro lookupMaterial_absent [OF absent]) simp_all
  show "resolveSurfaceProp E depth ''use'' X (collectMaterials body) = Inr []"
    by (simp add: resolveSurfaceProp_use l)
  show "resolveSurfaceProp E depth ''material'' X (collectMaterials body)
          = Inr (resolveMaterialValue E X)"
    by (simp add: resolveSurfaceProp_material l)
  show "map_of (resolveMaterialValue E X) ''background'' \<noteq> None"
    by (rule resolveMaterialValue_background)
qed

theorem use_absent_style_witness:
  "parse (tokenize (''surface a {'' @ [CHR 0x0A] @ ''use: constructor'' @ [CHR 0x0A] @ ''}'')) = Inr (Program [Surface ''a'' [Property ''use'' ''constructor''] []])
   \<and> lastDefinition ''constructor'' [Surface ''a'' [Property ''use'' ''constructor''] []] = None
   \<and> ''constructor'' \<in> set objectPrototypeKeys
   \<and> resolveSurfaceProp exampleEngine (Suc 7) ''use'' ''constructor'' (collectMaterials [Surface ''a'' [Property ''use'' ''constructor''] []])
       = Inl TypeError
   \<and> compileSource exampleEngine 8 (''surface a {'' @ [CHR 0x0A] @ ''use: constructor'' @ [CHR 0x0A] @ ''}'') 0 = (Inl TypeError, 1)
   \<and> compileSource exampleEngine 8 (''surface a {'' @ [CHR 0x0A] @ ''use: toString'' @ [CHR 0x0A] @ ''}'') 0 = (Inl TypeError, 1)
   \<and> parse (tokenize (''surface a {'' @ [CHR 0x0A] @ ''use: panel'' @ [CHR 0x0A] @ ''}'')) = Inr (Program [Surface ''a'' [Property ''use'' ''panel''] []])
   \<and> lastDefinition ''panel'' [Surface ''a'' [Property ''use'' ''panel''] []] = None
   \<and> resolveSurfaceProp exampleEngine 8 ''use'' ''panel'' (collectMaterials [Surface ''a'' [Property ''use'' ''panel''] []]) = Inr []
   \<and> compileSource exampleEngine 8 (''surface a {'' @ [CHR 0x0A] @ ''use: panel'' @ [CHR 0x0A] @ ''}'') 0
       = (Inr (Compiled ''#lm1 { box-sizing: border-box; position: relative }''
          (''<div id='' @ [CHR 0x22] @ ''lm1'' @ [CHR 0x22] @ '' class='' @ [CHR 0x22]
             @ ''lumen-surface'' @ [CHR 0x22] @ '' data-name='' @ [CHR 0x22] @ ''a'' @ [CHR 0x22]
             @ ''></div>'')), 1)"
proof -
  have p1: "parse (tokenize (''surface a {'' @ [CHR 0x0A] @ ''use: constructor'' @ [CHR 0x0A] @ ''}'')) = Inr (Program [Surface ''a'' [Property ''use'' ''constructor''] []])"
    by code_simp
  have a1: "lastDefinition ''constructor'' [Surface ''a'' [Property ''use'' ''constructor''] []] = None" by simp
  have k1: "''constructor'' \<in> set objectPrototypeKeys" by (simp add: objectPrototypeKeys_def)
  have r1: "resolveSurfaceProp exampleEngine (Suc 7) ''use'' ''constructor'' (collectMaterials [Surface ''a'' [Property ''use'' ''constructor''] []])
       = Inl TypeError"
    by (rule use_absent_style [OF a1, THEN conjunct1, THEN mp, OF k1, THEN conjunct2, THEN conjunct1])
  have c1: "compileSource exampleEngine 8 (''surface a {'' @ [CHR 0x0A] @ ''use: constructor'' @ [CHR 0x0A] @ ''}'') 0 = (Inl TypeError, 1)"
    by code_simp
  have c3: "compileSource exampleEngine 8 (''surface a {'' @ [CHR 0x0A] @ ''use: toString'' @ [CHR 0x0A] @ ''}'') 0 = (Inl TypeError, 1)"
    by code_simp
  have p2: "parse (tokenize (''surface a {'' @ [CHR 0x0A] @ ''use: panel'' @ [CHR 0x0A] @ ''}'')) = Inr (Program [Surface ''a'' [Property ''use'' ''panel''] []])"
    by code_simp
  have a2: "lastDefinition ''panel'' [Surface ''a'' [Property ''use'' ''panel''] []] = None" by simp
  have k2: "''panel'' \<notin> set objectPrototypeKeys \<and> lastDefinition ''__proto__'' [Surface ''a'' [Property ''use'' ''panel''] []] = None"
    by (simp add: objectPrototypeKeys_def)
  have r2: "resolveSurfaceProp exampleEngine 8 ''use'' ''panel'' (collectMaterials [Surface ''a'' [Property ''use'' ''panel''] []]) = Inr []"
    by (rule use_absent_style [OF a2, THEN conjunct2, THEN mp, OF k2, THEN conjunct2, THEN conjunct1])
  have c2: "compileSource exampleEngine 8 (''surface a {'' @ [CHR 0x0A] @ ''use: panel'' @ [CHR 0x0A] @ ''}'') 0
       = (Inr (Compiled ''#lm1 { box-sizing: border-box; position: relative }''
          (''<div id='' @ [CHR 0x22] @ ''lm1'' @ [CHR 0x22] @ '' class='' @ [CHR 0x22]
             @ ''lumen-surface'' @ [CHR 0x22] @ '' data-name='' @ [CHR 0x22] @ ''a'' @ [CHR 0x22]
             @ ''></div>'')), 1)"
    by code_simp
  from p1 a1 k1 r1 c1 c3 p2 a2 r2 c2 show ?thesis by (intro conjI)
qed

text \<open>
  C10. A \<^verbatim>\<open>use\<close> or \<^verbatim>\<open>material\<close> property of a text node is never looked up in
  the style table: \<^verbatim>\<open>resolveTextProp\<close> takes no table and passes key and value
  through, so the rule of the text node holds the literal declaration (here for the last
  property with that key: its value is the only one the rule has for the key, and
  \<^verbatim>\<open>key: value\<close> is one of the declarations \<^verbatim>\<open>cssObjectToString\<close> joins).
\<close>

theorem text_use_is_literal:
  assumes k: "k = ''use'' \<or> k = ''material''"
    and later: "\<forall>p \<in> set after. p_key p \<noteq> k"
  shows "resolveTextProp k v = [(k, v)]
     \<and> map snd (filter (\<lambda>kv. fst kv = k)
           (forEachTextProp (before @ [Property k v] @ after)
              [(''box-sizing'', ''border-box''), (''margin'', ''0'')])) = [v]
     \<and> k @ '': '' @ v \<in> set (map (\<lambda>kv. fst kv @ '': '' @ snd kv)
           (entries (forEachTextProp (before @ [Property k v] @ after)
              [(''box-sizing'', ''border-box''), (''margin'', ''0'')])))"
proof -
  let ?init = "[(''box-sizing'', ''border-box''), (''margin'', ''0'')]"
  let ?css = "forEachTextProp (before @ [Property k v] @ after) ?init"
  let ?c1 = "forEachTextProp before ?init"
  have res: "resolveTextProp k v = [(k, v)]"
    using k by (elim disjE) (simp_all add: resolveTextProp_def)
  have keys: "k \<notin> fst ` set (resolveTextProp key' value')" if "key' \<noteq> k" for key' value'
    using k that by (elim disjE) (simp_all add: resolveTextProp_def)
  have after_keys: "\<forall>p \<in> set after. k \<notin> fst ` set (resolveTextProp (p_key p) (p_value p))"
    using later keys by blast
  have kp: "k \<noteq> ''__proto__''" using k by (elim disjE) simp_all
  have css_eq: "?css = forEachTextProp after (assign ?c1 [(k, v)])"
    by (simp add: forEachTextProp_append res)
  have "map_of (assign ?c1 [(k, v)]) k = Some v"
    using kp by (simp add: map_of_setProperty)
  then have m: "map_of ?css k = Some v"
    unfolding css_eq using forEachTextProp_keeps [OF after_keys] by simp
  have d: "distinct (map fst ?css)"
    by (rule forEachTextProp_distinct) simp
  have f: "filter (\<lambda>kv. fst kv = k) ?css = [(k, v)]"
    using d m by (rule filter_key_distinct)
  have "(k, v) \<in> set ?css" using m by (rule map_of_SomeD)
  moreover have "\<not> isArrayIndex k"
    using k by (elim disjE) (simp_all add: isArrayIndex_def)
  ultimately have "(k, v) \<in> set (entries ?css)" by (rule entries_member)
  then have "(\<lambda>kv. fst kv @ '': '' @ snd kv) (k, v)
               \<in> (\<lambda>kv. fst kv @ '': '' @ snd kv) ` set (entries ?css)"
    by (rule imageI)
  then have "k @ '': '' @ v \<in> set (map (\<lambda>kv. fst kv @ '': '' @ snd kv) (entries ?css))"
    by simp
  then show ?thesis using res f by simp
qed


theorem text_use_is_literal_witness:
  "map snd (filter (\<lambda>kv. fst kv = ''use'')
     (forEachTextProp ([] @ [Property ''use'' ''panel''] @ [Property ''color'' ''red''])
        [(''box-sizing'', ''border-box''), (''margin'', ''0'')])) = [''panel'']
   \<and> ''use'' @ '': '' @ ''panel'' \<in> set (map (\<lambda>kv. fst kv @ '': '' @ snd kv)
       (entries (forEachTextProp ([] @ [Property ''use'' ''panel''] @ [Property ''color'' ''red''])
          [(''box-sizing'', ''border-box''), (''margin'', ''0'')])))
   \<and> compileSource exampleEngine 8
        (''material panel {'' @ [CHR 0x0A] @ ''color: #111827'' @ [CHR 0x0A] @ ''}'' @ [CHR 0x0A]
          @ ''surface a {'' @ [CHR 0x0A] @ ''text '' @ [CHR 0x22] @ ''t'' @ [CHR 0x22] @ '' {''
          @ [CHR 0x0A] @ ''use: panel'' @ [CHR 0x0A] @ ''}'' @ [CHR 0x0A] @ ''}'') 0
       = (Inr (Compiled
           (''#lm1 { box-sizing: border-box; position: relative }'' @ [CHR 0x0A]
             @ ''#lm2 { box-sizing: border-box; margin: 0; use: panel }'')
           (''<div id='' @ [CHR 0x22] @ ''lm1'' @ [CHR 0x22] @ '' class='' @ [CHR 0x22]
             @ ''lumen-surface'' @ [CHR 0x22] @ '' data-name='' @ [CHR 0x22] @ ''a'' @ [CHR 0x22]
             @ ''><p id='' @ [CHR 0x22] @ ''lm2'' @ [CHR 0x22] @ '' class='' @ [CHR 0x22]
             @ ''lumen-text'' @ [CHR 0x22] @ ''>t</p></div>'')), 2)"
proof -
  have pipeline: "compileSource exampleEngine 8
        (''material panel {'' @ [CHR 0x0A] @ ''color: #111827'' @ [CHR 0x0A] @ ''}'' @ [CHR 0x0A]
          @ ''surface a {'' @ [CHR 0x0A] @ ''text '' @ [CHR 0x22] @ ''t'' @ [CHR 0x22] @ '' {''
          @ [CHR 0x0A] @ ''use: panel'' @ [CHR 0x0A] @ ''}'' @ [CHR 0x0A] @ ''}'') 0
       = (Inr (Compiled
           (''#lm1 { box-sizing: border-box; position: relative }'' @ [CHR 0x0A]
             @ ''#lm2 { box-sizing: border-box; margin: 0; use: panel }'')
           (''<div id='' @ [CHR 0x22] @ ''lm1'' @ [CHR 0x22] @ '' class='' @ [CHR 0x22]
             @ ''lumen-surface'' @ [CHR 0x22] @ '' data-name='' @ [CHR 0x22] @ ''a'' @ [CHR 0x22]
             @ ''><p id='' @ [CHR 0x22] @ ''lm2'' @ [CHR 0x22] @ '' class='' @ [CHR 0x22]
             @ ''lumen-text'' @ [CHR 0x22] @ ''>t</p></div>'')), 2)"
    by code_simp
  have k: "''use'' = ''use'' \<or> ''use'' = ''material''" by simp
  have later: "\<forall>p \<in> set [Property ''color'' ''red'']. p_key p \<noteq> ''use''" by simp
  from text_use_is_literal [OF k later, of "''panel''" "[]"] pipeline
  show ?thesis by blast
qed

text \<open>
  C6. The glass fill \<^verbatim>\<open>glass(color, opacity)\<close> with a colour argument: when the colour
  starts with \<^verbatim>\<open>#\<close> the background is \<^verbatim>\<open>hexToRgba\<close> of it and of the opacity,
  otherwise the colour itself, in both cases with the two blur declarations. A colour of
  three digits converts as the colour with each digit doubled, and a colour of six
  hexadecimal digits gives \<^verbatim>\<open>rgba(r, g, b, opacity)\<close> with one channel per pair of
  digits. The opacity text is \<^verbatim>\<open>String(parseFloat(opacity))\<close>, a parameter of the model.
\<close>

theorem glass_fill:
  assumes fn: "parseFn value = Some (''glass'', args)"
    and color: "args \<noteq> []" "hd args = color" "color \<noteq> []"
  shows "(take 1 color = ''#'' \<longrightarrow>
            resolveMaterialValue E value =
              [(''background'', hexToRgba color (floatText E (argOr args 1 ''0.1''))),
               (''backdrop-filter'', ''blur(12px)''),
               (''-webkit-backdrop-filter'', ''blur(12px)'')])
     \<and> (take 1 color \<noteq> ''#'' \<longrightarrow>
            resolveMaterialValue E value =
              [(''background'', color),
               (''backdrop-filter'', ''blur(12px)''),
               (''-webkit-backdrop-filter'', ''blur(12px)'')])
     \<and> hexToRgba [CHR ''#'', a, b, c] alpha = hexToRgba [CHR ''#'', a, a, b, b, c, c] alpha
     \<and> (hexDigit d1 = Some x1 \<and> hexDigit d2 = Some x2 \<and> hexDigit d3 = Some x3
          \<and> hexDigit d4 = Some x4 \<and> hexDigit d5 = Some x5 \<and> hexDigit d6 = Some x6 \<longrightarrow>
            hexToRgba [CHR ''#'', d1, d2, d3, d4, d5, d6] alpha =
              ''rgba('' @ natToString (16 * x1 + x2) @ '', '' @ natToString (16 * x3 + x4) @ '', ''
                @ natToString (16 * x5 + x6) @ '', '' @ alpha @ '')'')"
proof -
  have arg0: "argOr args 0 ''#ffffff'' = color"
    using color by (cases args) (simp_all add: argOr_def)
  have A: "resolveMaterialValue E value =
      [(''background'', if take 1 color = ''#''
                          then hexToRgba color (floatText E (argOr args 1 ''0.1'')) else color),
       (''backdrop-filter'', ''blur(12px)''),
       (''-webkit-backdrop-filter'', ''blur(12px)'')]"
    using fn arg0 by (simp add: resolveMaterialValue_def Let_def)
  show ?thesis
    using A hexToRgba_expand [of a b c alpha] hexToRgba_six [of d1 x1 d2 x2 d3 x3 d4 x4 d5 x5 d6 x6 alpha]
    by (simp del: natToString.simps)
qed

theorem glass_fill_witness:
  "parseFn ''glass(#abc, 0.5)'' = Some (''glass'', [''#abc'', ''0.5''])
   \<and> resolveMaterialValue exampleEngine ''glass(#abc, 0.5)'' =
        [(''background'', ''rgba(170, 187, 204, 0.5)''),
         (''backdrop-filter'', ''blur(12px)''),
         (''-webkit-backdrop-filter'', ''blur(12px)'')]
   \<and> parseFn ''glass(white, 0.5)'' = Some (''glass'', [''white'', ''0.5''])
   \<and> resolveMaterialValue exampleEngine ''glass(white, 0.5)'' =
        [(''background'', ''white''),
         (''backdrop-filter'', ''blur(12px)''),
         (''-webkit-backdrop-filter'', ''blur(12px)'')]"
proof -
  have fn1: "parseFn ''glass(#abc, 0.5)'' = Some (''glass'', [''#abc'', ''0.5''])"
    by code_simp
  have fn2: "parseFn ''glass(white, 0.5)'' = Some (''glass'', [''white'', ''0.5''])"
    by code_simp
  have hx: "hexDigit CHR ''a'' = Some 10" "hexDigit CHR ''b'' = Some 11" "hexDigit CHR ''c'' = Some 12"
    by (simp_all add: hexDigit_def)
  have fl: "floatText exampleEngine (argOr [''#abc'', ''0.5''] 1 ''0.1'') = ''0.5''"
    "floatText exampleEngine (argOr [''white'', ''0.5''] 1 ''0.1'') = ''0.5''"
    by (simp_all add: exampleEngine_def argOr_def)
  have n: "natToString (16 * 10 + 10) = ''170''" "natToString (16 * 11 + 11) = ''187''"
    "natToString (16 * 12 + 12) = ''204''"
    by code_simp+
  note g1 = glass_fill [OF fn1, of "''#abc''" exampleEngine "CHR ''a''" "CHR ''b''" "CHR ''c''" "''0.5''"
      "CHR ''a''" 10 "CHR ''a''" 10 "CHR ''b''" 11 "CHR ''b''" 11 "CHR ''c''" 12 "CHR ''c''" 12]
  have r1: "resolveMaterialValue exampleEngine ''glass(#abc, 0.5)'' =
        [(''background'', ''rgba(170, 187, 204, 0.5)''),
         (''backdrop-filter'', ''blur(12px)''),
         (''-webkit-backdrop-filter'', ''blur(12px)'')]"
    using g1 hx fl n by (simp del: natToString.simps)
  note g2 = glass_fill [OF fn2, of "''white''" exampleEngine]
  have r2: "resolveMaterialValue exampleEngine ''glass(white, 0.5)'' =
        [(''background'', ''white''),
         (''backdrop-filter'', ''blur(12px)''),
         (''-webkit-backdrop-filter'', ''blur(12px)'')]"
    using g2 by simp
  show ?thesis using fn1 fn2 r1 r2 by (intro conjI)
qed

text \<open>
  C1. A program that contains a definition of the style \<open>M\<close>, given as a tree to
  \<^verbatim>\<open>compile\<close>. A surface property \<^verbatim>\<open>use: M\<close> or \<^verbatim>\<open>material: M\<close> merges into the
  declarations of the surface exactly what the property list of the style merges when
  it is written on the surface in its place, \<^verbatim>\<open>color\<close> read as \<^verbatim>\<open>background\<close>
  (\<open>inlineProp\<close>), the errors included; the reference costs one nested call, so it
  resolves at depth \<open>Suc depth\<close> as the copied list does at \<open>depth\<close>. For the whole
  program: with every such reference of every surface replaced by the copied list
  (\<open>inlineRefs\<close>), an output of the program is the output of the program with the
  copies, rules and markup alike, and an output of the program with the copies is the
  output of the program with one more level of stack.
\<close>

theorem named_style_inline:
  assumes def: "lastDefinition M body = Some mprops"
  shows "(k = ''use'' \<or> k = ''material'' \<longrightarrow>
            forEachSurfaceProp E (Suc depth) [Property k M] css (collectMaterials body)
              = forEachSurfaceProp E depth (map inlineProp mprops) css (collectMaterials body))
     \<and> (compile E depth (Program body) c = (Inr out, c1)
          \<longrightarrow> compile E depth (Program (map (inlineRefs M mprops) body)) c = (Inr out, c1))
     \<and> (compile E depth (Program (map (inlineRefs M mprops) body)) c = (Inr out, c1)
          \<longrightarrow> compile E (Suc depth) (Program body) c = (Inr out, c1))"
proof -
  note m = lookupMaterial_collectMaterials [OF def]
  show ?thesis
  proof (intro conjI impI)
    assume "k = ''use'' \<or> k = ''material''"
    then show "forEachSurfaceProp E (Suc depth) [Property k M] css (collectMaterials body)
              = forEachSurfaceProp E depth (map inlineProp mprops) css (collectMaterials body)"
      by (rule reference_step [OF m])
  next
    assume "compile E depth (Program body) c = (Inr out, c1)"
    then show "compile E depth (Program (map (inlineRefs M mprops) body)) c = (Inr out, c1)"
      by (rule compile_inline_down [OF m])
  next
    assume "compile E depth (Program (map (inlineRefs M mprops) body)) c = (Inr out, c1)"
    then show "compile E (Suc depth) (Program body) c = (Inr out, c1)"
      by (rule compile_inline_up [OF m])
  qed
qed

theorem named_style_inline_witness:
  "parse (tokenize (''material panel {'' @ [CHR 0x0A] @ ''color: #111827'' @ [CHR 0x0A] @ ''radius: 4px''
       @ [CHR 0x0A] @ ''}'' @ [CHR 0x0A] @ ''surface a {'' @ [CHR 0x0A] @ ''width: 10px'' @ [CHR 0x0A]
       @ ''use: panel'' @ [CHR 0x0A] @ ''surface b {'' @ [CHR 0x0A] @ ''use: panel'' @ [CHR 0x0A]
       @ ''height: 5px'' @ [CHR 0x0A] @ ''}'' @ [CHR 0x0A] @ ''}''))
     = Inr (Program [Material ''panel'' [Property ''color'' ''#111827'', Property ''radius'' ''4px''],
        Surface ''a'' [Property ''width'' ''10px'', Property ''use'' ''panel'']
          [Surface ''b'' [Property ''use'' ''panel'', Property ''height'' ''5px''] []]])
   \<and> lastDefinition ''panel'' [Material ''panel'' [Property ''color'' ''#111827'', Property ''radius'' ''4px''],
        Surface ''a'' [Property ''width'' ''10px'', Property ''use'' ''panel'']
          [Surface ''b'' [Property ''use'' ''panel'', Property ''height'' ''5px''] []]]
     = Some [Property ''color'' ''#111827'', Property ''radius'' ''4px'']
   \<and> map (inlineRefs ''panel'' [Property ''color'' ''#111827'', Property ''radius'' ''4px'']) [Material ''panel'' [Property ''color'' ''#111827'', Property ''radius'' ''4px''],
        Surface ''a'' [Property ''width'' ''10px'', Property ''use'' ''panel'']
          [Surface ''b'' [Property ''use'' ''panel'', Property ''height'' ''5px''] []]]
     = [Material ''panel'' [Property ''color'' ''#111827'', Property ''radius'' ''4px''],
        Surface ''a'' [Property ''width'' ''10px'', Property ''background'' ''#111827'',
                      Property ''radius'' ''4px'']
          [Surface ''b'' [Property ''background'' ''#111827'', Property ''radius'' ''4px'',
                         Property ''height'' ''5px''] []]]
   \<and> compile exampleEngine 8 (Program [Material ''panel'' [Property ''color'' ''#111827'', Property ''radius'' ''4px''],
        Surface ''a'' [Property ''width'' ''10px'', Property ''use'' ''panel'']
          [Surface ''b'' [Property ''use'' ''panel'', Property ''height'' ''5px''] []]]) 0
     = (Inr (Compiled
          (''#lm1 { box-sizing: border-box; position: relative; width: 10px; background: #111827; border-radius: 4px }''
             @ [CHR 0x0A]
             @ ''#lm2 { box-sizing: border-box; position: relative; background: #111827; border-radius: 4px; height: 5px }'')
          (''<div id='' @ [CHR 0x22] @ ''lm1'' @ [CHR 0x22] @ '' class='' @ [CHR 0x22]
             @ ''lumen-surface'' @ [CHR 0x22] @ '' data-name='' @ [CHR 0x22] @ ''a'' @ [CHR 0x22] @ ''>''
             @ ''<div id='' @ [CHR 0x22] @ ''lm2'' @ [CHR 0x22] @ '' class='' @ [CHR 0x22]
             @ ''lumen-surface'' @ [CHR 0x22] @ '' data-name='' @ [CHR 0x22] @ ''b'' @ [CHR 0x22] @ ''>''
             @ ''</div></div>'')), 2)
   \<and> compile exampleEngine 8 (Program [Material ''panel'' [Property ''color'' ''#111827'', Property ''radius'' ''4px''],
        Surface ''a'' [Property ''width'' ''10px'', Property ''background'' ''#111827'',
                      Property ''radius'' ''4px'']
          [Surface ''b'' [Property ''background'' ''#111827'', Property ''radius'' ''4px'',
                         Property ''height'' ''5px''] []]]) 0
     = (Inr (Compiled
          (''#lm1 { box-sizing: border-box; position: relative; width: 10px; background: #111827; border-radius: 4px }''
             @ [CHR 0x0A]
             @ ''#lm2 { box-sizing: border-box; position: relative; background: #111827; border-radius: 4px; height: 5px }'')
          (''<div id='' @ [CHR 0x22] @ ''lm1'' @ [CHR 0x22] @ '' class='' @ [CHR 0x22]
             @ ''lumen-surface'' @ [CHR 0x22] @ '' data-name='' @ [CHR 0x22] @ ''a'' @ [CHR 0x22] @ ''>''
             @ ''<div id='' @ [CHR 0x22] @ ''lm2'' @ [CHR 0x22] @ '' class='' @ [CHR 0x22]
             @ ''lumen-surface'' @ [CHR 0x22] @ '' data-name='' @ [CHR 0x22] @ ''b'' @ [CHR 0x22] @ ''>''
             @ ''</div></div>'')), 2)
   \<and> compile exampleEngine (Suc 8) (Program [Material ''panel'' [Property ''color'' ''#111827'', Property ''radius'' ''4px''],
        Surface ''a'' [Property ''width'' ''10px'', Property ''use'' ''panel'']
          [Surface ''b'' [Property ''use'' ''panel'', Property ''height'' ''5px''] []]]) 0
     = (Inr (Compiled
          (''#lm1 { box-sizing: border-box; position: relative; width: 10px; background: #111827; border-radius: 4px }''
             @ [CHR 0x0A]
             @ ''#lm2 { box-sizing: border-box; position: relative; background: #111827; border-radius: 4px; height: 5px }'')
          (''<div id='' @ [CHR 0x22] @ ''lm1'' @ [CHR 0x22] @ '' class='' @ [CHR 0x22]
             @ ''lumen-surface'' @ [CHR 0x22] @ '' data-name='' @ [CHR 0x22] @ ''a'' @ [CHR 0x22] @ ''>''
             @ ''<div id='' @ [CHR 0x22] @ ''lm2'' @ [CHR 0x22] @ '' class='' @ [CHR 0x22]
             @ ''lumen-surface'' @ [CHR 0x22] @ '' data-name='' @ [CHR 0x22] @ ''b'' @ [CHR 0x22] @ ''>''
             @ ''</div></div>'')), 2)
   \<and> forEachSurfaceProp exampleEngine (Suc 8) [Property ''material'' ''panel''] []
        (collectMaterials [Material ''panel'' [Property ''color'' ''#111827'', Property ''radius'' ''4px''],
        Surface ''a'' [Property ''width'' ''10px'', Property ''use'' ''panel'']
          [Surface ''b'' [Property ''use'' ''panel'', Property ''height'' ''5px''] []]])
     = forEachSurfaceProp exampleEngine 8 (map inlineProp [Property ''color'' ''#111827'', Property ''radius'' ''4px'']) []
        (collectMaterials [Material ''panel'' [Property ''color'' ''#111827'', Property ''radius'' ''4px''],
        Surface ''a'' [Property ''width'' ''10px'', Property ''use'' ''panel'']
          [Surface ''b'' [Property ''use'' ''panel'', Property ''height'' ''5px''] []]])"
proof -
  let ?mp = "[Property ''color'' ''#111827'', Property ''radius'' ''4px'']"
  let ?body = "[Material ''panel'' [Property ''color'' ''#111827'', Property ''radius'' ''4px''],
        Surface ''a'' [Property ''width'' ''10px'', Property ''use'' ''panel'']
          [Surface ''b'' [Property ''use'' ''panel'', Property ''height'' ''5px''] []]]"
  let ?inlined = "[Material ''panel'' [Property ''color'' ''#111827'', Property ''radius'' ''4px''],
        Surface ''a'' [Property ''width'' ''10px'', Property ''background'' ''#111827'',
                      Property ''radius'' ''4px'']
          [Surface ''b'' [Property ''background'' ''#111827'', Property ''radius'' ''4px'',
                         Property ''height'' ''5px''] []]]"
  let ?out = "(Compiled
          (''#lm1 { box-sizing: border-box; position: relative; width: 10px; background: #111827; border-radius: 4px }''
             @ [CHR 0x0A]
             @ ''#lm2 { box-sizing: border-box; position: relative; background: #111827; border-radius: 4px; height: 5px }'')
          (''<div id='' @ [CHR 0x22] @ ''lm1'' @ [CHR 0x22] @ '' class='' @ [CHR 0x22]
             @ ''lumen-surface'' @ [CHR 0x22] @ '' data-name='' @ [CHR 0x22] @ ''a'' @ [CHR 0x22] @ ''>''
             @ ''<div id='' @ [CHR 0x22] @ ''lm2'' @ [CHR 0x22] @ '' class='' @ [CHR 0x22]
             @ ''lumen-surface'' @ [CHR 0x22] @ '' data-name='' @ [CHR 0x22] @ ''b'' @ [CHR 0x22] @ ''>''
             @ ''</div></div>''))"
  have p: "parse (tokenize (''material panel {'' @ [CHR 0x0A] @ ''color: #111827'' @ [CHR 0x0A] @ ''radius: 4px''
       @ [CHR 0x0A] @ ''}'' @ [CHR 0x0A] @ ''surface a {'' @ [CHR 0x0A] @ ''width: 10px'' @ [CHR 0x0A]
       @ ''use: panel'' @ [CHR 0x0A] @ ''surface b {'' @ [CHR 0x0A] @ ''use: panel'' @ [CHR 0x0A]
       @ ''height: 5px'' @ [CHR 0x0A] @ ''}'' @ [CHR 0x0A] @ ''}'')) = Inr (Program ?body)"
    by code_simp
  have def: "lastDefinition ''panel'' ?body = Some ?mp" by simp
  have inl: "map (inlineRefs ''panel'' ?mp) ?body = ?inlined"
    by (simp add: inlineRef_def inlineProp_def)
  have run: "compile exampleEngine 8 (Program ?body) 0 = (Inr ?out, 2)" by code_simp
  have down: "compile exampleEngine 8 (Program (map (inlineRefs ''panel'' ?mp) ?body)) 0 = (Inr ?out, 2)"
    using run by (rule named_style_inline [OF def, THEN conjunct2, THEN conjunct1, THEN mp])
  have up: "compile exampleEngine (Suc 8) (Program ?body) 0 = (Inr ?out, 2)"
    using down by (rule named_style_inline [OF def, THEN conjunct2, THEN conjunct2, THEN mp])
  have k: "''material'' = ''use'' \<or> ''material'' = ''material''" by simp
  have ref: "forEachSurfaceProp exampleEngine (Suc 8) [Property ''material'' ''panel''] []
        (collectMaterials ?body)
     = forEachSurfaceProp exampleEngine 8 (map inlineProp ?mp) [] (collectMaterials ?body)"
    using k by (rule named_style_inline [OF def, THEN conjunct1, THEN mp])
  from down have down': "compile exampleEngine 8 (Program ?inlined) 0 = (Inr ?out, 2)"
    by (simp only: inl)
  from p def inl run down' up ref show ?thesis by (intro conjI)
qed

text \<open>
  C8. A property line whose identifier is not followed by a colon adds no property and
  the parse goes on without raising. As stated (no colon before the line ends) this
  fails: \<^verbatim>\<open>parseProperty\<close> skips line breaks before it looks for the colon, so a colon
  that opens the next line completes the property. What holds: when the next token after
  the identifier and the line breaks is not a colon, \<^verbatim>\<open>parseProperty\<close> returns
  \<^verbatim>\<open>null\<close> without raising, and the loop of a surface, material or text block goes on at
  that token with the properties and children it had.
\<close>

theorem property_without_colon_skipped:
  assumes next_token: "skipNewlines ts = Inr (t # rest)"
    and no_colon: "t \<noteq> COLON"
  shows "parseProperty (IDENT k # ts) = Inr (None, t # rest)
     \<and> surfaceLoop (IDENT k # ts) properties children = surfaceLoop (t # rest) properties children
     \<and> propertyLoop (IDENT k # ts) properties = propertyLoop (t # rest) properties"
proof -
  have p: "parseProperty (IDENT k # ts) = Inr (None, t # rest)"
    using assms by (rule parseProperty_no_colon)
  have s: "skipNewlines (t # rest) = Inr (t # rest)"
    using next_token by (rule skipNewlines_idem)
  have s0: "skipNewlines (IDENT k # ts) = Inr (IDENT k # ts)" by simp
  have a: "surfaceLoop (IDENT k # ts) properties children = surfaceLoop (t # rest) properties children"
    by (subst surfaceLoop.simps) (simp add: p s s0 del: parseProperty.simps skipNewlines.simps)
  have b: "propertyLoop (IDENT k # ts) properties = propertyLoop (t # rest) properties"
    by (subst propertyLoop.simps) (simp add: p s s0 del: parseProperty.simps skipNewlines.simps)
  show ?thesis using p a b by (intro conjI)
qed

theorem property_without_colon_skipped_witness:
  "skipNewlines [NEWLINE, RBRACE, EOF] = Inr (RBRACE # [EOF])
   \<and> parseProperty (IDENT ''bogus-no-colon-here'' # [NEWLINE, RBRACE, EOF]) = Inr (None, RBRACE # [EOF])
   \<and> surfaceLoop (IDENT ''bogus-no-colon-here'' # [NEWLINE, RBRACE, EOF]) [] []
        = surfaceLoop (RBRACE # [EOF]) [] []
   \<and> propertyLoop (IDENT ''bogus-no-colon-here'' # [NEWLINE, RBRACE, EOF]) []
        = propertyLoop (RBRACE # [EOF]) []
   \<and> parse (tokenize (''surface a {'' @ [CHR 0x0A] @ ''bogus-no-colon-here'' @ [CHR 0x0A] @ ''}''))
        = Inr (Program [Surface ''a'' [] []])"
proof -
  have n: "skipNewlines [NEWLINE, RBRACE, EOF] = Inr (RBRACE # [EOF])" by simp
  have c: "RBRACE \<noteq> COLON" by simp
  have e: "parse (tokenize (''surface a {'' @ [CHR 0x0A] @ ''bogus-no-colon-here'' @ [CHR 0x0A] @ ''}''))
        = Inr (Program [Surface ''a'' [] []])"
    by code_simp
  from property_without_colon_skipped [OF n c, of "''bogus-no-colon-here''" "[]" "[]"] n e
  show ?thesis by blast
qed

theorem property_colon_on_next_line_counterexample:
  "tokenize (''surface a {'' @ [CHR 0x0A] @ ''foo'' @ [CHR 0x0A] @ '': bar'' @ [CHR 0x0A] @ ''}'')
     = [KEYWORD ''surface'', IDENT ''a'', LBRACE, NEWLINE, IDENT ''foo'', NEWLINE,
        COLON, VALUE ''bar'', NEWLINE, RBRACE, EOF]
   \<and> parse (tokenize (''surface a {'' @ [CHR 0x0A] @ ''foo'' @ [CHR 0x0A] @ '': bar'' @ [CHR 0x0A] @ ''}''))
     = Inr (Program [Surface ''a'' [Property ''foo'' ''bar''] []])"
  by code_simp

text \<open>
  C9. A colon followed by blanks only and a line break gives no value token, the parser
  still builds a Property with the empty value, and the rule of the node has a declaration
  with an empty value. The last part fails as stated: \<^verbatim>\<open>layout\<close>, \<^verbatim>\<open>wrap\<close> and
  \<^verbatim>\<open>use\<close> do not pass their value on (\<^verbatim>\<open>layout:\<close> gives
  \<^verbatim>\<open>display: flex; flex-direction: column\<close>). What holds: the tokens are
  \<^verbatim>\<open>COLON, NEWLINE\<close>; the Property has the empty value; for every key other than those
  three (and \<^verbatim>\<open>material\<close> when no style has the empty name) the property resolves to one
  declaration with the empty value; and that declaration is in the finished object and
  among the declarations of the rule when no later property resolves to its key.
\<close>

theorem empty_value_property:
  assumes blanks: "list_all isBlank ws" and lb: "isLineBreak lb"
  shows "tokenizeFrom False (CHR '':'' # ws @ lb # src) = COLON # NEWLINE # tokenizeFrom False src
     \<and> parseProperty (IDENT k # COLON # NEWLINE # ts) = Inr (Some (Property k []), NEWLINE # ts)
     \<and> (k \<notin> set [''layout'', ''wrap'', ''use'']
          \<and> (k = ''material'' \<longrightarrow> lookupMaterial materialMap [] = None)
          \<longrightarrow> (\<exists>d. resolveSurfaceProp E depth k [] materialMap = Inr [(d, [])]))
     \<and> (resolveSurfaceProp E depth k [] materialMap = Inr [(d, [])] \<and> d \<noteq> ''__proto__''
          \<and> (\<forall>q \<in> set after. \<forall>r.
                 resolveSurfaceProp E depth (p_key q) (p_value q) materialMap = Inr r
                   \<longrightarrow> d \<notin> fst ` set r)
          \<and> forEachSurfaceProp E depth (before @ [Property k []] @ after)
                [(''box-sizing'', ''border-box''), (''position'', ''relative'')] materialMap = Inr css
          \<longrightarrow> map snd (filter (\<lambda>kv. fst kv = d) css) = [[]]
              \<and> d @ '': '' @ [] \<in> set (map (\<lambda>kv. fst kv @ '': '' @ snd kv) (entries css)))"
proof -
  have A: "tokenizeFrom False (CHR '':'' # ws @ lb # src) = COLON # NEWLINE # tokenizeFrom False src"
    using tokenizeFrom_empty_value [OF blanks lb, of src]
    by (simp only: tokenizeFrom_colon)
  have B: "parseProperty (IDENT k # COLON # NEWLINE # ts) = Inr (Some (Property k []), NEWLINE # ts)"
    by (rule parseProperty_empty_value)
  have C: "\<exists>d. resolveSurfaceProp E depth k [] materialMap = Inr [(d, [])]"
    if "k \<notin> set [''layout'', ''wrap'', ''use'']"
      and "k = ''material'' \<longrightarrow> lookupMaterial materialMap [] = None"
    using that by (rule resolveSurfaceProp_empty_value)
  have D: "map snd (filter (\<lambda>kv. fst kv = d) css) = [[]]
              \<and> d @ '': '' @ [] \<in> set (map (\<lambda>kv. fst kv @ '': '' @ snd kv) (entries css))"
    if r: "resolveSurfaceProp E depth k [] materialMap = Inr [(d, [])]" and d: "d \<noteq> ''__proto__''"
      and later: "\<forall>q \<in> set after. \<forall>r.
                 resolveSurfaceProp E depth (p_key q) (p_value q) materialMap = Inr r
                   \<longrightarrow> d \<notin> fst ` set r"
      and run: "forEachSurfaceProp E depth (before @ [Property k []] @ after)
                [(''box-sizing'', ''border-box''), (''position'', ''relative'')] materialMap = Inr css"
  proof -
    have r': "resolveSurfaceProp E depth (p_key (Property k [])) (p_value (Property k [])) materialMap
                = Inr [(d, [])]"
      using r by simp
    have f: "filter (\<lambda>kv. fst kv = d) css = [(d, [])]"
      by (rule forEachSurfaceProp_last_wins [OF run _ r' _ later d]) simp_all
    have "(d, []) \<in> set (filter (\<lambda>kv. fst kv = d) css)" unfolding f by simp
    then have "(d, []) \<in> set (entries css)" by (simp add: set_entries)
    then have "(\<lambda>kv. fst kv @ '': '' @ snd kv) (d, [])
                 \<in> (\<lambda>kv. fst kv @ '': '' @ snd kv) ` set (entries css)"
      by (rule imageI)
    then have "d @ '': '' @ [] \<in> set (map (\<lambda>kv. fst kv @ '': '' @ snd kv) (entries css))"
      by simp
    then show ?thesis using f by simp
  qed
  show ?thesis using A B C D by blast
qed

theorem empty_value_property_witness:
  "list_all isBlank '' '' \<and> isLineBreak (CHR 0x0A)
   \<and> tokenizeFrom False (CHR '':'' # '' '' @ CHR 0x0A # ''}'') = COLON # NEWLINE # tokenizeFrom False ''}''
   \<and> parseProperty (IDENT ''width'' # COLON # NEWLINE # [RBRACE, EOF])
        = Inr (Some (Property ''width'' []), NEWLINE # [RBRACE, EOF])
   \<and> resolveSurfaceProp exampleEngine 0 ''width'' [] emptyMap = Inr [(''width'', [])]
   \<and> forEachSurfaceProp exampleEngine 0 ([] @ [Property ''width'' []] @ [])
        [(''box-sizing'', ''border-box''), (''position'', ''relative'')] emptyMap
        = Inr [(''box-sizing'', ''border-box''), (''position'', ''relative''), (''width'', [])]
   \<and> map snd (filter (\<lambda>kv. fst kv = ''width'')
        [(''box-sizing'', ''border-box''), (''position'', ''relative''), (''width'', [])]) = [[]]
   \<and> ''width'' @ '': '' @ [] \<in> set (map (\<lambda>kv. fst kv @ '': '' @ snd kv)
        (entries [(''box-sizing'', ''border-box''), (''position'', ''relative''), (''width'', [])]))
   \<and> compileSource exampleEngine 8 (''surface a {'' @ [CHR 0x0A] @ ''width: '' @ [CHR 0x0A] @ ''}'') 0
        = (Inr (Compiled ''#lm1 { box-sizing: border-box; position: relative; width:  }''
             (''<div id='' @ [CHR 0x22] @ ''lm1'' @ [CHR 0x22] @ '' class='' @ [CHR 0x22]
               @ ''lumen-surface'' @ [CHR 0x22] @ '' data-name='' @ [CHR 0x22] @ ''a'' @ [CHR 0x22]
               @ ''></div>'')), 1)"
proof -
  let ?css = "[(''box-sizing'', ''border-box''), (''position'', ''relative''), (''width'', [])]"
  have blanks: "list_all isBlank '' ''" by (simp add: isBlank_def)
  have lb: "isLineBreak (CHR 0x0A)" by (simp add: isLineBreak_def)
  have r: "resolveSurfaceProp exampleEngine 0 ''width'' [] emptyMap = Inr [(''width'', [])]"
    by (simp add: resolveSurfaceProp.simps)
  have run: "forEachSurfaceProp exampleEngine 0 ([] @ [Property ''width'' []] @ [])
        [(''box-sizing'', ''border-box''), (''position'', ''relative'')] emptyMap = Inr ?css"
    by (simp add: resolveSurfaceProp.simps setProperty_def)
  have d: "''width'' \<noteq> ''__proto__''" by simp
  have later: "\<forall>q \<in> set []. \<forall>r.
      resolveSurfaceProp exampleEngine 0 (p_key q) (p_value q) emptyMap = Inr r
        \<longrightarrow> ''width'' \<notin> fst ` set r"
    by simp
  have pipeline:
    "compileSource exampleEngine 8 (''surface a {'' @ [CHR 0x0A] @ ''width: '' @ [CHR 0x0A] @ ''}'') 0
        = (Inr (Compiled ''#lm1 { box-sizing: border-box; position: relative; width:  }''
             (''<div id='' @ [CHR 0x22] @ ''lm1'' @ [CHR 0x22] @ '' class='' @ [CHR 0x22]
               @ ''lumen-surface'' @ [CHR 0x22] @ '' data-name='' @ [CHR 0x22] @ ''a'' @ [CHR 0x22]
               @ ''></div>'')), 1)"
    by code_simp
  note T = empty_value_property [OF blanks lb, of "''}''" "''width''" "[RBRACE, EOF]" emptyMap
      exampleEngine 0 "''width''" "[]" "[]" ?css]
  from T blanks lb r run d later pipeline show ?thesis by blast
qed

theorem empty_value_layout_counterexample:
  "tokenize (''surface a {'' @ [CHR 0x0A] @ ''layout: '' @ [CHR 0x0A] @ ''}'')
     = [KEYWORD ''surface'', IDENT ''a'', LBRACE, NEWLINE, IDENT ''layout'', COLON, NEWLINE, RBRACE, EOF]
   \<and> parse (tokenize (''surface a {'' @ [CHR 0x0A] @ ''layout: '' @ [CHR 0x0A] @ ''}''))
     = Inr (Program [Surface ''a'' [Property ''layout'' []] []])
   \<and> compileSource exampleEngine 8 (''surface a {'' @ [CHR 0x0A] @ ''layout: '' @ [CHR 0x0A] @ ''}'') 0
     = (Inr (Compiled
          ''#lm1 { box-sizing: border-box; position: relative; display: flex; flex-direction: column }''
          (''<div id='' @ [CHR 0x22] @ ''lm1'' @ [CHR 0x22] @ '' class='' @ [CHR 0x22]
            @ ''lumen-surface'' @ [CHR 0x22] @ '' data-name='' @ [CHR 0x22] @ ''a'' @ [CHR 0x22]
            @ ''></div>'')), 1)"
  by code_simp



text \<open>
  C3. Two runs of \<^verbatim>\<open>compile\<close> on a program that compiles. With the counter put back
  to its value before the first run, the second run gives the output of the first, the
  same text. Without that, the first run leaves the counter higher by the number of
  rendered nodes, the second run succeeds as well and counts on from there, and where
  the program renders a node at all the markup of the second run differs from that of
  the first: its first element carries the identifier \<open>c1 + 1\<close>, not \<open>c + 1\<close>. The
  counter stays in the range where it counts over both runs.
\<close>

theorem compile_twice:
  assumes valid: "compile E maxDepth ast c = (Inr out1, c1)"
    and room: "c + 2 * programNodes ast \<le> 9007199254740992"
  shows "compileTwice True E maxDepth ast c = (Inr out1, Inr out1)
     \<and> c1 = c + programNodes ast
     \<and> (\<exists>out2. compileTwice False E maxDepth ast c = (Inr out1, Inr out2)
           \<and> snd (compile E maxDepth ast c1) = c1 + programNodes ast
           \<and> (0 < programNodes ast \<longrightarrow> out_html out2 \<noteq> out_html out1))"
proof -
  obtain body where ast: "ast = Program body" by (cases ast)
  let ?mm = "collectMaterials body"
  let ?n = "topCount body"
  from valid ast compile_Inr obtain cs hs where
    top1: "compileTop E maxDepth body ?mm c = (Inr (cs, hs), c1)"
    and out1: "out1 = Compiled (join [CHR 0x0A] cs) (join [CHR 0x0A] hs)" by blast
  have c1: "c1 = c + ?n" using compileTop_count [OF top1] room ast by simp
  from compileTop_succeeds [OF top1, of c1] obtain x' c2 where
    "compileTop E maxDepth body ?mm c1 = (Inr x', c2)" by blast
  then obtain cs' hs' where
    top2: "compileTop E maxDepth body ?mm c1 = (Inr (cs', hs'), c2)" by (cases x') simp
  have c2: "c2 = c1 + ?n" using compileTop_count [OF top2] room ast c1 by simp
  let ?out2 = "Compiled (join [CHR 0x0A] cs') (join [CHR 0x0A] hs')"
  have run2: "compile E maxDepth ast c1 = (Inr ?out2, c2)"
    using compile_Inr_intro [OF top2] ast by simp
  have reset: "compileTwice True E maxDepth ast c = (Inr out1, Inr out1)"
    by (simp add: compileTwice_def valid)
  have noreset: "compileTwice False E maxDepth ast c = (Inr out1, Inr ?out2)"
    by (simp add: compileTwice_def valid run2)
  have differ: "out_html ?out2 \<noteq> out_html out1" if pos: "0 < ?n"
  proof
    assume eq: "out_html ?out2 = out_html out1"
    from pos room ast have lt: "c < 9007199254740992" by simp
    from pos room ast c1 have lt1: "c1 < 9007199254740992" by simp
    from compileTop_html [OF top1 pos lt] obtain t where
      h1: "join [CHR 0x0A] hs
             = ''<div id='' @ [CHR 0x22] @ ''lm'' @ natToString (Suc c) @ [CHR 0x22] @ t" by blast
    from compileTop_html [OF top2 pos lt1] obtain t' where
      h2: "join [CHR 0x0A] hs'
             = ''<div id='' @ [CHR 0x22] @ ''lm'' @ natToString (Suc c1) @ [CHR 0x22] @ t'" by blast
    from eq out1 have "join [CHR 0x0A] hs' = join [CHR 0x0A] hs" by simp
    then have "''<div id='' @ [CHR 0x22] @ ''lm'' @ natToString (Suc c1) @ [CHR 0x22] @ t'
             = ''<div id='' @ [CHR 0x22] @ ''lm'' @ natToString (Suc c) @ [CHR 0x22] @ t"
      by (simp only: h1 h2)
    then have "Suc c1 = Suc c" by (rule div_prefix_inj)
    with c1 pos show False by simp
  qed
  show ?thesis
    using reset c1 noreset run2 c2 differ ast by auto
qed

theorem compile_twice_witness:
  "parse (tokenize (''material m {'' @ [CHR 0x0A] @ ''width: 10px'' @ [CHR 0x0A] @ ''}'' @ [CHR 0x0A]
       @ ''surface a {'' @ [CHR 0x0A] @ ''use: m'' @ [CHR 0x0A]
       @ ''text '' @ [CHR 0x22] @ ''hi'' @ [CHR 0x22] @ [CHR 0x0A]
       @ ''surface b {'' @ [CHR 0x0A] @ ''}'' @ [CHR 0x0A] @ ''}''))
     = Inr (Program [Material ''m'' [Property ''width'' ''10px''],
                     Surface ''a'' [Property ''use'' ''m''] [Text ''hi'' [], Surface ''b'' [] []]])
   \<and> programNodes (Program [Material ''m'' [Property ''width'' ''10px''],
                     Surface ''a'' [Property ''use'' ''m''] [Text ''hi'' [], Surface ''b'' [] []]]) = 3
   \<and> compileTwice True exampleEngine 8
        (Program [Material ''m'' [Property ''width'' ''10px''],
                  Surface ''a'' [Property ''use'' ''m''] [Text ''hi'' [], Surface ''b'' [] []]]) 0
     = (Inr (Compiled
          (''#lm1 { box-sizing: border-box; position: relative; width: 10px }'' @ [CHR 0x0A]
             @ ''#lm2 { box-sizing: border-box; margin: 0 }'' @ [CHR 0x0A]
             @ ''#lm3 { box-sizing: border-box; position: relative }'')
          (''<div id='' @ [CHR 0x22] @ ''lm1'' @ [CHR 0x22] @ '' class='' @ [CHR 0x22]
             @ ''lumen-surface'' @ [CHR 0x22] @ '' data-name='' @ [CHR 0x22] @ ''a'' @ [CHR 0x22] @ ''>''
             @ ''<p id='' @ [CHR 0x22] @ ''lm2'' @ [CHR 0x22] @ '' class='' @ [CHR 0x22]
             @ ''lumen-text'' @ [CHR 0x22] @ ''>hi</p>'' @ [CHR 0x0A]
             @ ''<div id='' @ [CHR 0x22] @ ''lm3'' @ [CHR 0x22] @ '' class='' @ [CHR 0x22]
             @ ''lumen-surface'' @ [CHR 0x22] @ '' data-name='' @ [CHR 0x22] @ ''b'' @ [CHR 0x22] @ ''>''
             @ ''</div></div>'')),
        Inr (Compiled
          (''#lm1 { box-sizing: border-box; position: relative; width: 10px }'' @ [CHR 0x0A]
             @ ''#lm2 { box-sizing: border-box; margin: 0 }'' @ [CHR 0x0A]
             @ ''#lm3 { box-sizing: border-box; position: relative }'')
          (''<div id='' @ [CHR 0x22] @ ''lm1'' @ [CHR 0x22] @ '' class='' @ [CHR 0x22]
             @ ''lumen-surface'' @ [CHR 0x22] @ '' data-name='' @ [CHR 0x22] @ ''a'' @ [CHR 0x22] @ ''>''
             @ ''<p id='' @ [CHR 0x22] @ ''lm2'' @ [CHR 0x22] @ '' class='' @ [CHR 0x22]
             @ ''lumen-text'' @ [CHR 0x22] @ ''>hi</p>'' @ [CHR 0x0A]
             @ ''<div id='' @ [CHR 0x22] @ ''lm3'' @ [CHR 0x22] @ '' class='' @ [CHR 0x22]
             @ ''lumen-surface'' @ [CHR 0x22] @ '' data-name='' @ [CHR 0x22] @ ''b'' @ [CHR 0x22] @ ''>''
             @ ''</div></div>'')))
   \<and> snd (compile exampleEngine 8
        (Program [Material ''m'' [Property ''width'' ''10px''],
                  Surface ''a'' [Property ''use'' ''m''] [Text ''hi'' [], Surface ''b'' [] []]]) 3) = 6
   \<and> (\<exists>out2. compileTwice False exampleEngine 8
        (Program [Material ''m'' [Property ''width'' ''10px''],
                  Surface ''a'' [Property ''use'' ''m''] [Text ''hi'' [], Surface ''b'' [] []]]) 0
       = (Inr (Compiled
          (''#lm1 { box-sizing: border-box; position: relative; width: 10px }'' @ [CHR 0x0A]
             @ ''#lm2 { box-sizing: border-box; margin: 0 }'' @ [CHR 0x0A]
             @ ''#lm3 { box-sizing: border-box; position: relative }'')
          (''<div id='' @ [CHR 0x22] @ ''lm1'' @ [CHR 0x22] @ '' class='' @ [CHR 0x22]
             @ ''lumen-surface'' @ [CHR 0x22] @ '' data-name='' @ [CHR 0x22] @ ''a'' @ [CHR 0x22] @ ''>''
             @ ''<p id='' @ [CHR 0x22] @ ''lm2'' @ [CHR 0x22] @ '' class='' @ [CHR 0x22]
             @ ''lumen-text'' @ [CHR 0x22] @ ''>hi</p>'' @ [CHR 0x0A]
             @ ''<div id='' @ [CHR 0x22] @ ''lm3'' @ [CHR 0x22] @ '' class='' @ [CHR 0x22]
             @ ''lumen-surface'' @ [CHR 0x22] @ '' data-name='' @ [CHR 0x22] @ ''b'' @ [CHR 0x22] @ ''>''
             @ ''</div></div>'')), Inr out2)
     \<and> out_html out2 \<noteq>
          ''<div id='' @ [CHR 0x22] @ ''lm1'' @ [CHR 0x22] @ '' class='' @ [CHR 0x22]
             @ ''lumen-surface'' @ [CHR 0x22] @ '' data-name='' @ [CHR 0x22] @ ''a'' @ [CHR 0x22] @ ''>''
             @ ''<p id='' @ [CHR 0x22] @ ''lm2'' @ [CHR 0x22] @ '' class='' @ [CHR 0x22]
             @ ''lumen-text'' @ [CHR 0x22] @ ''>hi</p>'' @ [CHR 0x0A]
             @ ''<div id='' @ [CHR 0x22] @ ''lm3'' @ [CHR 0x22] @ '' class='' @ [CHR 0x22]
             @ ''lumen-surface'' @ [CHR 0x22] @ '' data-name='' @ [CHR 0x22] @ ''b'' @ [CHR 0x22] @ ''>''
             @ ''</div></div>'')"
proof -
  let ?ast = "Program [Material ''m'' [Property ''width'' ''10px''],
                  Surface ''a'' [Property ''use'' ''m''] [Text ''hi'' [], Surface ''b'' [] []]]"
  let ?out1 = "Compiled
          (''#lm1 { box-sizing: border-box; position: relative; width: 10px }'' @ [CHR 0x0A]
             @ ''#lm2 { box-sizing: border-box; margin: 0 }'' @ [CHR 0x0A]
             @ ''#lm3 { box-sizing: border-box; position: relative }'')
          (''<div id='' @ [CHR 0x22] @ ''lm1'' @ [CHR 0x22] @ '' class='' @ [CHR 0x22]
             @ ''lumen-surface'' @ [CHR 0x22] @ '' data-name='' @ [CHR 0x22] @ ''a'' @ [CHR 0x22] @ ''>''
             @ ''<p id='' @ [CHR 0x22] @ ''lm2'' @ [CHR 0x22] @ '' class='' @ [CHR 0x22]
             @ ''lumen-text'' @ [CHR 0x22] @ ''>hi</p>'' @ [CHR 0x0A]
             @ ''<div id='' @ [CHR 0x22] @ ''lm3'' @ [CHR 0x22] @ '' class='' @ [CHR 0x22]
             @ ''lumen-surface'' @ [CHR 0x22] @ '' data-name='' @ [CHR 0x22] @ ''b'' @ [CHR 0x22] @ ''>''
             @ ''</div></div>'')"
  have p: "parse (tokenize (''material m {'' @ [CHR 0x0A] @ ''width: 10px'' @ [CHR 0x0A] @ ''}'' @ [CHR 0x0A]
       @ ''surface a {'' @ [CHR 0x0A] @ ''use: m'' @ [CHR 0x0A]
       @ ''text '' @ [CHR 0x22] @ ''hi'' @ [CHR 0x22] @ [CHR 0x0A]
       @ ''surface b {'' @ [CHR 0x0A] @ ''}'' @ [CHR 0x0A] @ ''}'')) = Inr ?ast"
    by code_simp
  have n: "programNodes ?ast = 3" by simp
  have valid: "compile exampleEngine 8 ?ast 0 = (Inr ?out1, 3)" by code_simp
  have room: "0 + 2 * programNodes ?ast \<le> 9007199254740992" by (simp only: n)
  note twice = compile_twice [OF valid room]
  have t: "compileTwice True exampleEngine 8 ?ast 0 = (Inr ?out1, Inr ?out1)"
    by (rule twice [THEN conjunct1])
  from twice [THEN conjunct2, THEN conjunct2] obtain out2 where
    f: "compileTwice False exampleEngine 8 ?ast 0 = (Inr ?out1, Inr out2)"
    and c: "snd (compile exampleEngine 8 ?ast 3) = 3 + programNodes ?ast"
    and d: "0 < programNodes ?ast \<longrightarrow> out_html out2 \<noteq> out_html ?out1"
    by (elim exE conjE)
  have pos: "0 < programNodes ?ast" by (simp only: n zero_less_numeral)
  from d pos have d': "out_html out2 \<noteq> out_html ?out1" by (rule mp)
  from d' have d2: "out_html out2 \<noteq>
          ''<div id='' @ [CHR 0x22] @ ''lm1'' @ [CHR 0x22] @ '' class='' @ [CHR 0x22]
             @ ''lumen-surface'' @ [CHR 0x22] @ '' data-name='' @ [CHR 0x22] @ ''a'' @ [CHR 0x22] @ ''>''
             @ ''<p id='' @ [CHR 0x22] @ ''lm2'' @ [CHR 0x22] @ '' class='' @ [CHR 0x22]
             @ ''lumen-text'' @ [CHR 0x22] @ ''>hi</p>'' @ [CHR 0x0A]
             @ ''<div id='' @ [CHR 0x22] @ ''lm3'' @ [CHR 0x22] @ '' class='' @ [CHR 0x22]
             @ ''lumen-surface'' @ [CHR 0x22] @ '' data-name='' @ [CHR 0x22] @ ''b'' @ [CHR 0x22] @ ''>''
             @ ''</div></div>''"
    unfolding compiled.sel .
  have six: "3 + programNodes ?ast = 6" by (simp only: n)
  from c six have c': "snd (compile exampleEngine 8 ?ast 3) = 6" by (rule trans)
  from f d2 have e: "\<exists>out2. compileTwice False exampleEngine 8 ?ast 0 = (Inr ?out1, Inr out2)
     \<and> out_html out2 \<noteq>
          ''<div id='' @ [CHR 0x22] @ ''lm1'' @ [CHR 0x22] @ '' class='' @ [CHR 0x22]
             @ ''lumen-surface'' @ [CHR 0x22] @ '' data-name='' @ [CHR 0x22] @ ''a'' @ [CHR 0x22] @ ''>''
             @ ''<p id='' @ [CHR 0x22] @ ''lm2'' @ [CHR 0x22] @ '' class='' @ [CHR 0x22]
             @ ''lumen-text'' @ [CHR 0x22] @ ''>hi</p>'' @ [CHR 0x0A]
             @ ''<div id='' @ [CHR 0x22] @ ''lm3'' @ [CHR 0x22] @ '' class='' @ [CHR 0x22]
             @ ''lumen-surface'' @ [CHR 0x22] @ '' data-name='' @ [CHR 0x22] @ ''b'' @ [CHR 0x22] @ ''>''
             @ ''</div></div>''"
    by (intro exI conjI)
  from p n t c' e show ?thesis by (intro conjI)
qed

end
